(* ===== verification/Prelude.thy ===== *)
theory Prelude
  imports Main "HOL-Library.Sublist" "HOL-Library.List_Lexorder" "HOL-Library.Char_ord"
    "HOL-Library.AList"
begin

text \<open>
  Shared vocabulary of the development: the Python exceptions the modelled code can
  raise, the result type of fallible operations, and the Python string built-ins the
  module calls (\<open>str.isspace\<close>, \<open>str.isdigit\<close>, \<open>str.isalpha\<close>, \<open>str.lower\<close>,
  \<open>str.strip\<close>, \<open>str.split\<close>, \<open>str.join\<close>, the substring test \<open>in\<close>,
  \<open>os.path.basename\<close>). These are library semantics, not code of the repository;
  they are written out for the characters of HOL's \<open>char\<close> type read as the code
  points U+0000 to U+00FF (Latin-1), where Python's Unicode tables give exactly the
  classes below. Characters beyond U+00FF are outside the model.
\<close>

named_theorems py_str_simps "rewrite rules of the modelled Python string built-ins"

section \<open>Exceptions and results\<close>

text \<open>
  \<open>DanglingRef\<close> is not a Python exception: it is the value the heap model of
  \<^theory_text>\<open>Corpus\<close> gives to a reference that points nowhere, which no well-formed world
  has (Python objects cannot dangle).
\<close>

datatype py_error =
    IndexError | KeyError | ValueError | TypeError | AttributeError | OSError | RuntimeError
  | SystemExit int | DanglingRef

type_synonym 'a result = "py_error + 'a"

text \<open>Sequencing of fallible steps: the first exception is the result.\<close>

definition sbind :: "'a result \<Rightarrow> ('a \<Rightarrow> 'b result) \<Rightarrow> 'b result" where
  "sbind m f = (case m of Inl e \<Rightarrow> Inl e | Inr a \<Rightarrow> f a)"

text \<open>A result that is not \<open>sys.exit\<close>: the exceptions a \<open>try\<close> of \<open>Exception\<close> catches.\<close>

definition no_exit :: "'a result \<Rightarrow> bool" where
  "no_exit r = (\<forall>n. r \<noteq> Inl (SystemExit n))"

section \<open>Character classes of Python's \<open>str\<close> methods\<close>

definition py_isspace :: "char \<Rightarrow> bool" where
  "py_isspace c =
     (let n = (of_char c :: nat)
      in (9 \<le> n \<and> n \<le> 13) \<or> (28 \<le> n \<and> n \<le> 32) \<or> n = 133 \<or> n = 160)"

definition py_isdigit :: "char \<Rightarrow> bool" where
  "py_isdigit c =
     (let n = (of_char c :: nat) in (48 \<le> n \<and> n \<le> 57) \<or> n = 178 \<or> n = 179 \<or> n = 185)"

definition py_isalpha :: "char \<Rightarrow> bool" where
  "py_isalpha c =
     (let n = (of_char c :: nat)
      in (65 \<le> n \<and> n \<le> 90) \<or> (97 \<le> n \<and> n \<le> 122) \<or> n = 170 \<or> n = 181 \<or> n = 186
         \<or> (192 \<le> n \<and> n \<le> 214) \<or> (216 \<le> n \<and> n \<le> 246) \<or> 248 \<le> n)"

text \<open>The regular-expression class \<open>[A-Za-z]\<close> and \<open>[a-zA-Z0-9]\<close> (ASCII only).\<close>

definition ascii_letter :: "char \<Rightarrow> bool" where
  "ascii_letter c =
     (let n = (of_char c :: nat) in (65 \<le> n \<and> n \<le> 90) \<or> (97 \<le> n \<and> n \<le> 122))"

definition ascii_alnum :: "char \<Rightarrow> bool" where
  "ascii_alnum c = (ascii_letter c \<or> (let n = (of_char c :: nat) in 48 \<le> n \<and> n \<le> 57))"

text \<open>\<open>str.lower\<close> on Latin-1: A--Z and \<open>\<Agrave>\<close>--\<open>\<THORN>\<close> (but \<open>\<times>\<close>) move up by 32.\<close>

definition py_lower_char :: "char \<Rightarrow> char" where
  "py_lower_char c =
     (let n = (of_char c :: nat)
      in if (65 \<le> n \<and> n \<le> 90) \<or> (192 \<le> n \<and> n \<le> 222 \<and> n \<noteq> 215)
         then char_of (n + 32) else c)"

definition py_lower :: "string \<Rightarrow> string" where
  "py_lower s = map py_lower_char s"

section \<open>\<open>str.strip()\<close>, \<open>str.split()\<close>, \<open>str.join\<close>, \<open>in\<close>\<close>

definition py_strip :: "string \<Rightarrow> string" where
  "py_strip s = rev (dropWhile py_isspace (rev (dropWhile py_isspace s)))"

text \<open>\<open>str.split()\<close> with no separator: the maximal runs of non-space characters.\<close>

function py_split :: "string \<Rightarrow> string list" where
  "py_split s =
     (let t = dropWhile py_isspace s
      in if t = [] then []
         else takeWhile (\<lambda>c. \<not> py_isspace c) t # py_split (dropWhile (\<lambda>c. \<not> py_isspace c) t))"
  by pat_completeness auto

termination py_split
proof (relation "measure length")
  fix s t :: string
  assume t: "t = dropWhile py_isspace s" and ne: "t \<noteq> []"
  have "\<not> py_isspace (hd t)" using hd_dropWhile ne t by blast
  then have "length (dropWhile (\<lambda>c. \<not> py_isspace c) t) < length t"
    using ne by (cases t) (auto simp: le_imp_less_Suc length_dropWhile_le)
  then show "(dropWhile (\<lambda>c. \<not> py_isspace c) t, s) \<in> measure length"
    using length_dropWhile_le [of py_isspace s] t by simp
qed simp

declare py_split.simps [simp del]

fun py_join :: "string \<Rightarrow> string list \<Rightarrow> string" where
  "py_join sep [] = []"
| "py_join sep [x] = x"
| "py_join sep (x # xs) = x @ sep @ py_join sep xs"

text \<open>\<open>str.split(sep)\<close> with a one-character separator: every occurrence splits, empty
  pieces are kept.\<close>

fun py_split_sep :: "char \<Rightarrow> string \<Rightarrow> string list" where
  "py_split_sep c [] = [[]]"
| "py_split_sep c (x # xs) =
     (if x = c then [] # py_split_sep c xs
      else case py_split_sep c xs of [] \<Rightarrow> [[x]] | p # ps \<Rightarrow> (x # p) # ps)"

text \<open>\<open>s.endswith(e)\<close>.\<close>

definition py_endswith :: "string \<Rightarrow> string \<Rightarrow> bool" where
  "py_endswith s e = (length e \<le> length s \<and> drop (length s - length e) s = e)"

text \<open>\<open>sub in s\<close> for strings is the contiguous-substring test.\<close>

abbreviation py_in :: "string \<Rightarrow> string \<Rightarrow> bool" where
  "py_in sub s \<equiv> sublist sub s"

text \<open>\<open>os.path.basename\<close>: the part after the last slash.\<close>

definition py_basename :: "string \<Rightarrow> string" where
  "py_basename p = rev (takeWhile (\<lambda>c. c \<noteq> CHR ''/'') (rev p))"

section \<open>Shared lemmas\<close>

lemma length_dropWhile_split_less:
  "dropWhile P s \<noteq> [] \<Longrightarrow> length (dropWhile (\<lambda>c. \<not> P c) (dropWhile P s)) < length s"
proof -
  assume ne: "dropWhile P s \<noteq> []"
  have "\<not> P (hd (dropWhile P s))" using hd_dropWhile [OF ne] by blast
  then have "length (dropWhile (\<lambda>c. \<not> P c) (dropWhile P s)) < length (dropWhile P s)"
    using ne by (cases "dropWhile P s") (auto simp: le_imp_less_Suc length_dropWhile_le)
  then show ?thesis using length_dropWhile_le [of P s] by linarith
qed

lemma length_py_lower [simp, py_str_simps]: "length (py_lower s) = length s"
  by (simp add: py_lower_def)

lemma py_lower_append [simp, py_str_simps]: "py_lower (xs @ ys) = py_lower xs @ py_lower ys"
  by (simp add: py_lower_def)

lemma py_lower_Cons [simp, py_str_simps]: "py_lower (c # s) = py_lower_char c # py_lower s"
  by (simp add: py_lower_def)

lemma py_lower_Nil [simp, py_str_simps]: "py_lower [] = []"
  by (simp add: py_lower_def)

lemma of_char_py_lower_char:
  "(of_char (py_lower_char c) :: nat) =
     (let n = of_char c
      in if (65 \<le> n \<and> n \<le> 90) \<or> (192 \<le> n \<and> n \<le> 222 \<and> n \<noteq> 215) then n + 32 else n)"
  using nat_of_char_less_256[of c] by (auto simp: py_lower_char_def Let_def)

lemma py_lower_char_idem [simp, py_str_simps]: "py_lower_char (py_lower_char c) = py_lower_char c"
  using nat_of_char_less_256[of c] by (auto simp: py_lower_char_def Let_def)

lemma py_lower_char_space [simp, py_str_simps]: "py_lower_char c = CHR '' '' \<longleftrightarrow> c = CHR '' ''"
proof -
  have sp: "(of_char (CHR '' '') :: nat) = 32" by simp
  have "py_lower_char c = CHR '' '' \<longleftrightarrow> (of_char (py_lower_char c) :: nat) = 32"
    by (metis of_char_eq_iff sp)
  also have "\<dots> \<longleftrightarrow> (of_char c :: nat) = 32"
    by (auto simp: of_char_py_lower_char Let_def)
  also have "\<dots> \<longleftrightarrow> c = CHR '' ''"
    by (metis of_char_eq_iff sp)
  finally show ?thesis .
qed

lemma py_strip_idem [simp, py_str_simps]: "py_strip (py_strip s) = py_strip s"
proof -
  let ?a = "dropWhile py_isspace s"
  let ?r = "dropWhile py_isspace (rev ?a)"
  have ha: "?a = [] \<or> \<not> py_isspace (hd ?a)" using hd_dropWhile by blast
  have hr: "?r = [] \<or> \<not> py_isspace (hd ?r)" using hd_dropWhile by blast
  have "\<exists>t. rev ?a = t @ ?r" by (metis takeWhile_dropWhile_id)
  then obtain t where t: "?a = rev ?r @ rev t" by (metis rev_append rev_rev_ident)
  have "rev ?r = [] \<or> \<not> py_isspace (hd (rev ?r))"
  proof (cases "rev ?r = []")
    case False
    then have "hd ?a = hd (rev ?r)" by (metis hd_append2 t)
    moreover have "?a \<noteq> []" using False t by (metis Nil_is_append_conv)
    ultimately show ?thesis using ha by metis
  qed simp
  then have d1: "dropWhile py_isspace (rev ?r) = rev ?r" by (simp only: dropWhile_eq_self_iff)
  have d2: "dropWhile py_isspace ?r = ?r" using hr by (simp only: dropWhile_eq_self_iff)
  show ?thesis by (simp add: py_strip_def d1 d2)
qed

lemma sorted_list_of_set_inter:
  assumes "finite A"
  shows "sorted_list_of_set (A \<inter> B) = filter (\<lambda>x. x \<in> B) (sorted_list_of_set A)"
proof -
  let ?l = "filter (\<lambda>x. x \<in> B) (sorted_list_of_set A)"
  have "sorted_wrt (<) ?l"
    using sorted_wrt_filter strict_sorted_list_of_set by blast
  moreover have "set ?l = A \<inter> B" using assms by auto
  moreover have "length ?l = card (A \<inter> B)"
    using assms by (metis calculation(2) distinct_card distinct_filter distinct_sorted_list_of_set)
  ultimately show ?thesis
    using assms sorted_list_of_set_unique [of "A \<inter> B" ?l] by simp
qed
lemma sbind_simps [simp]:
  "sbind (Inl e) f = Inl e"
  "sbind (Inr a) f = f a"
  by (simp_all add: sbind_def)

lemma sbind_eq_Inr: "sbind m f = Inr y \<longleftrightarrow> (\<exists>x. m = Inr x \<and> f x = Inr y)"
  by (cases m) auto

lemma no_exit_Inr [simp]: "no_exit (Inr a)"
  by (simp add: no_exit_def)

lemma no_exit_sbind [intro!]: "no_exit m \<Longrightarrow> (\<And>a. no_exit (f a)) \<Longrightarrow> no_exit (sbind m f)"
  by (cases m) (auto simp: no_exit_def)

lemma py_split_sep_no_sep: "c \<notin> set a \<Longrightarrow> py_split_sep c a = [a]"
  by (induction a) auto

lemma py_split_sep_append: "c \<notin> set a \<Longrightarrow> py_split_sep c (a @ c # b) = a # py_split_sep c b"
  by (induction a) auto

text \<open>\<open>" ".join\<close> and \<open>str.split()\<close> undo each other on words without whitespace.\<close>

lemma py_split_Nil [simp]: "py_split [] = []"
  by (simp add: py_split.simps)

lemma py_split_Cons_space: "py_isspace c \<Longrightarrow> py_split (c # s) = py_split s"
  by (simp add: py_split.simps [of "c # s"] py_split.simps [of s])

lemma py_split_word:
  assumes "w \<noteq> []" "list_all (\<lambda>c. \<not> py_isspace c) w" "rest = [] \<or> py_isspace (hd rest)"
  shows "py_split (w @ rest) = w # py_split rest"
proof -
  have d: "dropWhile py_isspace (w @ rest) = w @ rest"
    using assms(1,2) by (cases w) auto
  have t: "takeWhile (\<lambda>c. \<not> py_isspace c) (w @ rest) = w"
    using assms(2,3) by (cases rest) (auto simp: list_all_iff takeWhile_append2)
  have r: "dropWhile (\<lambda>c. \<not> py_isspace c) (w @ rest) = rest"
    using assms(2,3) by (cases rest) (auto simp: list_all_iff dropWhile_append2)
  show ?thesis using assms(1) d t r by (simp add: py_split.simps [of "w @ rest"])
qed

lemma py_split_join:
  "\<forall>w \<in> set ws. w \<noteq> [] \<and> list_all (\<lambda>c. \<not> py_isspace c) w \<Longrightarrow> py_split (py_join '' '' ws) = ws"
proof (induction ws rule: induct_list012)
  case (2 x)
  then show ?case using py_split_word [of x "[]"] by simp
next
  case (3 x y ys)
  then show ?case
    using py_split_word [of x "'' '' @ py_join '' '' (y # ys)"]
    by (simp add: py_split_Cons_space py_isspace_def)
qed simp

lemma py_split_words:
  "w \<in> set (py_split s) \<Longrightarrow> w \<noteq> [] \<and> list_all (\<lambda>c. \<not> py_isspace c) w"
proof (induction s rule: py_split.induct)
  case (1 s)
  let ?t = "dropWhile py_isspace s"
  show ?case
  proof (cases "?t = []")
    case True
    with 1(2) show ?thesis by (simp add: py_split.simps [of s])
  next
    case False
    then have h: "\<not> py_isspace (hd ?t)" using hd_dropWhile by blast
    have "w = takeWhile (\<lambda>c. \<not> py_isspace c) ?t \<or> w \<in> set (py_split (dropWhile (\<lambda>c. \<not> py_isspace c) ?t))"
      using 1(2) False by (simp add: py_split.simps [of s] Let_def del: dropWhile_eq_Nil_conv)
    then show ?thesis
    proof
      assume "w = takeWhile (\<lambda>c. \<not> py_isspace c) ?t"
      with h False show ?thesis by (cases ?t) (auto simp: list_all_iff dest: set_takeWhileD)
    qed (use 1(1) False in auto)
  qed
qed

end
