(* ===== verification/TitleCase.thy ===== *)
theory TitleCase
  imports Prelude
begin

text \<open>
  \<open>title_case\<close> (src/lib/techknacq/corpus.py, lines 323--327): thirteen passes of
  \<open>re.sub('([A-Za-z]) ' + word + ' ', r'\1 ' + word.lower() + ' ', s)\<close>, one per
  function word, in the order of the source's list. One pass is \<open>re_sub_word\<close>: the
  scan of \<open>re.sub\<close> for a pattern of fixed length, which at each position either
  matches (a letter, a space, the word, a space), writes the replacement and resumes
  after the match, or copies one character and moves on. Its lemmas: the length is
  kept, every character is kept or lower-cased, the first word is never touched; and a
  pass is not idempotent when the same word occurs twice in a row.
\<close>

definition func_words :: "string list" where
  "func_words = [''And'', ''The'', ''Of'', ''From'', ''To'', ''In'', ''For'', ''A'', ''An'',
                 ''On'', ''Is'', ''As'', ''At'']"

fun re_sub_word :: "string \<Rightarrow> string \<Rightarrow> string" where
  "re_sub_word w (c # sp # rest) =
     (if ascii_letter c \<and> sp = CHR '' '' \<and> take (Suc (length w)) rest = w @ '' ''
      then c # CHR '' '' # py_lower w @ CHR '' '' # re_sub_word w (drop (Suc (length w)) rest)
      else c # re_sub_word w (sp # rest))"
| "re_sub_word w s = s"

definition title_case :: "string \<Rightarrow> string" where
  "title_case s = foldl (\<lambda>s word. re_sub_word word s) s func_words"

abbreviation sub_match :: "string \<Rightarrow> char \<Rightarrow> char \<Rightarrow> string \<Rightarrow> bool" where
  "sub_match w c sp rest \<equiv>
     ascii_letter c \<and> sp = CHR '' '' \<and> take (Suc (length w)) rest = w @ '' ''"

text \<open>Each character of the result is the input's, or its lower case.\<close>

definition lowered_from :: "string \<Rightarrow> string \<Rightarrow> bool" where
  "lowered_from s t = list_all2 (\<lambda>a b. b = a \<or> b = py_lower_char a) s t"

section \<open>One pass of \<open>re.sub\<close>\<close>

lemma take_Suc_eq_snoc:
  "take (Suc n) xs = w @ [c] \<Longrightarrow> length w = n \<Longrightarrow> xs = w @ c # drop (Suc n) xs"
  by (metis append.assoc append_Cons append_Nil append_take_drop_id)

lemma re_sub_word_match:
  assumes "sub_match w c sp rest"
  shows "re_sub_word w (c # sp # rest) =
           c # CHR '' '' # py_lower w @ CHR '' '' # re_sub_word w (drop (Suc (length w)) rest)"
    and "rest = w @ CHR '' '' # drop (Suc (length w)) rest"
  using assms by (auto intro: take_Suc_eq_snoc)

lemma re_sub_word_skip:
  "\<not> sub_match w c sp rest \<Longrightarrow> re_sub_word w (c # sp # rest) = c # re_sub_word w (sp # rest)"
  unfolding re_sub_word.simps(1) by (rule if_not_P)

declare re_sub_word.simps(1) [simp del]

lemma re_sub_word_length [simp]: "length (re_sub_word w s) = length s"
proof (induction w s rule: re_sub_word.induct)
  case (1 w c sp rest)
  show ?case
  proof (cases "sub_match w c sp rest")
    case True
    note m = re_sub_word_match [OF True]
    have "length (take (Suc (length w)) rest) = Suc (length w)"
      using True by simp
    then have "Suc (length w) \<le> length rest" by simp
    with m(1) "1.IH"(1) [OF True] show ?thesis by simp
  next
    case False
    with "1.IH"(2) [OF False] show ?thesis by (simp add: re_sub_word_skip)
  qed
qed auto

lemma lowered_from_refl [simp]: "lowered_from s s"
  by (simp add: lowered_from_def list_all2_refl)

lemma lowered_from_Cons [simp]: "lowered_from (c # s) (c # t) = lowered_from s t"
  by (simp add: lowered_from_def)

lemma lowered_from_append:
  "lowered_from s t \<Longrightarrow> lowered_from s' t' \<Longrightarrow> lowered_from (s @ s') (t @ t')"
  by (simp add: lowered_from_def list_all2_appendI)

lemma lowered_from_lower [simp]: "lowered_from s (py_lower s)"
  by (simp add: lowered_from_def py_lower_def list_all2_conv_all_nth)

lemma lowered_from_trans:
  "lowered_from s t \<Longrightarrow> lowered_from t u \<Longrightarrow> lowered_from s u"
  unfolding lowered_from_def
  by (rule list_all2_trans) auto

lemma re_sub_word_lowered: "lowered_from s (re_sub_word w s)"
proof (induction w s rule: re_sub_word.induct)
  case (1 w c sp rest)
  show ?case
  proof (cases "sub_match w c sp rest")
    case True
    note m = re_sub_word_match [OF True]
    have "lowered_from (w @ CHR '' '' # drop (Suc (length w)) rest)
            (py_lower w @ CHR '' '' # re_sub_word w (drop (Suc (length w)) rest))"
      using "1.IH"(1) [OF True] by (intro lowered_from_append) auto
    then show ?thesis using True by (subst m(1), subst m(2)) simp
  next
    case False
    with "1.IH"(2) [OF False] show ?thesis by (simp add: re_sub_word_skip)
  qed
qed auto

lemma re_sub_word_first_word:
  "takeWhile (\<lambda>c. c \<noteq> CHR '' '') (re_sub_word w s) = takeWhile (\<lambda>c. c \<noteq> CHR '' '') s"
proof (induction w s rule: re_sub_word.induct)
  case (1 w c sp rest)
  show ?case
  proof (cases "sub_match w c sp rest")
    case True
    then show ?thesis by (simp add: re_sub_word_match(1))
  next
    case False
    with "1.IH"(2) [OF False] show ?thesis by (simp add: re_sub_word_skip)
  qed
qed auto

section \<open>The thirteen passes\<close>

lemma foldl_re_sub_lowered:
  "lowered_from s (foldl (\<lambda>s word. re_sub_word word s) s ws)"
proof (induction ws arbitrary: s)
  case (Cons w ws)
  then show ?case
    using re_sub_word_lowered lowered_from_trans by (metis foldl_Cons)
qed simp

lemma foldl_re_sub_first_word:
  "takeWhile (\<lambda>c. c \<noteq> CHR '' '') (foldl (\<lambda>s word. re_sub_word word s) s ws)
     = takeWhile (\<lambda>c. c \<noteq> CHR '' '') s"
  by (induction ws arbitrary: s) (simp_all add: re_sub_word_first_word)

lemma title_case_Nil [simp]: "title_case [] = []"
proof -
  have "foldl (\<lambda>s word. re_sub_word word s) [] ws = []" for ws
    by (induction ws) simp_all
  then show ?thesis by (simp add: title_case_def)
qed

section \<open>Properties of \<open>title_case\<close>\<close>

text \<open>
  The example of the specification: over-capitalised function words between
  two words are lower-cased, the rest is kept.
\<close>

theorem title_case_example:
  "title_case ''Graphs And The Theory Of Networks'' = ''Graphs and the Theory of Networks''"
  by code_simp

text \<open>
  C39: \<open>title_case\<close> never changes the first word of the string (everything up to the
  first space), so a leading capitalised function word such as \<open>The\<close> stays as it is.
\<close>

theorem title_case_keeps_first_word:
  "takeWhile (\<lambda>c. c \<noteq> CHR '' '') (title_case s) = takeWhile (\<lambda>c. c \<noteq> CHR '' '') s"
  unfolding title_case_def by (rule foldl_re_sub_first_word)

text \<open>
  C40: \<open>title_case\<close> keeps the length of the string and changes a character only by
  lower-casing it.
\<close>

theorem title_case_only_lowers: "lowered_from s (title_case s)"
  unfolding title_case_def by (rule foldl_re_sub_lowered)

text \<open>
  Example: \<open>title_case\<close> is not idempotent: the scan of \<open>re.sub\<close> resumes after the
  space that ends a match, so of two equal function words in a row only the first is
  lower-cased, and a second application changes the string again. Every document read
  from JSON goes through \<open>title_case\<close>, so writing it back and reading it again can
  change its title.
\<close>

theorem title_case_not_idempotent:
  "title_case ''Parts Of Of Speech'' = ''Parts of Of Speech'' \<and>
   title_case (title_case ''Parts Of Of Speech'') = ''Parts of of Speech''"
  by code_simp

end
