(* ===== verification/Json.thy ===== *)
theory Json
  imports Prelude
begin

text \<open>
  The values \<open>json.load\<close> returns and \<open>json.dumps\<close> prints, as the corpus module
  sees them: \<open>null\<close>, booleans, integers, strings, arrays and objects. An object is
  the list of its members in file order; Python's \<open>dict\<close> built from it keeps the
  last value of a repeated key, which is \<open>jget\<close>. Floating-point numbers are not
  modelled (no field of a document holds one). \<open>py_truthy\<close> is Python's truth
  value of such a value, used where the code writes \<open>if sect['heading']\<close>.
\<close>

datatype jval =
    JNull
  | JBool bool
  | JInt int
  | JStr string
  | JArr "jval list"
  | JObj "(string \<times> jval) list"

definition jget :: "(string \<times> jval) list \<Rightarrow> string \<Rightarrow> jval option" where
  "jget kvs k = map_of (rev kvs) k"

fun py_truthy :: "jval \<Rightarrow> bool" where
  "py_truthy JNull = False"
| "py_truthy (JBool b) = b"
| "py_truthy (JInt i) = (i \<noteq> 0)"
| "py_truthy (JStr s) = (s \<noteq> [])"
| "py_truthy (JArr xs) = (xs \<noteq> [])"
| "py_truthy (JObj kvs) = (kvs \<noteq> [])"

text \<open>A JSON array of strings, read back as a string list.\<close>

fun jstrs :: "jval list \<Rightarrow> string list option" where
  "jstrs [] = Some []"
| "jstrs (JStr s # vs) = map_option (Cons s) (jstrs vs)"
| "jstrs (_ # vs) = None"

lemma jget_Cons [simp]:
  "jget ((k', v) # kvs) k = (case jget kvs k of None \<Rightarrow> (if k = k' then Some v else None) | Some w \<Rightarrow> Some w)"
  by (auto simp: jget_def map_of_append map_add_def split: option.splits)

lemma jget_Nil [simp]: "jget [] k = None"
  by (simp add: jget_def)

lemma jstrs_map_JStr [simp]: "jstrs (map JStr ss) = Some ss"
  by (induction ss) auto

end
