(* ===== verification/Bigrams.thy ===== *)
theory Bigrams
  imports Prelude
begin

text \<open>
  The sentence-level feature extractor of \<open>Document.bigrams\<close>
  (src/lib/techknacq/corpus.py, lines 265--286): the tokenizer
  \<open>re.split(r'[^a-zA-Z0-9_#-]+', s)\<close> (\<open>re_split\<close>), the token filter of
  line 275--276 (\<open>keep_token\<close>), \<open>good_word\<close>, and \<open>bigrams_from_sent\<close>, whose
  loop over \<open>nltk.bigrams(words)\<close> is \<open>pairs_loop\<close> and whose last-token check is
  the \<open>if\<close> after the loop. The stop-word lexicon is a parameter
  \<open>stop :: string \<Rightarrow> bool\<close> (its \<open>__contains__\<close>). A reference definition
  \<open>feats\<close> treats every token alike (its right-hand pair, then its own hashtag line);
  the equivalence theorem shows that the code's loop plus its special case for the last
  token emits exactly that, and the projections of \<open>feats\<close> say which pairs and which
  hashtags appear, each once and in order.
\<close>

section \<open>Tokenizer and filters\<close>

definition tok_char :: "char \<Rightarrow> bool" where
  "tok_char c = (ascii_alnum c \<or> c = CHR ''_'' \<or> c = CHR ''#'' \<or> c = CHR ''-'')"

text \<open>
  \<open>re.split\<close> on a separator class with \<open>+\<close>: the pieces between maximal runs of
  separators, with an empty first (last) piece when the string starts (ends) with a
  separator.
\<close>

function re_split :: "string \<Rightarrow> string list" where
  "re_split s =
     (let p = takeWhile tok_char s; r = dropWhile tok_char s
      in if r = [] then [p] else p # re_split (dropWhile (\<lambda>c. \<not> tok_char c) r))"
  by pat_completeness auto

termination re_split
  by (relation "measure length") (auto intro: length_dropWhile_split_less)

declare re_split.simps [simp del]

type_synonym stoplist = "string \<Rightarrow> bool"

definition keep_token :: "stoplist \<Rightarrow> string \<Rightarrow> bool" where
  "keep_token stop x =
     (0 < length x \<and> \<not> stop x \<and> \<not> stop (py_lower x) \<and> list_ex ascii_alnum x
      \<and> \<not> py_isdigit (hd x))"

definition sent_words :: "stoplist \<Rightarrow> string \<Rightarrow> string list" where
  "sent_words stop s = filter (keep_token stop) (re_split s)"

definition good_word :: "string \<Rightarrow> bool" where
  "good_word w =
     (if CHR ''_'' \<in> set w \<and> CHR ''#'' \<notin> set w then False else list_ex py_isalpha w)"

text \<open>\<open>w[0] == '#' and w[-1] == '#'\<close>; the tokens reaching it are never empty.\<close>

definition is_hashtag :: "string \<Rightarrow> bool" where
  "is_hashtag w = (w \<noteq> [] \<and> hd w = CHR ''#'' \<and> last w = CHR ''#'')"

section \<open>\<open>bigrams_from_sent\<close>\<close>

definition pair_line :: "string \<Rightarrow> string \<Rightarrow> string" where
  "pair_line w1 w2 =
     (if good_word w1 \<and> good_word w2 then py_lower w1 @ ''_'' @ py_lower w2 @ ''\<newline>'' else [])"

definition tag_line :: "string \<Rightarrow> string" where
  "tag_line w = (if is_hashtag w \<and> good_word w then w @ ''\<newline>'' else [])"

fun pairs_loop :: "string list \<Rightarrow> string" where
  "pairs_loop (w1 # w2 # ws) = pair_line w1 w2 @ tag_line w1 @ pairs_loop (w2 # ws)"
| "pairs_loop _ = []"

definition bigrams_from_sent :: "stoplist \<Rightarrow> string \<Rightarrow> string" where
  "bigrams_from_sent stop s =
     (let words = sent_words stop s
      in pairs_loop words @ (if words \<noteq> [] then tag_line (last words) else []))"

section \<open>Reference: one feature list, every token treated alike\<close>

datatype feature = is_Bigram: Bigram string string | Tag string

fun render :: "feature \<Rightarrow> string" where
  "render (Bigram a b) = py_lower a @ ''_'' @ py_lower b"
| "render (Tag w) = w"

fun feats :: "string list \<Rightarrow> feature list" where
  "feats [] = []"
| "feats (w # ws) =
     (case ws of [] \<Rightarrow> [] | w2 # _ \<Rightarrow> if good_word w \<and> good_word w2 then [Bigram w w2] else [])
     @ (if is_hashtag w \<and> good_word w then [Tag w] else []) @ feats ws"

definition lines_of :: "string list \<Rightarrow> string" where
  "lines_of ls = concat (map (\<lambda>l. l @ ''\<newline>'') ls)"

section \<open>Lemmas\<close>

lemma lines_of_simps [simp]:
  "lines_of [] = []"
  "lines_of (l # ls) = l @ ''\<newline>'' @ lines_of ls"
  "lines_of (ls @ ms) = lines_of ls @ lines_of ms"
  by (simp_all add: lines_of_def)

lemma pairs_loop_feats:
  "pairs_loop (w # ws) @ tag_line (last (w # ws)) = lines_of (map render (feats (w # ws)))"
proof (induction ws arbitrary: w)
  case Nil
  then show ?case by (simp add: tag_line_def)
next
  case (Cons w2 ws)
  have "pairs_loop (w # w2 # ws) @ tag_line (last (w # w2 # ws))
        = pair_line w w2 @ tag_line w @ (pairs_loop (w2 # ws) @ tag_line (last (w2 # ws)))"
    by simp
  also have "\<dots> = pair_line w w2 @ tag_line w @ lines_of (map render (feats (w2 # ws)))"
    by (simp only: Cons.IH)
  finally show ?case by (simp add: pair_line_def tag_line_def)
qed

lemma bigrams_from_sent_render:
  "bigrams_from_sent stop s = lines_of (map render (feats (sent_words stop s)))"
proof (cases "sent_words stop s")
  case (Cons w ws)
  then have "bigrams_from_sent stop s = pairs_loop (w # ws) @ tag_line (last (w # ws))"
    by (simp add: bigrams_from_sent_def)
  then show ?thesis by (simp only: Cons pairs_loop_feats)
qed (simp add: bigrams_from_sent_def)

lemma feats_tags:
  "filter (\<lambda>f. \<not> is_Bigram f) (feats ws) = map Tag (filter (\<lambda>w. is_hashtag w \<and> good_word w) ws)"
  by (induction ws rule: feats.induct) (auto split: list.splits)

lemma feats_bigrams:
  "filter is_Bigram (feats ws)
     = map (\<lambda>(a, b). Bigram a b) (filter (\<lambda>(a, b). good_word a \<and> good_word b) (zip ws (tl ws)))"
proof (induction ws rule: feats.induct)
  case (2 w ws)
  then show ?case by (cases ws) auto
qed simp

lemma list_all_takeWhile [simp]: "list_all P (takeWhile P xs)"
  by (induction xs) auto

lemma re_split_last:
  "dropWhile tok_char s = [] \<Longrightarrow> re_split s = [takeWhile tok_char s]"
  unfolding re_split.simps [of s] Let_def by (rule if_P)

lemma re_split_step:
  "dropWhile tok_char s \<noteq> [] \<Longrightarrow>
     re_split s = takeWhile tok_char s # re_split (dropWhile (\<lambda>c. \<not> tok_char c) (dropWhile tok_char s))"
  unfolding re_split.simps [of s] Let_def by (rule if_not_P)

lemma re_split_tok: "list_all (list_all tok_char) (re_split s)"
proof (induction s rule: re_split.induct)
  case (1 s)
  show ?case
  proof (cases "dropWhile tok_char s = []")
    case True
    then show ?thesis by (simp only: re_split_last [OF True]) simp
  next
    case False
    with "1.IH" [OF refl refl False] show ?thesis by (simp only: re_split_step [OF False]) simp
  qed
qed

lemma filter_dropWhile_not: "filter P (dropWhile (\<lambda>c. \<not> P c) xs) = filter P xs"
  by (induction xs) auto

lemma filter_takeWhile_dropWhile: "filter P xs = takeWhile P xs @ filter P (dropWhile P xs)"
  by (induction xs) auto

text \<open>
  The tokenizer \<open>re.split(r'[^a-zA-Z0-9_#-]+', s)\<close> loses no token character and
  keeps their order: its pieces, concatenated, are the input with the separators
  removed.
\<close>

theorem concat_re_split: "concat (re_split s) = filter tok_char s"
proof (induction s rule: re_split.induct)
  case (1 s)
  have split: "filter tok_char s = takeWhile tok_char s @ filter tok_char (dropWhile tok_char s)"
    by (rule filter_takeWhile_dropWhile)
  show ?case
  proof (cases "dropWhile tok_char s = []")
    case True
    show ?thesis by (simp only: re_split_last [OF True] split True) simp
  next
    case False
    with "1.IH" [OF refl refl False] show ?thesis
      by (simp only: re_split_step [OF False] split) (simp add: filter_dropWhile_not)
  qed
qed

lemma py_lower_char_ascii_letter: "ascii_letter c \<Longrightarrow> ascii_letter (py_lower_char c)"
  by (auto simp: ascii_letter_def of_char_py_lower_char Let_def)

lemma py_lower_char_non_letter:
  "\<not> ascii_letter c \<Longrightarrow> (of_char c :: nat) < 128 \<Longrightarrow> py_lower_char c = c"
  by (auto simp: py_lower_char_def ascii_letter_def Let_def)

lemma tok_char_ascii: "tok_char c \<Longrightarrow> (of_char c :: nat) < 128"
  by (auto simp: tok_char_def ascii_alnum_def ascii_letter_def Let_def)

lemma tok_char_py_lower: "tok_char c \<Longrightarrow> tok_char (py_lower_char c)"
proof (cases "ascii_letter c")
  case True
  then show ?thesis
    using py_lower_char_ascii_letter by (simp add: tok_char_def ascii_alnum_def)
next
  case False
  assume "tok_char c"
  with False show ?thesis by (simp add: py_lower_char_non_letter tok_char_ascii)
qed

lemma newline_not_tok [simp]: "\<not> tok_char (CHR ''\<newline>'')"
  by (simp add: tok_char_def ascii_alnum_def ascii_letter_def)

lemma sent_words_tok: "w \<in> set (sent_words stop s) \<Longrightarrow> w \<noteq> [] \<and> list_all tok_char w"
  using re_split_tok [of s] by (auto simp: sent_words_def keep_token_def list_all_iff)

lemma feats_from:
  "f \<in> set (feats ws) \<Longrightarrow>
     (\<exists>a b. f = Bigram a b \<and> a \<in> set ws \<and> b \<in> set ws) \<or> (\<exists>w. f = Tag w \<and> w \<in> set ws \<and> w \<noteq> [])"
  by (induction ws rule: feats.induct) (auto simp: is_hashtag_def split: list.splits if_splits)

lemma list_all_tok_py_lower: "list_all tok_char w \<Longrightarrow> list_all tok_char (py_lower w)"
  by (induction w) (auto intro: tok_char_py_lower)

lemma render_tok:
  assumes ws: "\<And>w. w \<in> set ws \<Longrightarrow> w \<noteq> [] \<and> list_all tok_char w"
    and f: "f \<in> set (feats ws)"
  shows "render f \<noteq> [] \<and> list_all tok_char (render f)"
  using feats_from [OF f]
proof
  assume "\<exists>a b. f = Bigram a b \<and> a \<in> set ws \<and> b \<in> set ws"
  then obtain a b where "f = Bigram a b" "a \<in> set ws" "b \<in> set ws" by blast
  with ws show ?thesis by (auto intro: list_all_tok_py_lower simp: tok_char_def)
next
  assume "\<exists>w. f = Tag w \<and> w \<in> set ws \<and> w \<noteq> []"
  with ws show ?thesis by auto
qed

text \<open>
  C37: the output of \<open>bigrams_from_sent\<close> is a sequence of newline-terminated lines,
  each non-empty and made only of the token characters \<open>[a-zA-Z0-9_#-]\<close>; so it
  splits back into its features at the newlines.
\<close>

theorem bigrams_from_sent_lines:
  "\<exists>ls. bigrams_from_sent stop s = lines_of ls \<and> list_all (\<lambda>l. l \<noteq> [] \<and> list_all tok_char l) ls"
proof (intro exI conjI)
  show "bigrams_from_sent stop s = lines_of (map render (feats (sent_words stop s)))"
    by (rule bigrams_from_sent_render)
  show "list_all (\<lambda>l. l \<noteq> [] \<and> list_all tok_char l) (map render (feats (sent_words stop s)))"
    using render_tok [OF sent_words_tok] by (simp add: list_all_iff)
qed

section \<open>What a sentence contributes\<close>

text \<open>
  C10: the code's loop over adjacent pairs, followed by its separate check of the last
  token, emits exactly the lines of the reference feature list \<open>feats\<close>, in which
  every token contributes its pair with the next token and then its own hashtag line.
\<close>

theorem bigrams_from_sent_feats:
  "bigrams_from_sent stop s = lines_of (map render (feats (sent_words stop s)))"
  by (rule bigrams_from_sent_render)

text \<open>
  C36: The lines \<open>bigrams_from_sent\<close> writes are those of a feature list whose pairs
  are exactly the adjacent kept tokens that are both good words, each once and in
  order, and whose single lines are exactly the good hashtag tokens, the last token
  included. So a token with an underscore and no \<open>#\<close> blocks the pair on either side,
  not only as the left element, and no other line is written.
\<close>

theorem bigrams_pairs_adjacent_good:
  "\<exists>fs. bigrams_from_sent stop s = lines_of (map render fs) \<and>
        filter is_Bigram fs
          = map (\<lambda>(a, b). Bigram a b)
              (filter (\<lambda>(a, b). good_word a \<and> good_word b)
                (zip (sent_words stop s) (tl (sent_words stop s)))) \<and>
        filter (\<lambda>f. \<not> is_Bigram f) fs
          = map Tag (filter (\<lambda>w. is_hashtag w \<and> good_word w) (sent_words stop s))"
  by (intro exI [of _ "feats (sent_words stop s)"] conjI bigrams_from_sent_render feats_bigrams feats_tags)

text \<open>
  C38: Single-character tokens form pairs: when every kept token of a sentence is one
  letter, \<open>bigrams_from_sent\<close> writes the pair line of every adjacent pair and nothing
  else (the specification says no line comes from a single-character token).
\<close>

theorem bigrams_single_letters:
  assumes "list_all (\<lambda>w. length w = 1 \<and> py_isalpha (hd w)) (sent_words stop s)"
  shows "bigrams_from_sent stop s =
           lines_of (map (\<lambda>(a, b). py_lower a @ ''_'' @ py_lower b)
                       (zip (sent_words stop s) (tl (sent_words stop s))))"
proof -
  have "feats ws = map (\<lambda>(a, b). Bigram a b) (zip ws (tl ws))"
    if "list_all (\<lambda>w. length w = 1 \<and> py_isalpha (hd w)) ws" for ws
    using that
  proof (induction ws rule: feats.induct)
    case (2 w ws)
    have g: "good_word [c]" "\<not> is_hashtag [c]" if "py_isalpha c" for c
      using that by (auto simp: good_word_def is_hashtag_def py_isalpha_def)
    from 2 show ?case
      by (cases ws) (auto simp: length_Suc_conv g)
  qed simp
  with assms show ?thesis by (simp add: bigrams_from_sent_render comp_def split_def)
qed

theorem bigrams_single_letters_witness:
  "list_all (\<lambda>w. length w = 1 \<and> py_isalpha (hd w)) (sent_words (\<lambda>_. False) ''A B C'') \<and>
   bigrams_from_sent (\<lambda>_. False) ''A B C'' = ''a_b\<newline>b_c\<newline>''"
proof -
  have w: "sent_words (\<lambda>_. False) ''A B C'' = [''A'', ''B'', ''C'']" by code_simp
  have a: "list_all (\<lambda>w. length w = 1 \<and> py_isalpha (hd w)) [''A'', ''B'', ''C'']" by code_simp
  have l: "py_lower ''A'' = ''a''" "py_lower ''B'' = ''b''" "py_lower ''C'' = ''c''" by code_simp+
  show ?thesis using bigrams_single_letters [of "\<lambda>_. False" "''A B C''"] w a l by simp
qed

text \<open>
  Examples: a right neighbour with an underscore suppresses the pair; tokens that start
  with a digit are dropped before pairing, so the words around them become adjacent;
  hashtags are passed through standalone after their pair.
\<close>

theorem bigrams_examples:
  "bigrams_from_sent (\<lambda>_. False) ''deep snake_case'' = [] \<and>
   bigrams_from_sent (\<lambda>_. False) ''in 2019, 3D models'' = ''in_models\<newline>'' \<and>
   bigrams_from_sent (\<lambda>_. False) ''see #New_York#'' = ''see_#new_york#\<newline>#New_York#\<newline>''"
  by code_simp

end
