(* ===== verification/Document.thy ===== *)
theory Document
  imports Json Bigrams
begin

text \<open>
  The class \<open>Document\<close> of src/lib/techknacq/corpus.py (lines 119--317): its
  state as the record \<open>document\<close>, a section as the record \<open>doc_section\<close>, and its
  derivations \<open>get_abstract\<close> (lines 194--207), \<open>json\<close> (210--229, here
  \<open>doc_json\<close>, which builds the JSON value that \<open>json.dumps\<close> prints with sorted
  keys), \<open>text\<close> (231--260, \<open>doc_text\<close>) and \<open>bigrams\<close> (264--317,
  \<open>doc_bigrams\<close>). The back-reference \<open>self.corpus\<close> is the field \<open>corpus\<close>, a
  reference into the heap of corpora of theory \<^theory_text>\<open>Corpus\<close>; the derivations
  that follow it receive the owning corpus as a \<open>corpus_view\<close>: the lookup
  \<open>ref_id in self.corpus\<close> / \<open>self.corpus[ref_id]\<close>, or \<open>None\<close> when
  \<open>self.corpus\<close> is \<open>None\<close>. Every exception the methods can raise is an
  \<open>Inl\<close> value: \<open>IndexError\<close> from \<open>self.sections[0]\<close>, \<open>TypeError\<close> from
  \<open>ref_id in None\<close> or from a non-string heading, \<open>AttributeError\<close> from a
  document that never got an \<open>id\<close>.
\<close>

type_synonym cref = nat

text \<open>
  A section is the dictionary \<open>{'heading': ..., 'text': [...]}\<close>: the heading is
  absent (\<open>None\<close>) or any JSON value, as the code reads it with \<open>.get\<close> and
  \<open>'heading' in sect\<close>; the text is a list of sentences.
\<close>

record doc_section =
  sect_heading :: "jval option"
  sect_text :: "string list"

record document =
  doc_id :: "string option"
  authors :: "string list"
  title :: string
  book :: string
  year :: string
  url :: string
  references :: "string set"
  sections :: "doc_section list"
  corpus :: "cref option"

type_synonym corpus_view = "string \<Rightarrow> document option"

section \<open>\<open>get_abstract\<close>\<close>

definition is_abstract_heading :: "doc_section \<Rightarrow> bool" where
  "is_abstract_heading s = (sect_heading s = Some (JStr ''Abstract''))"

definition get_abstract :: "document \<Rightarrow> string list result" where
  "get_abstract d =
     (case sections d of
        [] \<Rightarrow> Inl IndexError
      | s0 # rest \<Rightarrow>
          if is_abstract_heading s0 then Inr (take 10 (sect_text s0))
          else if rest \<noteq> [] \<and> is_abstract_heading (hd rest) then Inr (take 10 (sect_text (hd rest)))
          else if 2 < length (sect_text s0) then Inr (take 10 (sect_text s0))
          else if rest \<noteq> [] \<and> 2 < length (sect_text (hd rest)) then Inr (take 10 (sect_text (hd rest)))
          else Inr (take 10 (sect_text s0)))"

section \<open>\<open>json\<close>\<close>

definition section_json :: "doc_section \<Rightarrow> jval" where
  "section_json s =
     JObj ((case sect_heading s of None \<Rightarrow> [] | Some h \<Rightarrow> [(''heading'', h)])
           @ [(''text'', JArr (map JStr (sect_text s)))])"

definition doc_json :: "bool \<Rightarrow> document \<Rightarrow> jval result" where
  "doc_json abstract d =
     (case doc_id d of
        None \<Rightarrow> Inl AttributeError
      | Some i \<Rightarrow>
          let info = JObj [(''authors'', JArr (map JStr (authors d))), (''book'', JStr (book d)),
                           (''id'', JStr i), (''title'', JStr (title d)), (''url'', JStr (url d)),
                           (''year'', JStr (year d))];
              refs = JArr (map JStr (sorted_list_of_set (references d)));
              mk = (\<lambda>secs. JObj [(''info'', info), (''references'', refs), (''sections'', JArr secs)])
          in if abstract
             then (case sections d of [] \<Rightarrow> Inl IndexError | s0 # _ \<Rightarrow> Inr (mk [section_json s0]))
             else Inr (mk (map section_json (sections d))))"

section \<open>\<open>text\<close>\<close>

text \<open>Run the pieces of a loop that appends to \<open>out\<close>; the first exception stops it.\<close>

fun concat_results :: "string result list \<Rightarrow> string result" where
  "concat_results [] = Inr []"
| "concat_results (r # rs) =
     (case r of Inl e \<Rightarrow> Inl e
      | Inr s \<Rightarrow> (case concat_results rs of Inl e \<Rightarrow> Inl e | Inr t \<Rightarrow> Inr (s @ t)))"

definition non_wiki :: "string list \<Rightarrow> string list" where
  "non_wiki as = filter (\<lambda>a. a \<noteq> ''Wikipedia'') as"

definition author_lines :: "string list \<Rightarrow> string" where
  "author_lines as = concat (map (\<lambda>a. a @ ''.\<newline>'') (non_wiki as))"

text \<open>\<open>if 'heading' in sect and sect['heading']: out += '\n\n' + sect['heading'] + '\n\n'\<close>\<close>

definition heading_text :: "jval option \<Rightarrow> string result" where
  "heading_text h =
     (case h of
        None \<Rightarrow> Inr []
      | Some v \<Rightarrow>
          if py_truthy v
          then (case v of JStr hs \<Rightarrow> Inr (''\<newline>\<newline>'' @ hs @ ''\<newline>\<newline>'') | _ \<Rightarrow> Inl TypeError)
          else Inr [])"

definition section_text :: "doc_section \<Rightarrow> string result" where
  "section_text s =
     (case heading_text (sect_heading s) of
        Inl e \<Rightarrow> Inl e
      | Inr hd_txt \<Rightarrow> Inr (hd_txt @ py_join ''\<newline>'' (sect_text s) @ ''\<newline>''))"

text \<open>
  The loop over \<open>sorted(list(self.references))\<close>: an id the corpus does not hold is
  skipped; with no corpus at all, the first \<open>ref_id in self.corpus\<close> raises.
\<close>

definition ref_loop :: "corpus_view option \<Rightarrow> string set \<Rightarrow> (document \<Rightarrow> string) \<Rightarrow> string result" where
  "ref_loop cv refs f =
     (let ids = sorted_list_of_set refs
      in if ids = [] then Inr []
         else case cv of
                None \<Rightarrow> Inl TypeError
              | Some v \<Rightarrow> Inr (concat (map (\<lambda>i. case v i of None \<Rightarrow> [] | Some rd \<Rightarrow> f rd) ids)))"

definition doc_text :: "corpus_view option \<Rightarrow> bool \<Rightarrow> document \<Rightarrow> string result" where
  "doc_text cv abstract d =
     (let head = title d @ ''.\<newline>'' @ title d @ ''.\<newline>'' @ author_lines (authors d)
                 @ book d @ ''\<newline>'' @ year d @ ''\<newline>\<newline>'';
          body = (if abstract then map_sum id (py_join ''\<newline>'') (get_abstract d)
                  else concat_results (map section_text (sections d)))
      in case body of
           Inl e \<Rightarrow> Inl e
         | Inr b \<Rightarrow>
             (case ref_loop cv (references d)
                     (\<lambda>rd. ''\<newline>'' @ author_lines (authors rd) @ title rd @ ''.\<newline>'') of
                Inl e \<Rightarrow> Inl e
              | Inr r \<Rightarrow> Inr (head @ b @ r)))"

section \<open>\<open>bigrams\<close>\<close>

text \<open>\<open>bigrams_from_sent(sect['heading'])\<close>: \<open>re.split\<close> of a non-string raises.\<close>

definition heading_bigrams :: "stoplist \<Rightarrow> jval option \<Rightarrow> string result" where
  "heading_bigrams stop h =
     (case h of
        None \<Rightarrow> Inr []
      | Some v \<Rightarrow>
          if py_truthy v
          then (case v of JStr hs \<Rightarrow> Inr (bigrams_from_sent stop hs) | _ \<Rightarrow> Inl TypeError)
          else Inr [])"

definition section_bigrams :: "stoplist \<Rightarrow> doc_section \<Rightarrow> string result" where
  "section_bigrams stop s =
     (case heading_bigrams stop (sect_heading s) of
        Inl e \<Rightarrow> Inl e
      | Inr h \<Rightarrow> Inr (h @ concat (map (bigrams_from_sent stop) (sect_text s))))"

definition doc_bigrams :: "corpus_view option \<Rightarrow> bool \<Rightarrow> stoplist \<Rightarrow> document \<Rightarrow> string result" where
  "doc_bigrams cv abstract stop d =
     (let b = bigrams_from_sent stop;
          head = b (title d) @ b (title d) @ concat (map b (non_wiki (authors d))) @ b (book d);
          body = (if abstract then map_sum id (\<lambda>ss. concat (map b ss)) (get_abstract d)
                  else concat_results (map (section_bigrams stop) (sections d)))
      in case body of
           Inl e \<Rightarrow> Inl e
         | Inr bd \<Rightarrow>
             (case ref_loop cv (references d)
                     (\<lambda>rd. concat (map b (non_wiki (authors rd))) @ b (title rd)) of
                Inl e \<Rightarrow> Inl e
              | Inr r \<Rightarrow> Inr (head @ bd @ r)))"

section \<open>Example documents\<close>

text \<open>Concrete inputs at which the theorems below are instantiated.\<close>

definition dl_doc :: document where
  "dl_doc = \<lparr>doc_id = Some ''dl'', authors = [''Wikipedia''], title = ''Deep Learning'', book = [],
     year = [], url = [], references = {}, sections = [], corpus = None\<rparr>"

definition abs_doc :: document where
  "abs_doc = \<lparr>doc_id = Some ''p1'', authors = [], title = [], book = [], year = [], url = [],
     references = {''dl'', ''missing''},
     sections = [\<lparr>sect_heading = Some (JStr ''Abstract''), sect_text = map (\<lambda>c. [c]) ''abcdefghijkl''\<rparr>,
                 \<lparr>sect_heading = Some (JStr ''Abstract''), sect_text = [''x'', ''y'', ''z'']\<rparr>],
     corpus = None\<rparr>"

section \<open>Lemmas\<close>

lemma get_abstract_references [simp]: "get_abstract (d\<lparr>references := r\<rparr>) = get_abstract d"
  by (simp add: get_abstract_def)

lemma ref_loop_Some:
  "ref_loop (Some v) refs f
     = Inr (concat (map (\<lambda>i. case v i of None \<Rightarrow> [] | Some rd \<Rightarrow> f rd) (sorted_list_of_set refs)))"
  by (simp add: ref_loop_def Let_def)

lemma concat_map_filter_skip:
  "(\<And>x. \<not> P x \<Longrightarrow> g x = []) \<Longrightarrow> concat (map g (filter P xs)) = concat (map g xs)"
  by (induction xs) auto

lemma ref_loop_resolvable:
  assumes "finite refs"
  shows "ref_loop (Some v) (refs \<inter> dom v) f = ref_loop (Some v) refs f"
proof -
  let ?g = "\<lambda>i. case v i of None \<Rightarrow> [] | Some rd \<Rightarrow> f rd"
  have sl: "sorted_list_of_set (refs \<inter> dom v) = filter (\<lambda>i. i \<in> dom v) (sorted_list_of_set refs)"
    using assms by (rule sorted_list_of_set_inter)
  have "concat (map ?g (filter (\<lambda>i. i \<in> dom v) (sorted_list_of_set refs)))
          = concat (map ?g (sorted_list_of_set refs))"
    by (rule concat_map_filter_skip) (simp add: domIff)
  then show ?thesis by (simp only: ref_loop_Some sl)
qed

lemma ref_loop_None_nonempty:
  "finite refs \<Longrightarrow> refs \<noteq> {} \<Longrightarrow> ref_loop None refs f = Inl TypeError"
  by (simp add: ref_loop_def Let_def)

lemma ref_loop_not_IndexError: "ref_loop cv refs f \<noteq> Inl IndexError"
  by (auto simp: ref_loop_def Let_def split: option.splits)

section \<open>Properties of the derivations\<close>

text \<open>
  C9: \<open>get_abstract\<close> returns the first ten sentences of section 0 whenever section 0
  is headed exactly \<open>Abstract\<close>, whatever section 1 holds.
\<close>

theorem get_abstract_first_abstract:
  "sections d = s0 # rest \<Longrightarrow> is_abstract_heading s0 \<Longrightarrow> get_abstract d = Inr (take 10 (sect_text s0))"
  by (simp add: get_abstract_def)

theorem get_abstract_first_abstract_witness:
  "sections abs_doc = hd (sections abs_doc) # tl (sections abs_doc) \<and>
   is_abstract_heading (hd (sections abs_doc)) \<and>
   get_abstract abs_doc = Inr (map (\<lambda>c. [c]) ''abcdefghij'')"
proof -
  have s: "sections abs_doc = hd (sections abs_doc) # tl (sections abs_doc)"
    by (simp add: abs_doc_def)
  have h: "is_abstract_heading (hd (sections abs_doc))"
    by (simp add: abs_doc_def is_abstract_heading_def)
  show ?thesis
    using s h get_abstract_first_abstract [OF s h] by (simp add: abs_doc_def)
qed

text \<open>
  C34: \<open>get_abstract\<close> raises (\<open>IndexError\<close>, from \<open>self.sections[0]\<close>) exactly
  when the document has no section.
\<close>

theorem get_abstract_error: "get_abstract d = Inl e \<longleftrightarrow> sections d = [] \<and> e = IndexError"
  by (auto simp: get_abstract_def split: list.splits if_splits)

text \<open>
  C35: whatever rule of \<open>get_abstract\<close> fires, the result has at most ten sentences
  and is the beginning of section 0 or of section 1.
\<close>

theorem get_abstract_bounded:
  "get_abstract d = Inr xs \<Longrightarrow>
     length xs \<le> 10 \<and>
     (xs = take 10 (sect_text (sections d ! 0))
      \<or> (1 < length (sections d) \<and> xs = take 10 (sect_text (sections d ! 1))))"
  by (auto simp: get_abstract_def hd_conv_nth split: list.splits if_splits)

theorem get_abstract_bounded_witness:
  "length (map (\<lambda>c. [c]) ''abcdefghij'') \<le> 10 \<and> get_abstract abs_doc = Inr (map (\<lambda>c. [c]) ''abcdefghij'')"
proof -
  have g: "get_abstract abs_doc = Inr (map (\<lambda>c. [c]) ''abcdefghij'')"
    by (simp add: abs_doc_def get_abstract_def is_abstract_heading_def)
  show ?thesis using get_abstract_bounded [OF g] g by simp
qed

text \<open>
  \<open>text(abstract=True)\<close> fails with \<open>IndexError\<close> exactly when the document
  has no section; the reference loop can fail only with \<open>TypeError\<close>.
\<close>

theorem text_abstract_index_error: "doc_text cv True d = Inl IndexError \<longleftrightarrow> sections d = []"
  by (auto simp: doc_text_def get_abstract_def ref_loop_not_IndexError split: list.splits if_splits sum.splits)

text \<open>
  C24: in \<open>text\<close> and \<open>bigrams\<close>, a referenced id the owning corpus does not hold
  is skipped: the output is the same as for the document whose references are cut down
  to the ids the corpus holds.
\<close>

theorem doc_refs_skip_unresolved:
  assumes fin: "finite (references d)"
  shows "doc_text (Some v) ab d = doc_text (Some v) ab (d\<lparr>references := references d \<inter> dom v\<rparr>) \<and>
     doc_bigrams (Some v) ab stop d
       = doc_bigrams (Some v) ab stop (d\<lparr>references := references d \<inter> dom v\<rparr>)"
proof -
  have r: "ref_loop (Some v) (references d \<inter> dom v) f = ref_loop (Some v) (references d) f" for f
    using fin by (rule ref_loop_resolvable)
  show ?thesis
    unfolding doc_text_def doc_bigrams_def by (simp add: r)
qed

theorem doc_refs_skip_unresolved_witness:
  "finite (references abs_doc) \<and>
   doc_text (Some [''dl'' \<mapsto> dl_doc]) False abs_doc
     = doc_text (Some [''dl'' \<mapsto> dl_doc]) False (abs_doc\<lparr>references := {''dl''}\<rparr>)"
proof -
  have f: "finite (references abs_doc)" by (simp add: abs_doc_def)
  have "references abs_doc \<inter> dom [''dl'' \<mapsto> dl_doc] = {''dl''}"
    by (auto simp: abs_doc_def)
  then show ?thesis
    using f doc_refs_skip_unresolved [OF f, of "[''dl'' \<mapsto> dl_doc]" False] by simp
qed

text \<open>
  C22: a document that was never added to a corpus (\<open>self.corpus\<close> is \<open>None\<close>) and
  has references cannot be rendered: \<open>text\<close> and \<open>bigrams\<close> raise instead of
  skipping the references, as the specification asks.
\<close>

theorem doc_no_corpus_fails:
  assumes "finite (references d)" and "references d \<noteq> {}"
  shows "isl (doc_text None ab d) \<and> isl (doc_bigrams None ab stop d)"
proof -
  have r: "ref_loop None (references d) f = Inl TypeError" for f
    using assms by (rule ref_loop_None_nonempty)
  show ?thesis
    unfolding doc_text_def doc_bigrams_def Let_def by (simp add: r split: sum.splits)
qed

theorem doc_no_corpus_fails_witness:
  "finite (references abs_doc) \<and> references abs_doc \<noteq> {} \<and>
   isl (doc_text None False abs_doc) \<and> isl (doc_bigrams None False (\<lambda>_. False) abs_doc)"
proof -
  have f: "finite (references abs_doc)" and n: "references abs_doc \<noteq> {}"
    by (simp_all add: abs_doc_def)
  show ?thesis using f n doc_no_corpus_fails [OF f n] by simp
qed

text \<open>
  \<open>bigrams\<close> emits the features of the title twice before anything else (the
  duplication the specification flags); for the title \<open>Deep Learning\<close> with an empty
  stop list and no other text the output is the line \<open>deep_learning\<close> twice.
\<close>

theorem doc_bigrams_title_twice:
  "doc_bigrams cv ab stop d = Inr out \<Longrightarrow>
     prefix (bigrams_from_sent stop (title d) @ bigrams_from_sent stop (title d)) out"
  by (auto simp: doc_bigrams_def Let_def split: sum.splits)

theorem doc_bigrams_title_twice_witness:
  "doc_bigrams None False (\<lambda>_. False) dl_doc = Inr ''deep_learning\<newline>deep_learning\<newline>'' \<and>
   prefix (bigrams_from_sent (\<lambda>_. False) (title dl_doc) @ bigrams_from_sent (\<lambda>_. False) (title dl_doc))
     ''deep_learning\<newline>deep_learning\<newline>''"
proof -
  have r: "doc_bigrams None False (\<lambda>_. False) dl_doc = Inr ''deep_learning\<newline>deep_learning\<newline>''"
    by (simp add: dl_doc_def doc_bigrams_def bigrams_from_sent_def ref_loop_def) code_simp
  show ?thesis using r doc_bigrams_title_twice [OF r] by simp
qed

end
