(* ===== verification/Corpus.thy ===== *)
theory Corpus
  imports Document
begin

text \<open>
  The class \<open>Corpus\<close> of src/lib/techknacq/corpus.py (lines 21--117) and the
  back-reference \<open>Document.corpus\<close>. Documents and corpora are mutable objects
  that refer to each other, so the model keeps them in a heap (\<open>world\<close>):
  \<open>heap\<close> maps a document reference to the document object, \<open>corpora\<close> maps a
  corpus reference to its dictionary \<open>docs\<close>, an association list from ids to
  document references that \<open>AList.update\<close> changes as Python's \<open>dict\<close> does
  (an existing key keeps its place, a new key goes last). The methods are
  state-passing functions \<open>world \<Rightarrow> 'a result \<times> world\<close>: an exception keeps the
  effects made before it, as Python's does (\<open>add\<close> stamps \<open>doc.corpus\<close> before it
  reads \<open>doc.id\<close>). \<open>view_of\<close> is the lookup \<open>ref_id in self.corpus\<close> /
  \<open>self.corpus[ref_id]\<close> that theory \<^theory_text>\<open>Document\<close> takes as a parameter.
  The invariant \<open>world_inv\<close> is the specification's ownership rule: every document a
  corpus holds is held under its own id and points back to that corpus.
\<close>

type_synonym dref = nat

record world =
  heap :: "dref \<Rightarrow> document option"
  corpora :: "cref \<Rightarrow> (string \<times> dref) list option"
  next_doc :: nat
  next_corpus :: nat

definition empty_world :: world where
  "empty_world = \<lparr>heap = Map.empty, corpora = Map.empty, next_doc = 0, next_corpus = 0\<rparr>"

section \<open>Object creation\<close>

text \<open>A newly constructed \<open>Document\<close> object, and \<open>Corpus()\<close> with no path.\<close>

definition alloc_doc :: "document \<Rightarrow> world \<Rightarrow> dref \<times> world" where
  "alloc_doc d w =
     (next_doc w, w\<lparr>heap := (heap w)(next_doc w \<mapsto> d), next_doc := Suc (next_doc w)\<rparr>)"

definition corpus_new :: "world \<Rightarrow> cref \<times> world" where
  "corpus_new w =
     (next_corpus w, w\<lparr>corpora := (corpora w)(next_corpus w \<mapsto> []), next_corpus := Suc (next_corpus w)\<rparr>)"

section \<open>The methods of \<open>Corpus\<close>\<close>

definition corpus_clear :: "cref \<Rightarrow> world \<Rightarrow> unit result \<times> world" where
  "corpus_clear c w =
     (case corpora w c of
        None \<Rightarrow> (Inl DanglingRef, w)
      | Some _ \<Rightarrow> (Inr (), w\<lparr>corpora := (corpora w)(c \<mapsto> [])\<rparr>))"

text \<open>
  \<open>add\<close>: the assertion \<open>type(doc) == Document\<close> holds of every reference of the
  model; \<open>doc.corpus = self\<close> happens first, so a document without an \<open>id\<close> is
  stamped and then raises \<open>AttributeError\<close>.
\<close>

definition corpus_add :: "cref \<Rightarrow> dref \<Rightarrow> world \<Rightarrow> unit result \<times> world" where
  "corpus_add c r w =
     (case (heap w r, corpora w c) of
        (Some d, Some ds) \<Rightarrow>
          (let w1 = w\<lparr>heap := (heap w)(r \<mapsto> d\<lparr>corpus := Some c\<rparr>)\<rparr>
           in case doc_id d of
                None \<Rightarrow> (Inl AttributeError, w1)
              | Some k \<Rightarrow> (Inr (), w1\<lparr>corpora := (corpora w1)(c \<mapsto> AList.update k r ds)\<rparr>))
      | _ \<Rightarrow> (Inl DanglingRef, w))"

text \<open>Adding a list of documents in turn; the first exception stops the loop.\<close>

fun corpus_add_all :: "cref \<Rightarrow> dref list \<Rightarrow> world \<Rightarrow> unit result \<times> world" where
  "corpus_add_all c [] w = (Inr (), w)"
| "corpus_add_all c (r # rs) w =
     (case corpus_add c r w of
        (Inl e, w') \<Rightarrow> (Inl e, w')
      | (Inr _, w') \<Rightarrow> corpus_add_all c rs w')"

definition corpus_iter :: "cref \<Rightarrow> world \<Rightarrow> dref list result" where
  "corpus_iter c w = (case corpora w c of None \<Rightarrow> Inl DanglingRef | Some ds \<Rightarrow> Inr (map snd ds))"

text \<open>
  \<open>self |= self\<close>: the generator \<open>__iter__\<close> walks the keys of \<open>self.docs\<close> while \<open>add\<close>
  writes into it, and reads \<open>self.docs[doc_id]\<close> at each step. A dict iterator checks at
  every step, the last one included, that the dict has the size it had when the
  iteration began, and raises \<open>RuntimeError\<close> otherwise. \<open>add\<close> only assigns, so the
  keys keep their order and the loop can walk the keys of the start as long as the size
  is unchanged; \<open>n\<close> is that size.
\<close>

fun ior_self_loop :: "cref \<Rightarrow> string list \<Rightarrow> nat \<Rightarrow> world \<Rightarrow> unit result \<times> world" where
  "ior_self_loop c [] n w =
     (case corpora w c of
        None \<Rightarrow> (Inl DanglingRef, w)
      | Some ds \<Rightarrow> if length ds \<noteq> n then (Inl RuntimeError, w) else (Inr (), w))"
| "ior_self_loop c (k # ks) n w =
     (case corpora w c of
        None \<Rightarrow> (Inl DanglingRef, w)
      | Some ds \<Rightarrow>
          if length ds \<noteq> n then (Inl RuntimeError, w)
          else (case map_of ds k of
                  None \<Rightarrow> (Inl KeyError, w)
                | Some r \<Rightarrow>
                    (case corpus_add c r w of
                       (Inl e, w') \<Rightarrow> (Inl e, w')
                     | (Inr _, w') \<Rightarrow> ior_self_loop c ks n w')))"

text \<open>
  \<open>for doc in other: self.add(doc)\<close>. For another corpus the adds do not touch the
  dict being iterated, so its documents are those at the start.
\<close>

definition corpus_ior :: "cref \<Rightarrow> cref \<Rightarrow> world \<Rightarrow> unit result \<times> world" where
  "corpus_ior c other w =
     (if c = other
      then (case corpora w c of
              None \<Rightarrow> (Inl DanglingRef, w)
            | Some ds \<Rightarrow> ior_self_loop c (map fst ds) (length ds) w)
      else (case corpus_iter other w of Inl e \<Rightarrow> (Inl e, w) | Inr rs \<Rightarrow> corpus_add_all c rs w))"

definition corpus_getitem :: "cref \<Rightarrow> string \<Rightarrow> world \<Rightarrow> dref result" where
  "corpus_getitem c k w =
     (case corpora w c of
        None \<Rightarrow> Inl DanglingRef
      | Some ds \<Rightarrow> (case map_of ds k of None \<Rightarrow> Inl KeyError | Some r \<Rightarrow> Inr r))"

definition corpus_setitem :: "cref \<Rightarrow> string \<Rightarrow> dref \<Rightarrow> world \<Rightarrow> unit result \<times> world" where
  "corpus_setitem c k r w =
     (case corpora w c of
        None \<Rightarrow> (Inl DanglingRef, w)
      | Some ds \<Rightarrow> (Inr (), w\<lparr>corpora := (corpora w)(c \<mapsto> AList.update k r ds)\<rparr>))"

definition corpus_contains :: "cref \<Rightarrow> string \<Rightarrow> world \<Rightarrow> bool result" where
  "corpus_contains c k w =
     (case corpora w c of None \<Rightarrow> Inl DanglingRef | Some ds \<Rightarrow> Inr (map_of ds k \<noteq> None))"

text \<open>\<open>fix_text\<close>: its body is \<open>pass\<close> (the loop is commented out).\<close>

definition corpus_fix_text :: "cref \<Rightarrow> world \<Rightarrow> unit result \<times> world" where
  "corpus_fix_text c w = (Inr (), w)"

section \<open>Derivations of a document in the heap\<close>

definition view_of :: "world \<Rightarrow> cref \<Rightarrow> corpus_view" where
  "view_of w c k =
     (case corpora w c of
        None \<Rightarrow> None
      | Some ds \<Rightarrow> (case map_of ds k of None \<Rightarrow> None | Some r \<Rightarrow> heap w r))"

definition text_at :: "world \<Rightarrow> dref \<Rightarrow> bool \<Rightarrow> string result" where
  "text_at w r ab =
     (case heap w r of
        None \<Rightarrow> Inl DanglingRef
      | Some d \<Rightarrow> doc_text (map_option (view_of w) (corpus d)) ab d)"

definition bigrams_at :: "world \<Rightarrow> dref \<Rightarrow> bool \<Rightarrow> stoplist \<Rightarrow> string result" where
  "bigrams_at w r ab stop =
     (case heap w r of
        None \<Rightarrow> Inl DanglingRef
      | Some d \<Rightarrow> doc_bigrams (map_option (view_of w) (corpus d)) ab stop d)"

section \<open>Ownership invariant\<close>

definition holds_ok :: "world \<Rightarrow> cref \<Rightarrow> (string \<times> dref) list \<Rightarrow> bool" where
  "holds_ok w c ds =
     (distinct (map fst ds) \<and>
      list_all (\<lambda>(k, r). case heap w r of
                           None \<Rightarrow> False
                         | Some d \<Rightarrow> doc_id d = Some k \<and> corpus d = Some c) ds)"

definition world_inv :: "world \<Rightarrow> bool" where
  "world_inv w =
     ((\<forall>c ds. corpora w c = Some ds \<longrightarrow> holds_ok w c ds) \<and>
      (\<forall>r. next_doc w \<le> r \<longrightarrow> heap w r = None) \<and>
      (\<forall>c. next_corpus w \<le> c \<longrightarrow> corpora w c = None))"

text \<open>No other corpus holds the document: the condition under which \<open>add\<close> keeps the rule.\<close>

definition exclusive :: "world \<Rightarrow> cref \<Rightarrow> dref \<Rightarrow> bool" where
  "exclusive w c r = (\<forall>c' ds'. c' \<noteq> c \<longrightarrow> corpora w c' = Some ds' \<longrightarrow> r \<notin> snd ` set ds')"

section \<open>Runs of corpus operations\<close>

datatype corpus_op = NewDoc document | NewCorpus | Add cref dref | Clear cref | FixText cref

fun step :: "corpus_op \<Rightarrow> world \<Rightarrow> world" where
  "step (NewDoc d) w = snd (alloc_doc d w)"
| "step NewCorpus w = snd (corpus_new w)"
| "step (Add c r) w = snd (corpus_add c r w)"
| "step (Clear c) w = snd (corpus_clear c w)"
| "step (FixText c) w = snd (corpus_fix_text c w)"

text \<open>
  A run of the program that creates documents (fresh objects: no back-reference yet)
  and corpora, and adds each document to one corpus only.
\<close>

inductive reachable :: "world \<Rightarrow> bool" where
  start: "reachable empty_world"
| new_doc: "reachable w \<Longrightarrow> corpus d = None \<Longrightarrow> reachable (step (NewDoc d) w)"
| new_corpus: "reachable w \<Longrightarrow> reachable (step NewCorpus w)"
| add: "reachable w \<Longrightarrow> exclusive w c r \<Longrightarrow> reachable (step (Add c r) w)"
| clear: "reachable w \<Longrightarrow> reachable (step (Clear c) w)"
| fix_text: "reachable w \<Longrightarrow> reachable (step (FixText c) w)"

section \<open>Example worlds\<close>

definition x_doc :: document where
  "x_doc = \<lparr>doc_id = Some ''x'', authors = [], title = [], book = [], year = [], url = [],
     references = {}, sections = [], corpus = None\<rparr>"

definition w_two :: world where
  "w_two = fold step [NewCorpus, NewDoc x_doc, NewDoc (x_doc\<lparr>title := ''Second''\<rparr>)] empty_world"

definition w_noid :: world where
  "w_noid = fold step [NewCorpus, NewDoc (x_doc\<lparr>doc_id := None\<rparr>)] empty_world"

section \<open>Lemmas\<close>

lemma holds_ok_set:
  "holds_ok w c ds \<longleftrightarrow> distinct (map fst ds) \<and>
     (\<forall>k r. (k, r) \<in> set ds \<longrightarrow> (\<exists>d. heap w r = Some d \<and> doc_id d = Some k \<and> corpus d = Some c))"
  unfolding holds_ok_def list_all_iff by (fastforce split: option.splits)

lemma holds_ok_map_of:
  "holds_ok w c ds \<longleftrightarrow> distinct (map fst ds) \<and>
     (\<forall>k r. map_of ds k = Some r \<longrightarrow> (\<exists>d. heap w r = Some d \<and> doc_id d = Some k \<and> corpus d = Some c))"
  by (auto simp: holds_ok_set)

lemma holds_ok_other_fields [simp]:
  "holds_ok (w\<lparr>corpora := x\<rparr>) c ds = holds_ok w c ds"
  "holds_ok (w\<lparr>next_doc := n\<rparr>) c ds = holds_ok w c ds"
  "holds_ok (w\<lparr>next_corpus := n\<rparr>) c ds = holds_ok w c ds"
  by (simp_all add: holds_ok_def)

lemma holds_ok_heap_other:
  "holds_ok w c ds \<Longrightarrow> r \<notin> snd ` set ds \<Longrightarrow> holds_ok (w\<lparr>heap := (heap w)(r := x)\<rparr>) c ds"
  by (force simp: holds_ok_def list_all_iff split: prod.splits)

lemma not_held_without_id:
  "holds_ok w c ds \<Longrightarrow> heap w r = Some d \<Longrightarrow> doc_id d = None \<Longrightarrow> r \<notin> snd ` set ds"
  by (force simp: holds_ok_def list_all_iff)

lemma holds_ok_add_self:
  assumes ok: "holds_ok w c ds" and hr: "heap w r = Some d" and k: "doc_id d = Some k"
  shows "holds_ok (w\<lparr>heap := (heap w)(r \<mapsto> d\<lparr>corpus := Some c\<rparr>)\<rparr>) c (AList.update k r ds)"
  unfolding holds_ok_map_of
proof (intro conjI allI impI)
  show "distinct (map fst (AList.update k r ds))"
    using ok by (simp add: holds_ok_def distinct_update)
next
  fix k' r'
  assume m: "map_of (AList.update k r ds) k' = Some r'"
  show "\<exists>d'. heap (w\<lparr>heap := (heap w)(r \<mapsto> d\<lparr>corpus := Some c\<rparr>)\<rparr>) r' = Some d' \<and>
              doc_id d' = Some k' \<and> corpus d' = Some c"
  proof (cases "k' = k")
    case True
    with m k show ?thesis by (simp add: update_conv')
  next
    case False
    with m have old: "map_of ds k' = Some r'" by (simp add: update_conv')
    then obtain d' where d': "heap w r' = Some d'" "doc_id d' = Some k'" "corpus d' = Some c"
      using ok unfolding holds_ok_map_of by blast
    have "r' \<noteq> r" using d' hr k False by auto
    with d' show ?thesis by simp
  qed
qed

lemma world_inv_heap_bound: "world_inv w \<Longrightarrow> heap w r = Some d \<Longrightarrow> r < next_doc w"
  by (metis linorder_not_less option.distinct(1) world_inv_def)

lemma world_inv_corpus_bound: "world_inv w \<Longrightarrow> corpora w c = Some ds \<Longrightarrow> c < next_corpus w"
  by (metis linorder_not_less option.distinct(1) world_inv_def)

lemma corpus_add_inv:
  assumes inv: "world_inv w" and ex: "exclusive w c r"
  shows "world_inv (snd (corpus_add c r w))"
proof (cases "heap w r = None \<or> corpora w c = None")
  case True
  with inv show ?thesis by (auto simp: corpus_add_def split: option.splits)
next
  case False
  then obtain d ds where hr: "heap w r = Some d" and hc: "corpora w c = Some ds" by auto
  let ?w1 = "w\<lparr>heap := (heap w)(r \<mapsto> d\<lparr>corpus := Some c\<rparr>)\<rparr>"
  have ok: "holds_ok w c ds" using inv hc by (simp add: world_inv_def)
  have bound: "r < next_doc w" using inv hr by (rule world_inv_heap_bound)
  have cbound: "c < next_corpus w" using inv hc by (rule world_inv_corpus_bound)
  have others: "holds_ok ?w1 c' ds'" if "c' \<noteq> c" "corpora w c' = Some ds'" for c' ds'
  proof -
    have "holds_ok w c' ds'" using inv that(2) by (simp add: world_inv_def)
    moreover have "r \<notin> snd ` set ds'" using ex that by (simp add: exclusive_def)
    ultimately show ?thesis by (metis holds_ok_heap_other fun_upd_def)
  qed
  have alloc: "(\<forall>r'. next_doc w \<le> r' \<longrightarrow> heap ?w1 r' = None) \<and>
               (\<forall>c'. next_corpus w \<le> c' \<longrightarrow> corpora w c' = None)"
    using inv bound by (auto simp: world_inv_def)
  show ?thesis
  proof (cases "doc_id d")
    case None
    have "r \<notin> snd ` set ds" using ok hr None by (rule not_held_without_id)
    then have "holds_ok ?w1 c ds" using ok by (metis holds_ok_heap_other fun_upd_def)
    then have all: "holds_ok ?w1 c' ds'" if "corpora w c' = Some ds'" for c' ds'
      using others [of c' ds'] that hc by (cases "c' = c") auto
    from all alloc hr hc None show ?thesis
      by (simp add: corpus_add_def world_inv_def)
  next
    case (Some k)
    have "holds_ok ?w1 c (AList.update k r ds)"
      using ok hr Some by (rule holds_ok_add_self)
    then have all: "holds_ok ?w1 c' ds'"
      if "((corpora w)(c \<mapsto> AList.update k r ds)) c' = Some ds'" for c' ds'
      using others [of c' ds'] that by (cases "c' = c") auto
    from all alloc hr hc Some cbound show ?thesis
      by (simp add: corpus_add_def world_inv_def)
  qed
qed

lemma not_held_unallocated:
  "holds_ok w c ds \<Longrightarrow> heap w r = None \<Longrightarrow> r \<notin> snd ` set ds"
  by (force simp: holds_ok_def list_all_iff)

lemma alloc_doc_inv: "world_inv w \<Longrightarrow> world_inv (snd (alloc_doc d w))"
proof -
  assume inv: "world_inv w"
  have free: "heap w (next_doc w) = None" using inv by (simp add: world_inv_def)
  have "holds_ok (w\<lparr>heap := (heap w)(next_doc w := Some d)\<rparr>) c ds" if "corpora w c = Some ds" for c ds
  proof -
    have ok: "holds_ok w c ds" using inv that by (simp add: world_inv_def)
    then show ?thesis using not_held_unallocated [OF ok free] by (rule holds_ok_heap_other)
  qed
  with inv show ?thesis by (auto simp: alloc_doc_def world_inv_def)
qed

lemma corpus_new_inv: "world_inv w \<Longrightarrow> world_inv (snd (corpus_new w))"
  by (auto simp: corpus_new_def world_inv_def holds_ok_def)

lemma corpus_clear_inv: "world_inv w \<Longrightarrow> world_inv (snd (corpus_clear c w))"
  by (auto simp: corpus_clear_def world_inv_def holds_ok_def split: option.splits)

lemma filter_key_single:
  "distinct (map fst xs) \<Longrightarrow> k \<in> fst ` set xs \<Longrightarrow> length (filter (\<lambda>p. fst p = k) xs) = 1"
proof (induction xs)
  case (Cons p xs)
  show ?case
  proof (cases "fst p = k")
    case True
    have "fst p \<notin> fst ` set xs" using Cons.prems(1) by simp
    with True have "\<forall>q \<in> set xs. fst q \<noteq> k" by (metis image_eqI)
    then have "filter (\<lambda>p. fst p = k) xs = []" by (simp add: filter_empty_conv)
    with True show ?thesis by simp
  next
    case False
    with Cons show ?thesis by auto
  qed
qed simp

text \<open>Rule induction over runs; shared by the run-level theorems here and in \<^theory_text>\<open>Ingest\<close>.\<close>

lemma reachable_inv: "reachable w \<Longrightarrow> world_inv w"
proof (induction rule: reachable.induct)
  case start
  show ?case by (simp add: world_inv_def empty_world_def)
qed (simp_all add: alloc_doc_inv corpus_new_inv corpus_add_inv corpus_clear_inv corpus_fix_text_def)

text \<open>A fresh document object is held by no corpus.\<close>

lemma alloc_exclusive:
  "world_inv w \<Longrightarrow> alloc_doc d w = (r, w1) \<Longrightarrow> exclusive w1 c r"
proof -
  assume inv: "world_inv w" and a: "alloc_doc d w = (r, w1)"
  have "next_doc w \<notin> snd ` set ds'" if "corpora w c' = Some ds'" for c' ds'
    using inv that not_held_unallocated [of w c' ds' "next_doc w"] by (simp add: world_inv_def)
  moreover from a have "r = next_doc w" "corpora w1 = corpora w" by (auto simp: alloc_doc_def)
  ultimately show ?thesis unfolding exclusive_def by simp
qed

lemma reachable_alloc_add:
  assumes "reachable w" "corpus d = None" "alloc_doc d w = (r, w1)"
  shows "reachable w1" "reachable (snd (corpus_add c r w1))"
proof -
  show r1: "reachable w1"
    using reachable.new_doc [OF assms(1,2)] assms(3) by simp
  have "exclusive w1 c r"
    using alloc_exclusive [OF reachable_inv [OF assms(1)] assms(3)] .
  then show "reachable (snd (corpus_add c r w1))"
    using reachable.add [OF r1] by simp
qed

section \<open>Properties of the corpus\<close>

text \<open>
  C1: in every run that creates documents and corpora and adds each document to one
  corpus only, every document a corpus holds is held under its own id and points back to
  that corpus (and the dictionary has no repeated key).
\<close>

theorem reachable_world_inv: "reachable w \<Longrightarrow> world_inv w"
  by (rule reachable_inv)

theorem reachable_world_inv_witness:
  "reachable (fold step [NewCorpus, NewDoc x_doc, Add 0 0] empty_world) \<and>
   world_inv (fold step [NewCorpus, NewDoc x_doc, Add 0 0] empty_world)"
proof -
  have r0: "reachable (step NewCorpus empty_world)"
    by (rule reachable.new_corpus [OF reachable.start])
  have r1: "reachable (step (NewDoc x_doc) (step NewCorpus empty_world))"
    by (rule reachable.new_doc [OF r0]) (simp add: x_doc_def)
  have r2: "reachable (step (Add 0 0) (step (NewDoc x_doc) (step NewCorpus empty_world)))"
    by (rule reachable.add [OF r1]) (simp add: exclusive_def empty_world_def corpus_new_def alloc_doc_def)
  show ?thesis using r2 reachable_world_inv [OF r2] by simp
qed

text \<open>
  C2: adding two documents with the same id to a corpus: the second \<open>add\<close>
  overwrites the first, the id is a key of the dictionary exactly once, \<open>corpus[id]\<close>
  is the second document, and that document points back to the corpus.
\<close>

theorem corpus_add_overwrite:
  assumes c: "corpora w c = Some ds" and dist: "distinct (map fst ds)"
    and r1: "heap w r1 = Some d1" and r2: "heap w r2 = Some d2"
    and k1: "doc_id d1 = Some k" and k2: "doc_id d2 = Some k"
  shows "let w2 = snd (corpus_add c r2 (snd (corpus_add c r1 w)))
         in corpus_getitem c k w2 = Inr r2 \<and> heap w2 r2 = Some (d2\<lparr>corpus := Some c\<rparr>) \<and>
            (\<exists>ds2. corpora w2 c = Some ds2 \<and> length (filter (\<lambda>p. fst p = k) ds2) = 1)"
proof -
  let ?ds2 = "AList.update k r2 (AList.update k r1 ds)"
  have "distinct (map fst ?ds2)" using dist by (simp add: distinct_update)
  moreover have "k \<in> fst ` set ?ds2" by (simp add: dom_update)
  ultimately have one: "length (filter (\<lambda>p. fst p = k) ?ds2) = 1" by (rule filter_key_single)
  show ?thesis
  proof (cases "r1 = r2")
    case True
    with c r1 r2 k1 one show ?thesis
      by (simp add: corpus_add_def corpus_getitem_def update_conv' Let_def)
  next
    case False
    with c r1 r2 k1 k2 one show ?thesis
      by (simp add: corpus_add_def corpus_getitem_def update_conv' Let_def)
  qed
qed

theorem corpus_add_overwrite_witness:
  "corpora w_two 0 = Some [] \<and> heap w_two 0 = Some x_doc \<and>
   heap w_two 1 = Some (x_doc\<lparr>title := ''Second''\<rparr>) \<and>
   corpus_getitem 0 ''x'' (snd (corpus_add 0 1 (snd (corpus_add 0 0 w_two)))) = Inr 1"
proof -
  have c: "corpora w_two 0 = Some []" and h0: "heap w_two 0 = Some x_doc"
    and h1: "heap w_two 1 = Some (x_doc\<lparr>title := ''Second''\<rparr>)"
    by (simp_all add: w_two_def empty_world_def corpus_new_def alloc_doc_def)
  have k0: "doc_id x_doc = Some ''x''" and k1: "doc_id (x_doc\<lparr>title := ''Second''\<rparr>) = Some ''x''"
    by (simp_all add: x_doc_def)
  show ?thesis
    using c h0 h1 corpus_add_overwrite [OF c _ h0 h1 k0 k1] by (simp add: Let_def)
qed

text \<open>
  C3: \<open>add\<close> of a document that never got an \<open>id\<close> raises \<open>AttributeError\<close>
  after it has stamped the document's back-reference; the corpus is unchanged.
\<close>

theorem corpus_add_without_id:
  "heap w r = Some d \<Longrightarrow> doc_id d = None \<Longrightarrow> corpora w c = Some ds \<Longrightarrow>
     corpus_add c r w = (Inl AttributeError, w\<lparr>heap := (heap w)(r \<mapsto> d\<lparr>corpus := Some c\<rparr>)\<rparr>)"
  by (simp add: corpus_add_def)

theorem corpus_add_without_id_witness:
  "heap w_noid 0 = Some (x_doc\<lparr>doc_id := None\<rparr>) \<and> corpora w_noid 0 = Some [] \<and>
   corpus_add 0 0 w_noid
     = (Inl AttributeError, w_noid\<lparr>heap := (heap w_noid)(0 \<mapsto> x_doc\<lparr>doc_id := None, corpus := Some 0\<rparr>)\<rparr>)"
proof -
  have h: "heap w_noid 0 = Some (x_doc\<lparr>doc_id := None\<rparr>)" and c: "corpora w_noid 0 = Some []"
    by (simp_all add: w_noid_def empty_world_def corpus_new_def alloc_doc_def)
  show ?thesis using h c corpus_add_without_id [OF h _ c] by simp
qed

text \<open>
  C15: The code does not enforce the ownership rule. Whenever a well-formed world holds a
  document in one corpus, adding it to another corpus moves its back-reference there
  while the first corpus still returns it under its id, and assigning it into the
  other corpus with \<open>corpus2[key] = doc\<close> leaves its back-reference behind; either way
  the invariant is broken.
\<close>

theorem ownership_not_enforced:
  assumes inv: "world_inv w" and c1: "corpora w c1 = Some ds" and held: "(k, r) \<in> set ds"
    and c2: "corpora w c2 = Some ds2" and ne: "c1 \<noteq> c2"
  shows "corpus_getitem c1 k (step (Add c2 r) w) = Inr r \<and>
         map_option corpus (heap (step (Add c2 r) w) r) = Some (Some c2) \<and>
         \<not> world_inv (step (Add c2 r) w) \<and>
         \<not> world_inv (snd (corpus_setitem c2 k' r w))"
proof -
  have ok: "holds_ok w c1 ds" using inv c1 by (simp add: world_inv_def)
  then obtain d where d: "heap w r = Some d" "doc_id d = Some k" "corpus d = Some c1"
    using held unfolding holds_ok_set by blast
  have mk: "map_of ds k = Some r" using ok held by (simp add: holds_ok_def)
  let ?w = "step (Add c2 r) w"
  have w: "corpora ?w c1 = Some ds" "heap ?w r = Some (d\<lparr>corpus := Some c2\<rparr>)"
    using c1 c2 d ne by (simp_all add: corpus_add_def)
  have "\<not> holds_ok ?w c1 ds"
  proof
    assume "holds_ok ?w c1 ds"
    then have "corpus (d\<lparr>corpus := Some c2\<rparr>) = Some c1" using w(2) held unfolding holds_ok_set by fastforce
    with ne show False by simp
  qed
  then have "\<not> world_inv ?w" using w(1) by (auto simp: world_inv_def)
  moreover have "corpus_getitem c1 k ?w = Inr r" using w(1) mk by (simp add: corpus_getitem_def)
  moreover let ?v = "snd (corpus_setitem c2 k' r w)"
  have "corpora ?v c2 = Some (AList.update k' r ds2)" "heap ?v r = Some d"
    using c2 d by (simp_all add: corpus_setitem_def)
  then have "\<not> holds_ok ?v c2 (AList.update k' r ds2)"
    using d(3) ne unfolding holds_ok_map_of by (auto simp: update_conv')
  then have "\<not> world_inv ?v" using \<open>corpora ?v c2 = _\<close> by (auto simp: world_inv_def)
  ultimately show ?thesis using w(2) by simp
qed

theorem ownership_not_enforced_witness:
  "let w = fold step [NewCorpus, NewCorpus, NewDoc x_doc, Add 0 0] empty_world
   in world_inv w \<and> corpora w 0 = Some [(''x'', 0)] \<and> corpora w 1 = Some [] \<and>
      corpus_getitem 0 ''x'' (step (Add 1 0) w) = Inr 0 \<and>
      map_option corpus (heap (step (Add 1 0) w) 0) = Some (Some 1) \<and>
      \<not> world_inv (step (Add 1 0) w) \<and> \<not> world_inv (snd (corpus_setitem 1 ''y'' 0 w))"
proof -
  define w where "w = fold step [NewCorpus, NewCorpus, NewDoc x_doc, Add 0 0] empty_world"
  have c: "corpora w 0 = Some [(''x'', 0)]" "corpora w 1 = Some []"
    by (simp_all add: w_def empty_world_def alloc_doc_def corpus_new_def corpus_add_def x_doc_def)
  have inv: "world_inv w"
    by (auto simp: w_def world_inv_def empty_world_def alloc_doc_def corpus_new_def corpus_add_def
        x_doc_def holds_ok_def)
  have "(''x'', 0::nat) \<in> set [(''x'', 0)]" "(0::nat) \<noteq> 1" by simp_all
  from ownership_not_enforced [OF inv c(1) this(1) c(2) this(2)] inv c
  show ?thesis unfolding w_def [symmetric] Let_def by simp
qed


section \<open>Merging a corpus into itself\<close>

lemma update_present: "distinct (map fst ds) \<Longrightarrow> map_of ds k = Some r \<Longrightarrow> AList.update k r ds = ds"
  by (induction ds) (auto split: if_splits)

lemma update_absent: "k \<notin> fst ` set ds \<Longrightarrow> AList.update k r ds = ds @ [(k, r)]"
  by (induction ds) auto

text \<open>Re-adding documents already held under their own ids changes nothing.\<close>

lemma ior_self_prefix:
  assumes c: "corpora w c = Some ds" and dist: "distinct (map fst ds)"
    and ks: "\<forall>k \<in> set ks. \<exists>r d. map_of ds k = Some r \<and> heap w r = Some d \<and> doc_id d = Some k \<and> corpus d = Some c"
  shows "ior_self_loop c (ks @ rest) (length ds) w = ior_self_loop c rest (length ds) w"
  using ks
proof (induction ks)
  case (Cons k ks)
  obtain r d where r: "map_of ds k = Some r" "heap w r = Some d" "doc_id d = Some k" "corpus d = Some c"
    using Cons.prems by auto
  have "d\<lparr>corpus := Some c\<rparr> = d" using r(4) by (cases d) simp
  then have "corpus_add c r w = (Inr (), w)"
    using c r update_present [OF dist r(1)] by (simp add: corpus_add_def fun_upd_idem)
  with Cons c r(1) show ?case by simp
qed simp

text \<open>
  C16: In a well-formed world \<open>corpus |= corpus\<close> returns and changes nothing: every
  document is added again under its own id, to the corpus that already holds it.
\<close>

theorem corpus_ior_self_noop:
  assumes inv: "world_inv w" and c: "corpora w c = Some ds"
  shows "corpus_ior c c w = (Inr (), w)"
proof -
  have ok: "holds_ok w c ds" using inv c by (simp add: world_inv_def)
  then have dist: "distinct (map fst ds)" by (simp add: holds_ok_def)
  have ks: "\<forall>k \<in> set (map fst ds). \<exists>r d. map_of ds k = Some r \<and> heap w r = Some d \<and>
              doc_id d = Some k \<and> corpus d = Some c"
  proof
    fix k assume "k \<in> set (map fst ds)"
    then obtain r where r: "map_of ds k = Some r" by (metis map_of_eq_None_iff not_None_eq set_map)
    then show "\<exists>r d. map_of ds k = Some r \<and> heap w r = Some d \<and> doc_id d = Some k \<and> corpus d = Some c"
      using ok unfolding holds_ok_map_of by blast
  qed
  have "ior_self_loop c (map fst ds) (length ds) w = ior_self_loop c [] (length ds) w"
    using ior_self_prefix [OF c dist ks, of "[]"] by simp
  then show ?thesis using c by (simp add: corpus_ior_def)
qed

theorem corpus_ior_self_noop_witness:
  "let w = fold step [NewCorpus, NewDoc x_doc, Add 0 0] empty_world
   in world_inv w \<and> corpora w 0 = Some [(''x'', 0)] \<and> corpus_ior 0 0 w = (Inr (), w)"
proof -
  define w where "w = fold step [NewCorpus, NewDoc x_doc, Add 0 0] empty_world"
  have c: "corpora w 0 = Some [(''x'', 0)]"
    by (simp add: w_def empty_world_def alloc_doc_def corpus_new_def corpus_add_def x_doc_def)
  have inv: "world_inv w"
    by (auto simp: w_def world_inv_def empty_world_def alloc_doc_def corpus_new_def corpus_add_def
        x_doc_def holds_ok_def)
  show ?thesis using corpus_ior_self_noop [OF inv c] inv c unfolding w_def [symmetric] Let_def by simp
qed

text \<open>
  C17: After \<open>corpus[key] = doc\<close> under a new key, for a document whose id the corpus does
  not hold, \<open>corpus |= corpus\<close> raises \<open>RuntimeError\<close>: re-adding that document inserts
  its id while the dict is being iterated.
\<close>

theorem corpus_ior_self_foreign:
  assumes inv: "world_inv w" and c: "corpora w c = Some ds" and h: "heap w r = Some d"
    and i: "doc_id d = Some i" and ni: "i \<notin> fst ` set ds" and nk: "k' \<notin> fst ` set ds" and ik: "i \<noteq> k'"
  shows "fst (corpus_ior c c (snd (corpus_setitem c k' r w))) = Inl RuntimeError"
proof -
  have ok: "holds_ok w c ds" using inv c by (simp add: world_inv_def)
  let ?ds = "ds @ [(k', r)]"
  let ?w = "snd (corpus_setitem c k' r w)"
  have c1: "corpora ?w c = Some ?ds" using c nk by (simp add: corpus_setitem_def update_absent)
  have dist: "distinct (map fst ?ds)" using ok nk by (auto simp: holds_ok_def)
  have "map_of ds k' = None" using nk by (simp add: map_of_eq_None_iff)
  then have m: "map_of ?ds k' = Some r" by (simp add: map_of_append map_add_def)
  have pre: "\<forall>k \<in> set (map fst ds). \<exists>r d. map_of ?ds k = Some r \<and> heap ?w r = Some d \<and>
               doc_id d = Some k \<and> corpus d = Some c"
  proof
    fix k assume "k \<in> set (map fst ds)"
    then obtain r where r: "map_of ds k = Some r" by (metis map_of_eq_None_iff not_None_eq set_map)
    then have "map_of ?ds k = Some r" by (simp add: map_of_append)
    moreover have "heap ?w = heap w" by (simp add: corpus_setitem_def c)
    ultimately show "\<exists>r d. map_of ?ds k = Some r \<and> heap ?w r = Some d \<and> doc_id d = Some k \<and> corpus d = Some c"
      using ok r unfolding holds_ok_map_of by auto
  qed
  have ni': "i \<notin> fst ` set ?ds" using ni ik by auto
  obtain w2 where add: "corpus_add c r ?w = (Inr (), w2)" "corpora w2 c = Some (?ds @ [(i, r)])"
    using c nk h i ni' by (simp add: corpus_add_def corpus_setitem_def update_absent Let_def)
  have "ior_self_loop c (map fst ?ds) (length ?ds) ?w = ior_self_loop c [k'] (length ?ds) ?w"
    using ior_self_prefix [OF c1 dist pre, of "[k']"] by simp
  also have "\<dots> = (Inl RuntimeError, w2)" using c1 m add by simp
  finally show ?thesis using c1 by (simp add: corpus_ior_def)
qed

theorem corpus_ior_self_foreign_witness:
  "let w = fold step [NewCorpus, NewDoc x_doc, NewDoc (x_doc\<lparr>doc_id := Some ''z''\<rparr>), Add 0 0] empty_world
   in world_inv w \<and> corpora w 0 = Some [(''x'', 0)] \<and> heap w 1 = Some (x_doc\<lparr>doc_id := Some ''z''\<rparr>) \<and>
      fst (corpus_ior 0 0 (snd (corpus_setitem 0 ''y'' 1 w))) = Inl RuntimeError"
proof -
  define w where "w = fold step [NewCorpus, NewDoc x_doc, NewDoc (x_doc\<lparr>doc_id := Some ''z''\<rparr>), Add 0 0] empty_world"
  have c: "corpora w 0 = Some [(''x'', 0)]" and h: "heap w 1 = Some (x_doc\<lparr>doc_id := Some ''z''\<rparr>)"
    by (simp_all add: w_def empty_world_def alloc_doc_def corpus_new_def corpus_add_def x_doc_def)
  have inv: "world_inv w"
    by (auto simp: w_def world_inv_def empty_world_def alloc_doc_def corpus_new_def corpus_add_def
        x_doc_def holds_ok_def)
  have "doc_id (x_doc\<lparr>doc_id := Some ''z''\<rparr>) = Some ''z''" "''z'' \<notin> fst ` set [(''x'', 0::nat)]"
    "''y'' \<notin> fst ` set [(''x'', 0::nat)]" "''z'' \<noteq> ''y''" by simp_all
  from corpus_ior_self_foreign [OF inv c h this] inv c h
  show ?thesis unfolding w_def [symmetric] Let_def by simp
qed

end
