(* ===== verification/DocInit.thy ===== *)
theory DocInit
  imports Document TitleCase
begin

text \<open>
  The constructor \<open>Document.__init__(fname=None, form=None, text="")\<close>
  (src/lib/techknacq/corpus.py, lines 120--167). Python's \<open>None\<close> and \<open>""\<close> behave
  alike for \<open>fname\<close> and \<open>form\<close> (both are only tested for truth, compared with a
  form name or, when true, used as a path), so both are the empty string here. The
  file system is a parameter \<open>fs\<close> (path to contents, \<open>None\<close> for a file that cannot
  be opened), \<open>json.load\<close> is the parser \<open>parse\<close>, and the sentence tokenizer is
  \<open>tok\<close>; all three are external to the module. The constructor runs in the source's
  order: infer the form from the file name (\<open>infer_form\<close>); load the JSON record or
  start from \<open>{'info': {}}\<close>; take the attributes from it (\<open>doc_from_json\<close>); then
  let the \<open>text\<close> or \<open>tsv\<close> form replace the sections (and, for \<open>tsv\<close>, the year and
  id). The decoder covers documents whose fields have the types of the specification's
  data model: where the JSON holds another type in \<open>id\<close>, \<open>year\<close>, \<open>url\<close>, a
  reference or a section, Python would store the value and fail later or not at all; the
  model raises \<open>TypeError\<close> at once. Every other exception is the one Python raises.
\<close>

section \<open>Form inference and the id from the file name\<close>

definition infer_form :: "string \<Rightarrow> string \<Rightarrow> string" where
  "infer_form fname form =
     (if fname \<noteq> [] \<and> form = []
      then (if py_in ''json'' fname then ''json''
            else if py_in ''xml'' fname then ''sd''
            else if py_in ''txt'' fname then ''text''
            else form)
      else form)"

text \<open>
  \<open>re.sub('\.(json|xml|txt)$', '', basename)\<close>: the extension is removed at the end of
  the name, or just before a final newline, where \<open>$\<close> also matches.
\<close>

definition cut_ext :: "string \<Rightarrow> string option" where
  "cut_ext t =
     (case find (py_endswith t) [''.json'', ''.xml'', ''.txt''] of
        None \<Rightarrow> None
      | Some e \<Rightarrow> Some (take (length t - length e) t))"

definition strip_ext :: "string \<Rightarrow> string" where
  "strip_ext s =
     (case cut_ext s of
        Some t \<Rightarrow> t
      | None \<Rightarrow>
          if s \<noteq> [] \<and> last s = CHR ''\<newline>''
          then (case cut_ext (butlast s) of Some t \<Rightarrow> t @ ''\<newline>'' | None \<Rightarrow> s)
          else s)"

section \<open>Attributes from the JSON record (lines 138--152)\<close>

text \<open>The keys of a JSON object as Python iterates them: first occurrences, in order.\<close>

definition dict_keys :: "(string \<times> jval) list \<Rightarrow> string list" where
  "dict_keys kvs = rev (remdups (rev (map fst kvs)))"

text \<open>\<open>[x.strip() for x in info.get('authors', [])]\<close>\<close>

definition get_authors :: "jval option \<Rightarrow> string list result" where
  "get_authors v =
     (case v of
        None \<Rightarrow> Inr []
      | Some (JArr vs) \<Rightarrow> (case jstrs vs of None \<Rightarrow> Inl AttributeError | Some ss \<Rightarrow> Inr (map py_strip ss))
      | Some (JStr s) \<Rightarrow> Inr (map (\<lambda>c. py_strip [c]) s)
      | Some (JObj kvs) \<Rightarrow> Inr (map py_strip (dict_keys kvs))
      | Some _ \<Rightarrow> Inl TypeError)"

text \<open>\<open>info.get(key, '')\<close> for a string field (\<open>re.sub\<close> raises on a non-string title).\<close>

definition get_str :: "jval option \<Rightarrow> string result" where
  "get_str v = (case v of None \<Rightarrow> Inr [] | Some (JStr s) \<Rightarrow> Inr s | Some _ \<Rightarrow> Inl TypeError)"

text \<open>\<open>set(j.get('references', []))\<close>\<close>

definition get_refs :: "jval option \<Rightarrow> string set result" where
  "get_refs v =
     (case v of
        None \<Rightarrow> Inr {}
      | Some (JArr vs) \<Rightarrow> (case jstrs vs of None \<Rightarrow> Inl TypeError | Some ss \<Rightarrow> Inr (set ss))
      | Some (JStr s) \<Rightarrow> Inr ((\<lambda>c. [c]) ` set s)
      | Some (JObj kvs) \<Rightarrow> Inr (set (map fst kvs))
      | Some _ \<Rightarrow> Inl TypeError)"

definition get_section :: "jval \<Rightarrow> doc_section result" where
  "get_section v =
     (case v of
        JObj kvs \<Rightarrow>
          (case jget kvs ''text'' of
             Some (JArr ts) \<Rightarrow>
               (case jstrs ts of
                  None \<Rightarrow> Inl TypeError
                | Some ss \<Rightarrow> Inr \<lparr>sect_heading = jget kvs ''heading'', sect_text = ss\<rparr>)
           | _ \<Rightarrow> Inl TypeError)
      | _ \<Rightarrow> Inl TypeError)"

fun get_sections_list :: "jval list \<Rightarrow> doc_section list result" where
  "get_sections_list [] = Inr []"
| "get_sections_list (v # vs) =
     sbind (get_section v) (\<lambda>s. sbind (get_sections_list vs) (\<lambda>ss. Inr (s # ss)))"

definition get_sections :: "jval option \<Rightarrow> doc_section list result" where
  "get_sections v =
     (case v of None \<Rightarrow> Inr [] | Some (JArr vs) \<Rightarrow> get_sections_list vs | Some _ \<Rightarrow> Inl TypeError)"

text \<open>
  \<open>if 'id' in j['info']: ... elif fname: ...\<close>: with neither, the object gets no
  \<open>id\<close> attribute at all.
\<close>

definition get_id :: "string \<Rightarrow> jval option \<Rightarrow> string option result" where
  "get_id fname v =
     (case v of
        Some (JStr i) \<Rightarrow> Inr (Some i)
      | Some _ \<Rightarrow> Inl TypeError
      | None \<Rightarrow> Inr (if fname \<noteq> [] then Some (strip_ext (py_basename fname)) else None))"

definition doc_from_json :: "string \<Rightarrow> jval \<Rightarrow> document result" where
  "doc_from_json fname j =
     (case j of
        JObj jtop \<Rightarrow>
          (case jget jtop ''info'' of
             None \<Rightarrow> Inl KeyError
           | Some (JObj info) \<Rightarrow>
               sbind (get_id fname (jget info ''id'')) (\<lambda>i.
               sbind (get_authors (jget info ''authors'')) (\<lambda>as.
               sbind (get_str (jget info ''title'')) (\<lambda>t.
               sbind (get_str (jget info ''book'')) (\<lambda>b.
               sbind (get_str (jget info ''year'')) (\<lambda>y.
               sbind (get_str (jget info ''url'')) (\<lambda>u.
               sbind (get_refs (jget jtop ''references'')) (\<lambda>rs.
               sbind (get_sections (jget jtop ''sections'')) (\<lambda>ss.
                 Inr \<lparr>doc_id = i, authors = as, title = title_case t, book = title_case b,
                      year = y, url = u, references = rs, sections = ss, corpus = None\<rparr>))))))))
           | Some _ \<Rightarrow> Inl TypeError)
      | _ \<Rightarrow> Inl TypeError)"

section \<open>The \<open>text\<close> and \<open>tsv\<close> forms (lines 154--167)\<close>

text \<open>
  \<open>" ".join([word for word in text.split() if not word[0].isdigit()])\<close>: the words of
  a plain-text file that do not start with a digit, joined by single spaces.
\<close>

definition text_body :: "string \<Rightarrow> string" where
  "text_body c = py_join '' '' (filter (\<lambda>w. \<not> py_isdigit (hd w)) (py_split c))"

definition tsv_fields :: "string \<Rightarrow> (string \<times> string \<times> string) result" where
  "tsv_fields line =
     (case py_split_sep (CHR 0x09) line of [i, y, t] \<Rightarrow> Inr (i, y, t) | _ \<Rightarrow> Inl ValueError)"

type_synonym tokenizer = "string \<Rightarrow> string list"

definition doc_init ::
  "tokenizer \<Rightarrow> (string \<Rightarrow> jval option) \<Rightarrow> (string \<Rightarrow> string option) \<Rightarrow> string \<Rightarrow> string \<Rightarrow> string
     \<Rightarrow> document result" where
  "doc_init tok parse fs fname form0 txt =
     (let form = infer_form fname form0;
          jr = (if fname \<noteq> [] \<and> form = ''json''
                then (case fs fname of
                        None \<Rightarrow> Inl (SystemExit 1)
                      | Some c \<Rightarrow> (case parse c of None \<Rightarrow> Inl (SystemExit 1) | Some j \<Rightarrow> Inr j))
                else Inr (JObj [(''info'', JObj [])]))
      in sbind jr (\<lambda>j. sbind (doc_from_json fname j) (\<lambda>d.
           if fname \<noteq> [] \<and> form = ''text''
           then (case fs fname of
                   None \<Rightarrow> Inl OSError
                 | Some c \<Rightarrow> Inr (d\<lparr>sections := [\<lparr>sect_heading = None, sect_text = tok (text_body c)\<rparr>]\<rparr>))
           else if txt \<noteq> [] \<and> form = ''tsv''
           then sbind (tsv_fields txt) (\<lambda>(i, y, t).
                  Inr (d\<lparr>sections := [\<lparr>sect_heading = None, sect_text = tok t\<rparr>], year := y,
                         doc_id := Some i\<rparr>))
           else Inr d)))"

section \<open>Example records\<close>

text \<open>The document \<open>{'info': {}}\<close> yields, and two records for the lemmas below.\<close>

definition blank_doc :: document where
  "blank_doc = \<lparr>doc_id = None, authors = [], title = [], book = [], year = [], url = [],
     references = {}, sections = [], corpus = None\<rparr>"

definition json_pos :: jval where
  "json_pos = JObj [(''info'', JObj [(''id'', JStr ''p''), (''title'', JStr ''Parts Of Of Speech'')])]"

definition rt_doc :: document where
  "rt_doc = \<lparr>doc_id = Some ''p7'', authors = [''Ann Lee''], title = ''Deep Learning'', book = [],
     year = ''2015'', url = [], references = {''p1'', ''p3''},
     sections = [\<lparr>sect_heading = Some (JStr ''Abstract''), sect_text = [''We learn.'']\<rparr>],
     corpus = None\<rparr>"

section \<open>Lemmas\<close>

lemma infer_form_given [simp]: "form \<noteq> [] \<Longrightarrow> infer_form fname form = form"
  by (simp add: infer_form_def)

lemmas doc_from_json_simps =
  doc_from_json_def get_id_def get_authors_def get_str_def get_refs_def get_sections_def

lemma doc_from_json_blank: "doc_from_json [] (JObj [(''info'', JObj [])]) = Inr blank_doc"
  by (simp add: doc_from_json_simps blank_doc_def)

lemma get_section_json [simp]: "get_section (section_json s) = Inr s"
  by (cases s) (auto simp: get_section_def section_json_def split: option.splits)

lemma get_sections_list_json [simp]: "get_sections_list (map section_json ss) = Inr ss"
  by (induction ss) simp_all

lemma text_body_words:
  "py_split (text_body c) = filter (\<lambda>w. \<not> py_isdigit (hd w)) (py_split c)"
  unfolding text_body_def by (rule py_split_join) (auto dest: py_split_words)

lemma doc_init_tsv:
  "doc_init tok parse fs [] ''tsv'' txt =
     (if txt = [] then Inr blank_doc
      else sbind (tsv_fields txt) (\<lambda>(i, y, t).
             Inr (blank_doc\<lparr>sections := [\<lparr>sect_heading = None, sect_text = tok t\<rparr>], year := y,
                            doc_id := Some i\<rparr>)))"
  by (simp add: doc_init_def doc_from_json_blank)

lemma doc_init_blank: "doc_init tok parse fs [] [] [] = Inr blank_doc"
  by (simp add: doc_init_def doc_from_json_blank)

lemma doc_from_json_corpus: "doc_from_json f j = Inr d \<Longrightarrow> corpus d = None"
  by (auto simp: doc_from_json_def sbind_eq_Inr split: jval.splits option.splits)

lemma doc_from_json_id: "f \<noteq> [] \<Longrightarrow> doc_from_json f j = Inr d \<Longrightarrow> doc_id d \<noteq> None"
  by (auto simp: doc_from_json_def get_id_def sbind_eq_Inr split: jval.splits option.splits)

text \<open>A constructed document belongs to no corpus; one read from a file has an id.\<close>

lemma doc_init_corpus: "doc_init tok parse fs f form txt = Inr d \<Longrightarrow> corpus d = None"
  by (auto simp: doc_init_def Let_def sbind_eq_Inr tsv_fields_def dest: doc_from_json_corpus
      split: if_splits option.splits list.splits)

lemma doc_init_id: "f \<noteq> [] \<Longrightarrow> doc_init tok parse fs f form txt = Inr d \<Longrightarrow> doc_id d \<noteq> None"
  by (auto simp: doc_init_def Let_def sbind_eq_Inr tsv_fields_def dest: doc_from_json_id
      split: if_splits option.splits list.splits)

text \<open>The value \<open>json()\<close> builds (without \<open>abstract\<close>) for a document with id \<open>i\<close>.\<close>

lemma doc_json_shape:
  "doc_json False d = Inr j \<Longrightarrow>
     \<exists>i. doc_id d = Some i \<and>
       j = JObj [(''info'', JObj [(''authors'', JArr (map JStr (authors d))), (''book'', JStr (book d)),
                            (''id'', JStr i), (''title'', JStr (title d)), (''url'', JStr (url d)),
                            (''year'', JStr (year d))]),
                  (''references'', JArr (map JStr (sorted_list_of_set (references d)))),
                  (''sections'', JArr (map section_json (sections d)))]"
  by (cases "doc_id d") (simp_all add: doc_json_def Let_def)

text \<open>
  Only loading a JSON file exits: building the record from a parsed value raises
  \<open>KeyError\<close>, \<open>TypeError\<close> or \<open>AttributeError\<close> at most.
\<close>

lemma getters_no_exit [simp]:
  "no_exit (get_id f v)" "no_exit (get_authors v)" "no_exit (get_str v)" "no_exit (get_refs v)"
  "no_exit (get_section u)" "no_exit (tsv_fields t)"
  by (auto simp: no_exit_def get_id_def get_authors_def get_str_def get_refs_def get_section_def
      tsv_fields_def split: option.splits jval.splits list.splits)

lemma get_sections_no_exit [simp]: "no_exit (get_sections v)"
proof -
  have "no_exit (get_sections_list vs)" for vs by (induction vs) auto
  then show ?thesis by (auto simp: get_sections_def no_exit_def split: option.splits jval.splits)
qed

lemma doc_from_json_no_exit [simp]: "no_exit (doc_from_json f j)"
  unfolding doc_from_json_def by (auto split: option.splits jval.splits simp del: sbind_simps) (auto simp: no_exit_def)

lemma doc_init_no_exit:
  assumes "\<not> (f \<noteq> [] \<and> infer_form f form = ''json'' \<and> (\<forall>c. fs f = Some c \<longrightarrow> parse c = None))"
  shows "no_exit (doc_init tok parse fs f form txt)"
  using assms unfolding doc_init_def Let_def
  by (auto split: option.splits if_splits simp del: sbind_simps) (auto simp: no_exit_def)

section \<open>Properties of the constructor\<close>

text \<open>
  C7: TSV round trip. A line \<open>id<TAB>year<TAB>body\<close> whose fields hold no tab yields a
  document whose id, year and single untitled section (the tokenized body) are exactly
  those fields.
\<close>

theorem tsv_roundtrip:
  assumes "CHR 0x09 \<notin> set i" "CHR 0x09 \<notin> set y" "CHR 0x09 \<notin> set t"
  shows "\<exists>d. doc_init tok parse fs [] ''tsv'' (i @ CHR 0x09 # y @ CHR 0x09 # t) = Inr d \<and>
             doc_id d = Some i \<and> year d = y \<and> sections d = [\<lparr>sect_heading = None, sect_text = tok t\<rparr>]"
proof -
  have "tsv_fields (i @ CHR 0x09 # y @ CHR 0x09 # t) = Inr (i, y, t)"
    using assms by (simp add: tsv_fields_def py_split_sep_append py_split_sep_no_sep)
  then show ?thesis
    by (simp add: doc_init_def doc_from_json_blank)
qed

theorem tsv_roundtrip_witness:
  "CHR 0x09 \<notin> set ''p1'' \<and> CHR 0x09 \<notin> set ''2001'' \<and> CHR 0x09 \<notin> set ''Hi.'' \<and>
   (\<exists>d. doc_init (\<lambda>s. [s]) (\<lambda>_. None) (\<lambda>_. None) [] ''tsv'' (''p1'' @ CHR 0x09 # ''2001'' @ CHR 0x09 # ''Hi.'') = Inr d \<and>
        doc_id d = Some ''p1'' \<and> year d = ''2001'' \<and> sections d = [\<lparr>sect_heading = None, sect_text = [''Hi.'']\<rparr>])"
proof -
  have h: "CHR 0x09 \<notin> set ''p1''" "CHR 0x09 \<notin> set ''2001''" "CHR 0x09 \<notin> set ''Hi.''"
    by code_simp+
  show ?thesis using tsv_roundtrip [OF h, of "\<lambda>s. [s]" "\<lambda>_. None" "\<lambda>_. None"] h by simp
qed

text \<open>
  A TSV line that does not split into exactly three tab-separated fields makes the
  constructor raise \<open>ValueError\<close> (the tuple unpacking of line 164).
\<close>

theorem tsv_malformed:
  "txt \<noteq> [] \<Longrightarrow> length (py_split_sep (CHR 0x09) txt) \<noteq> 3 \<Longrightarrow>
     doc_init tok parse fs [] ''tsv'' txt = Inl ValueError"
  by (auto simp: doc_init_def doc_from_json_blank tsv_fields_def split: list.splits)

theorem tsv_malformed_witness:
  "''p1'' @ CHR 0x09 # ''Hi.'' \<noteq> [] \<and> length (py_split_sep (CHR 0x09) (''p1'' @ CHR 0x09 # ''Hi.'')) \<noteq> 3 \<and>
   doc_init (\<lambda>s. [s]) (\<lambda>_. None) (\<lambda>_. None) [] ''tsv'' (''p1'' @ CHR 0x09 # ''Hi.'') = Inl ValueError"
proof -
  have h: "length (py_split_sep (CHR 0x09) (''p1'' @ CHR 0x09 # ''Hi.'')) \<noteq> 3" by code_simp
  show ?thesis using tsv_malformed [OF _ h] h by simp
qed

text \<open>
  C6: JSON round trip. Re-reading the record \<open>json()\<close> writes gives back the document
  (outside any corpus) when its title and book are fixed points of \<open>title_case\<close> and its
  authors carry no surrounding whitespace; the reference set is finite, as a Python set is.
\<close>

theorem json_roundtrip:
  assumes j: "doc_json False d = Inr j" and fin: "finite (references d)"
    and t: "title_case (title d) = title d" and b: "title_case (book d) = book d"
    and a: "list_all (\<lambda>a. py_strip a = a) (authors d)"
  shows "doc_from_json fname j = Inr (d\<lparr>corpus := None\<rparr>)"
proof -
  obtain i where i: "doc_id d = Some i" using j by (cases "doc_id d") (simp_all add: doc_json_def)
  have as: "map py_strip (authors d) = authors d"
    using a by (simp add: list_all_iff map_idI)
  show ?thesis
    using doc_json_shape [OF j] fin t b as i by (cases d) (auto simp: doc_from_json_simps)
qed

theorem json_roundtrip_witness:
  "(\<exists>j. doc_json False rt_doc = Inr j \<and> doc_from_json ''p7.json'' j = Inr (rt_doc\<lparr>corpus := None\<rparr>)) \<and>
   finite (references rt_doc) \<and> title_case (title rt_doc) = title rt_doc \<and>
   title_case (book rt_doc) = book rt_doc \<and> list_all (\<lambda>a. py_strip a = a) (authors rt_doc)"
proof -
  have f: "finite (references rt_doc)" by (simp add: rt_doc_def)
  have h: "title_case (title rt_doc) = title rt_doc"
    "title_case (book rt_doc) = book rt_doc" "list_all (\<lambda>a. py_strip a = a) (authors rt_doc)"
    by code_simp+
  obtain j where j: "doc_json False rt_doc = Inr j" by (simp add: doc_json_def rt_doc_def Let_def)
  show ?thesis using json_roundtrip [OF j f h] j f h by blast
qed

text \<open>
  C23: Re-reading what \<open>json()\<close> writes applies \<open>title_case\<close> to the title and the book
  once more, for every document with an id. Since \<open>title_case\<close> is not idempotent,
  writing and re-reading can change a title: the title \<open>"Parts Of Of Speech"\<close> is
  stored as \<open>"Parts of Of Speech"\<close>, and after a round trip as \<open>"Parts of of Speech"\<close>.
\<close>

theorem json_reread_changes_title:
  assumes j: "doc_json False d = Inr j"
  shows "map_sum id (\<lambda>d'. (title d', book d')) (doc_from_json f j) = Inr (title_case (title d), title_case (book d))"
  using doc_json_shape [OF j] by (auto simp: doc_from_json_simps)

theorem json_reread_changes_title_witness:
  "\<exists>j. doc_json False (projr (doc_from_json [] json_pos)) = Inr j \<and>
       title (projr (doc_from_json [] json_pos)) = ''Parts of Of Speech'' \<and>
       map_sum id (\<lambda>d'. (title d', book d')) (doc_from_json [] j) = Inr (''Parts of of Speech'', [])"
proof -
  have t: "title (projr (doc_from_json [] json_pos)) = ''Parts of Of Speech''"
    "book (projr (doc_from_json [] json_pos)) = []"
    "doc_id (projr (doc_from_json [] json_pos)) = Some ''p''"
    by code_simp+
  have tc: "title_case ''Parts of Of Speech'' = ''Parts of of Speech''" "title_case [] = []"
    by code_simp+
  obtain j where j: "doc_json False (projr (doc_from_json [] json_pos)) = Inr j"
    using t(3) by (simp add: doc_json_def Let_def)
  show ?thesis using json_reread_changes_title [OF j, of "[]"] j t tc by auto
qed

text \<open>
  C27: The \<open>text\<close> form. A readable plain-text file gives one untitled section, the
  tokenizer's sentences of the rejoined text, and the words that text splits into are
  exactly the file's words that do not start with a digit; the id is the file name
  without its extension.
\<close>

theorem text_form_words:
  assumes "fs f = Some c" "f \<noteq> []"
  shows "\<exists>d. doc_init tok parse fs f ''text'' [] = Inr d
            \<and> doc_id d = Some (strip_ext (py_basename f))
            \<and> sections d = [\<lparr>sect_heading = None, sect_text = tok (text_body c)\<rparr>]
            \<and> py_split (text_body c) = filter (\<lambda>w. \<not> py_isdigit (hd w)) (py_split c)"
  using assms by (simp add: doc_init_def doc_from_json_simps text_body_words)

theorem text_form_words_witness:
  "(\<lambda>_. Some ''12 The cat  sat 3x on'') ''a/d.txt'' = Some ''12 The cat  sat 3x on'' \<and> ''a/d.txt'' \<noteq> [] \<and>
   (\<exists>d. doc_init (\<lambda>s. [s]) (\<lambda>_. None) (\<lambda>_. Some ''12 The cat  sat 3x on'') ''a/d.txt'' ''text'' [] = Inr d
        \<and> doc_id d = Some (strip_ext (py_basename ''a/d.txt''))
        \<and> sections d = [\<lparr>sect_heading = None, sect_text = [text_body ''12 The cat  sat 3x on'']\<rparr>]
        \<and> py_split (text_body ''12 The cat  sat 3x on'')
            = filter (\<lambda>w. \<not> py_isdigit (hd w)) (py_split ''12 The cat  sat 3x on''))"
  using text_form_words [of "\<lambda>_. Some ''12 The cat  sat 3x on''" "''a/d.txt''" "''12 The cat  sat 3x on''"
      "\<lambda>s. [s]" "\<lambda>_. None"]
  by simp

text \<open>
  C28: The form is inferred from a substring of the whole path, not from the extension:
  every path containing \<open>json\<close> (a \<open>.txt\<close> file in a directory \<open>json_dump\<close>, say) is
  loaded as JSON, and when its contents do not parse the constructor exits the process
  with status 1.
\<close>

theorem form_inferred_from_path:
  assumes "f \<noteq> []" "py_in ''json'' f" "fs f = Some c"
  shows "doc_init tok parse fs f [] txt =
           (case parse c of None \<Rightarrow> Inl (SystemExit 1) | Some j \<Rightarrow> doc_from_json f j)"
  using assms by (auto simp: doc_init_def infer_form_def Let_def sbind_def split: option.splits sum.splits)

theorem form_inferred_from_path_witness:
  "''/data/json_dump/12345678.txt'' \<noteq> [] \<and> py_in ''json'' ''/data/json_dump/12345678.txt'' \<and>
   doc_init (\<lambda>s. [s]) (\<lambda>_. None) (\<lambda>_. Some ''The cat sat.'') ''/data/json_dump/12345678.txt'' [] []
     = Inl (SystemExit 1)"
proof -
  have p: "py_in ''json'' ''/data/json_dump/12345678.txt''" by code_simp
  show ?thesis
    using form_inferred_from_path [OF _ p, of "\<lambda>_. Some ''The cat sat.''" "''The cat sat.''"
        "\<lambda>s. [s]" "\<lambda>_. None" "[]"] p by simp
qed

text \<open>
  C29: The \<open>sd\<close> form inferred for an \<open>.xml\<close> path reads nothing: the document has
  the id taken from the file name and no authors, title, references or sections.
\<close>

theorem xml_form_reads_nothing:
  "py_in ''xml'' f \<Longrightarrow> \<not> py_in ''json'' f \<Longrightarrow>
     doc_init tok parse fs f [] [] = Inr (blank_doc\<lparr>doc_id := Some (strip_ext (py_basename f))\<rparr>)"
proof -
  assume x: "py_in ''xml'' f" and nj: "\<not> py_in ''json'' f"
  then have ne: "f \<noteq> []" by auto
  then have "infer_form f [] = ''sd''" using x nj by (simp add: infer_form_def)
  with ne show ?thesis
    by (simp add: doc_init_def doc_from_json_simps blank_doc_def)
qed

theorem xml_form_reads_nothing_witness:
  "py_in ''xml'' ''corpus/p1.xml'' \<and> \<not> py_in ''json'' ''corpus/p1.xml'' \<and>
   doc_init (\<lambda>s. [s]) (\<lambda>_. None) (\<lambda>_. None) ''corpus/p1.xml'' [] [] = Inr (blank_doc\<lparr>doc_id := Some ''p1''\<rparr>)"
proof -
  have h: "py_in ''xml'' ''corpus/p1.xml''" "\<not> py_in ''json'' ''corpus/p1.xml''"
    and b: "strip_ext (py_basename ''corpus/p1.xml'') = ''p1''" by code_simp+
  show ?thesis using xml_form_reads_nothing [OF h, of "\<lambda>s. [s]" "\<lambda>_. None" "\<lambda>_. None"] h b by simp
qed

end
