(* ===== verification/Ingest.thy ===== *)
theory Ingest
  imports Corpus DocInit
begin

text \<open>
  The constructor \<open>Corpus.__init__(path=None, pool=None, path_list=None)\<close>
  (src/lib/techknacq/corpus.py, lines 22--54). Its three modes run in the heap
  model of theory \<^theory_text>\<open>Corpus\<close>: the new \<open>Corpus\<close> object is created first
  (\<open>corpus_new\<close>, \<open>self.docs = {}\<close>), each \<open>Document\<close> is a fresh object
  (\<open>alloc_doc\<close>) and is added with \<open>corpus_add\<close>. The outside world is a record
  \<open>env\<close>: \<open>os.path.isfile\<close>, reading a file, the listing of a directory (\<open>str(f)\<close> for
  every entry \<open>f\<close> of \<open>Path(path).iterdir()\<close>, in iteration order; \<open>None\<close> when the
  path is not a directory), \<open>json.load\<close>, the sentence tokenizer and
  \<open>mp.cpu_count()\<close>. The result is an option: \<open>None\<close> is a constructor that never
  returns. This happens in the directory mode when a worker of \<open>pool.imap\<close> calls
  \<open>sys.exit\<close>: the pool's worker catches only \<open>Exception\<close>, so \<open>SystemExit\<close> ends the
  worker process, its task's result never arrives and \<open>imap\<close> waits for it forever.
  Every other exception of a worker is raised again in the parent when \<open>imap\<close>
  reaches that task, in the order of the names, so the pool is modelled as the
  sequential loop \<open>dir_loop\<close>. The pool object itself only matters through
  \<open>mp.Pool(int(.5 * mp.cpu_count()))\<close>, which raises \<open>ValueError\<close> for fewer than one
  process; the flag \<open>pool\<close> says whether the caller passed one. \<open>path_list\<close> is the
  empty list for \<open>None\<close> (both are false).
\<close>

record env =
  env_isfile :: "string \<Rightarrow> bool"
  env_read :: "string \<Rightarrow> string option"
  env_listdir :: "string \<Rightarrow> string list option"
  env_parse :: "string \<Rightarrow> jval option"
  env_tok :: tokenizer
  env_cpus :: nat

text \<open>\<open>Document(fname, form, text)\<close> in the given environment.\<close>

definition new_document :: "env \<Rightarrow> string \<Rightarrow> string \<Rightarrow> string \<Rightarrow> document result" where
  "new_document e fname form txt = doc_init (env_tok e) (env_parse e) (env_read e) fname form txt"

section \<open>A single TSV file (lines 27--36)\<close>

text \<open>
  \<open>for d in docs[1:]: doc = Document(text=d, form='tsv'); try: self.add(doc) except:
  continue\<close>. The constructor is outside the \<open>try\<close>: its exception ends the loop and
  the constructor of the corpus. The bare \<open>except\<close> catches the \<open>AttributeError\<close> of
  \<open>add\<close> for a line that gave no id (an empty line), after \<open>add\<close> has stamped it.
\<close>

fun tsv_loop :: "env \<Rightarrow> cref \<Rightarrow> string list \<Rightarrow> world \<Rightarrow> unit result \<times> world" where
  "tsv_loop e c [] w = (Inr (), w)"
| "tsv_loop e c (d # ds) w =
     (case new_document e [] ''tsv'' d of
        Inl err \<Rightarrow> (Inl err, w)
      | Inr doc \<Rightarrow> (case alloc_doc doc w of (r, w1) \<Rightarrow> tsv_loop e c ds (snd (corpus_add c r w1))))"

section \<open>A BioC file (lines 37--43)\<close>

text \<open>
  The number of items \<open>for d in v\<close> visits: the elements of a list, the keys of a
  dict, the characters of a string; other values are not iterable.
\<close>

definition py_iter_count :: "jval \<Rightarrow> nat result" where
  "py_iter_count v =
     (case v of
        JArr vs \<Rightarrow> Inr (length vs)
      | JObj kvs \<Rightarrow> Inr (length (dict_keys kvs))
      | JStr s \<Rightarrow> Inr (length s)
      | _ \<Rightarrow> Inl TypeError)"

text \<open>
  \<open>j = json.load(open(path)); for d in j['documents']: doc = Document();
  doc.read_bioc_json(d); self.add(doc)\<close>. \<open>Document\<close> has no method
  \<open>read_bioc_json\<close>, so the first item raises \<open>AttributeError\<close> after one document
  object has been made. \<open>json.load\<close> raises \<open>ValueError\<close> (\<open>JSONDecodeError\<close>) on a file
  that does not parse, and indexing a non-object with \<open>'documents'\<close> raises
  \<open>TypeError\<close>.
\<close>

definition bioc_ingest :: "env \<Rightarrow> string \<Rightarrow> world \<Rightarrow> unit result \<times> world" where
  "bioc_ingest e path w =
     (case env_read e path of
        None \<Rightarrow> (Inl OSError, w)
      | Some s \<Rightarrow>
          (case env_parse e s of
             None \<Rightarrow> (Inl ValueError, w)
           | Some (JObj kvs) \<Rightarrow>
               (case jget kvs ''documents'' of
                  None \<Rightarrow> (Inl KeyError, w)
                | Some ds \<Rightarrow>
                    (case py_iter_count ds of
                       Inl err \<Rightarrow> (Inl err, w)
                     | Inr n \<Rightarrow>
                         if n = 0 then (Inr (), w)
                         else (case new_document e [] [] [] of
                                 Inl err \<Rightarrow> (Inl err, w)
                               | Inr d \<Rightarrow> (Inl AttributeError, snd (alloc_doc d w)))))
           | Some _ \<Rightarrow> (Inl TypeError, w)))"

section \<open>A directory or a list of files (lines 44--54)\<close>

text \<open>
  \<open>re.match(".*[0-9]{8}", s)\<close>: a prefix without newline (\<open>.\<close> does not match one)
  followed by eight ASCII digits.
\<close>

definition re_digit :: "char \<Rightarrow> bool" where
  "re_digit c = (CHR ''0'' \<le> c \<and> c \<le> CHR ''9'')"

definition re_match_8 :: "string \<Rightarrow> bool" where
  "re_match_8 s =
     list_ex (\<lambda>j. j + 8 \<le> length s \<and> CHR ''\<newline>'' \<notin> set (take j s) \<and> list_all re_digit (take 8 (drop j s)))
       [0..<length s]"

text \<open>
  The generator of file names: files of the directory whose name ends in \<open>.txt\<close>
  (\<open>str(f)[-4:] == ".txt"\<close>) and matches the pattern. A path that is not a directory
  raises \<open>OSError\<close> at the first step of the generator, before any document.
\<close>

definition docnames :: "env \<Rightarrow> string \<Rightarrow> string list result" where
  "docnames e path =
     (case env_listdir e path of
        None \<Rightarrow> Inl OSError
      | Some fs \<Rightarrow> Inr (filter (\<lambda>f. env_isfile e f \<and> drop (length f - 4) f = ''.txt'' \<and> re_match_8 f) fs))"

text \<open>
  \<open>for doc in pool.imap(Document, docnames): if doc: self.add(doc)\<close>. A
  \<open>Document\<close> defines neither \<open>__bool__\<close> nor \<open>__len__\<close>, so \<open>if doc\<close> always
  holds.
\<close>

fun dir_loop :: "env \<Rightarrow> cref \<Rightarrow> string list \<Rightarrow> world \<Rightarrow> (unit result \<times> world) option" where
  "dir_loop e c [] w = Some (Inr (), w)"
| "dir_loop e c (f # fs) w =
     (case new_document e f [] [] of
        Inl err \<Rightarrow> (case err of SystemExit n \<Rightarrow> None | _ \<Rightarrow> Some (Inl err, w))
      | Inr d \<Rightarrow>
          (case alloc_doc d w of
             (r, w1) \<Rightarrow>
               (case corpus_add c r w1 of
                  (Inl err, w2) \<Rightarrow> Some (Inl err, w2)
                | (Inr _, w2) \<Rightarrow> dir_loop e c fs w2)))"

section \<open>The constructor\<close>

definition corpus_result :: "cref \<Rightarrow> unit result \<times> world \<Rightarrow> cref result \<times> world" where
  "corpus_result c rw = (sbind (fst rw) (\<lambda>_. Inr c), snd rw)"

definition corpus_init ::
  "env \<Rightarrow> string \<Rightarrow> bool \<Rightarrow> string list \<Rightarrow> world \<Rightarrow> (cref result \<times> world) option" where
  "corpus_init e path pool path_list w =
     (case corpus_new w of
        (c, w1) \<Rightarrow>
          if path \<noteq> [] \<and> env_isfile e path then
            if py_in ''.tsv'' path then
              Some (case env_read e path of
                      None \<Rightarrow> (Inl OSError, w1)
                    | Some s \<Rightarrow> corpus_result c (tsv_loop e c (drop 1 (py_split_sep CHR ''\<newline>'' s)) w1))
            else Some (corpus_result c (bioc_ingest e path w1))
          else if path \<noteq> [] then
            (if \<not> pool \<and> env_cpus e div 2 = 0 then Some (Inl ValueError, w1)
             else (case (if path_list \<noteq> [] then Inr path_list else docnames e path) of
                     Inl err \<Rightarrow> Some (Inl err, w1)
                   | Inr names \<Rightarrow> map_option (corpus_result c) (dir_loop e c names w1)))
          else Some (Inr c, w1))"

section \<open>Example environment\<close>

text \<open>Line-based predicates of the TSV mode, and the files the lemmas below use.\<close>

abbreviation tsv_bad :: "string \<Rightarrow> bool" where
  "tsv_bad l \<equiv> l \<noteq> [] \<and> length (py_split_sep (CHR 0x09) l) \<noteq> 3"

text \<open>The id of the document a file of the directory mode yields.\<close>

abbreviation file_id :: "env \<Rightarrow> string \<Rightarrow> string" where
  "file_id e p \<equiv> the (doc_id (projr (new_document e p [] [])))"

abbreviation add_key :: "string \<Rightarrow> string list \<Rightarrow> string list" where
  "add_key k ks \<equiv> if k \<in> set ks then ks else ks @ [k]"

definition good_tsv :: string where
  "good_tsv = ''id'' @ CHR 0x09 # ''year'' @ CHR 0x09 # ''text\<newline>p1'' @ CHR 0x09 # ''2001''
                @ CHR 0x09 # ''Hi.\<newline>p2'' @ CHR 0x09 # ''2002'' @ CHR 0x09 # ''Yo.\<newline>p1'' @ CHR 0x09
                # ''2003'' @ CHR 0x09 # ''Again.\<newline>''"

definition bad_tsv :: string where
  "bad_tsv = ''id'' @ CHR 0x09 # ''year'' @ CHR 0x09 # ''text\<newline>p1'' @ CHR 0x09 # ''2001''
               @ CHR 0x09 # ''Hi.\<newline>no tabs here\<newline>''"

definition ex_files :: "string \<Rightarrow> string option" where
  "ex_files p =
     (if p = ''/c.tsv'' then Some good_tsv
      else if p = ''/bad.tsv'' then Some bad_tsv
      else if p = ''/d/b12345678.txt'' then Some ''The cat sat.''
      else if p = ''/data/json/12345678.txt'' then Some ''The cat sat.''
      else if p = ''/bioc.json'' then Some ''BIOC''
      else None)"

definition ex_env :: env where
  "ex_env = \<lparr>env_isfile = (\<lambda>p. ex_files p \<noteq> None), env_read = ex_files,
     env_listdir = (\<lambda>p. if p = ''/d'' then Some [''/d/b12345678.txt''] else None),
     env_parse = (\<lambda>s. if s = ''BIOC'' then Some (JObj [(''documents'', JArr [JObj []])]) else None),
     env_tok = (\<lambda>s. [s]), env_cpus = 1\<rparr>"

text \<open>A directory \<open>/d\<close> with one file that loads as JSON.\<close>

definition calm_env :: env where
  "calm_env = \<lparr>env_isfile = (\<lambda>p. p \<noteq> ''/d''), env_read = (\<lambda>p. Some ''{}''),
     env_listdir = (\<lambda>p. if p = ''/d'' then Some [''/d/json/12345678.txt''] else None),
     env_parse = (\<lambda>s. Some (JObj [(''info'', JObj [])])), env_tok = (\<lambda>s. [s]), env_cpus = 4\<rparr>"

section \<open>Lemmas\<close>

lemma remdups_skip_dup: "x \<in> set B \<Longrightarrow> remdups (A @ x # B) = remdups (A @ B)"
  by (induction A) auto

lemma fold_add_key:
  "distinct ks \<Longrightarrow> fold add_key xs ks = rev (remdups (rev (ks @ xs)))"
proof (induction xs arbitrary: ks)
  case Nil
  then show ?case by (simp add: distinct_remdups_id)
next
  case (Cons x xs)
  have d: "distinct (add_key x ks)" using Cons.prems by simp
  show ?case
  proof (cases "x \<in> set ks")
    case True
    then have "remdups (rev xs @ x # rev ks) = remdups (rev xs @ rev ks)"
      by (simp add: remdups_skip_dup)
    with True Cons.IH [OF d] show ?thesis by simp
  next
    case False
    with Cons.IH [OF d] show ?thesis by simp
  qed
qed

lemma new_document_corpus: "new_document e f form t = Inr d \<Longrightarrow> corpus d = None"
  unfolding new_document_def by (rule doc_init_corpus)

lemma new_document_tsv_ok:
  "\<not> tsv_bad l \<Longrightarrow> \<exists>d. new_document e [] ''tsv'' l = Inr d \<and> (l \<noteq> [] \<longrightarrow> doc_id d = Some (hd (py_split_sep (CHR 0x09) l)))"
  by (auto simp: new_document_def doc_init_tsv tsv_fields_def blank_doc_def split: list.splits)

lemma new_document_tsv_bad:
  "tsv_bad l \<Longrightarrow> new_document e [] ''tsv'' l = Inl ValueError"
  by (auto simp: new_document_def doc_init_tsv tsv_fields_def split: list.splits)

lemma tsv_loop_reachable: "reachable w \<Longrightarrow> reachable (snd (tsv_loop e c ls w))"
proof (induction ls arbitrary: w)
  case (Cons l ls)
  show ?case
  proof (cases "new_document e [] ''tsv'' l")
    case (Inr d)
    obtain r w1 where a: "alloc_doc d w = (r, w1)" by fastforce
    have "reachable (snd (corpus_add c r w1))"
      using reachable_alloc_add(2) [OF Cons.prems new_document_corpus [OF Inr] a] .
    with Cons.IH Inr a show ?thesis by simp
  qed (use Cons.prems in simp)
qed simp

lemma tsv_loop_malformed:
  "list_ex tsv_bad ls \<Longrightarrow> fst (tsv_loop e c ls w) = Inl ValueError"
proof (induction ls arbitrary: w)
  case (Cons l ls)
  show ?case
  proof (cases "tsv_bad l")
    case True
    then show ?thesis by (simp add: new_document_tsv_bad)
  next
    case False
    then obtain d where d: "new_document e [] ''tsv'' l = Inr d" using new_document_tsv_ok by blast
    have "list_ex tsv_bad ls" using Cons.prems False by simp
    with Cons.IH d show ?thesis by (simp split: prod.splits)
  qed
qed simp

lemma tsv_loop_keys:
  assumes "corpora w c = Some ds" "\<not> list_ex tsv_bad ls"
  shows "\<exists>w' ds'. tsv_loop e c ls w = (Inr (), w') \<and> corpora w' c = Some ds' \<and>
           map fst ds' = fold add_key (map (\<lambda>l. hd (py_split_sep (CHR 0x09) l)) (filter (\<lambda>l. l \<noteq> []) ls)) (map fst ds)"
  using assms
proof (induction ls arbitrary: w ds)
  case (Cons l ls)
  obtain d where d: "new_document e [] ''tsv'' l = Inr d"
    and i: "l \<noteq> [] \<longrightarrow> doc_id d = Some (hd (py_split_sep (CHR 0x09) l))"
    using new_document_tsv_ok [of l e] Cons.prems(2) by auto
  obtain r w1 where a: "alloc_doc d w = (r, w1)" by fastforce
  have h: "heap w1 r = Some d" "corpora w1 c = Some ds" using a Cons.prems(1) by (auto simp: alloc_doc_def)
  show ?case
  proof (cases "l = []")
    case True
    then have "doc_id d = None" using d by (auto simp: new_document_def doc_init_tsv blank_doc_def)
    with h True have "corpora (snd (corpus_add c r w1)) c = Some ds" by (simp add: corpus_add_def)
    from Cons.IH [OF this] Cons.prems(2) d a True show ?thesis by simp
  next
    case False
    let ?k = "hd (py_split_sep (CHR 0x09) l)"
    have "corpora (snd (corpus_add c r w1)) c = Some (AList.update ?k r ds)"
      using h i False by (simp add: corpus_add_def)
    from Cons.IH [OF this] Cons.prems(2) d a False show ?thesis by (simp add: update_keys)
  qed
qed simp

lemma corpus_add_fresh_ok:
  assumes "heap w r = Some d" "doc_id d = Some k" "corpora w c = Some ds"
  shows "corpus_add c r w = (Inr (), w\<lparr>heap := (heap w)(r \<mapsto> d\<lparr>corpus := Some c\<rparr>),
                                       corpora := (corpora w)(c \<mapsto> AList.update k r ds)\<rparr>)"
  using assms by (simp add: corpus_add_def)

lemma dir_loop_reachable:
  "reachable w \<Longrightarrow> dir_loop e c ns w = Some (res, w') \<Longrightarrow> reachable w'"
proof (induction ns arbitrary: w)
  case Nil
  then show ?case by simp
next
  case (Cons f ns)
  show ?case
  proof (cases "new_document e f [] []")
    case (Inl err)
    with Cons.prems show ?thesis by (cases err) auto
  next
    case (Inr d)
    obtain r w1 where a: "alloc_doc d w = (r, w1)" by fastforce
    have "reachable (snd (corpus_add c r w1))"
      using reachable_alloc_add(2) [OF Cons.prems(1) new_document_corpus [OF Inr] a] .
    with Cons Inr a show ?thesis by (auto split: prod.splits sum.splits)
  qed
qed

lemma dir_loop_prefix:
  assumes "\<forall>p\<in>set pre. p \<noteq> [] \<and> (\<exists>d. new_document e p [] [] = Inr d)" "corpora w c \<noteq> None"
  shows "\<exists>w''. corpora w'' c \<noteq> None \<and> dir_loop e c (pre @ rest) w = dir_loop e c rest w''"
  using assms
proof (induction pre arbitrary: w)
  case (Cons p pre)
  obtain d where d: "new_document e p [] [] = Inr d" and p: "p \<noteq> []" using Cons.prems(1) by auto
  obtain k where k: "doc_id d = Some k"
    using doc_init_id [OF p] d unfolding new_document_def by blast
  obtain ds where ds: "corpora w c = Some ds" using Cons.prems(2) by auto
  obtain r w1 where a: "alloc_doc d w = (r, w1)" by fastforce
  have h: "heap w1 r = Some d" "corpora w1 c = Some ds" using a ds by (auto simp: alloc_doc_def)
  obtain w2 where add: "corpus_add c r w1 = (Inr (), w2)" and c2: "corpora w2 c \<noteq> None"
    using corpus_add_fresh_ok [OF h(1) k h(2)] by simp
  obtain w'' where "corpora w'' c \<noteq> None" "dir_loop e c (pre @ rest) w2 = dir_loop e c rest w''"
    using Cons.IH [OF _ c2] Cons.prems(1) by auto
  with d a add show ?case by auto
qed auto

lemma dir_loop_prefix_keys:
  assumes "\<forall>p\<in>set pre. p \<noteq> [] \<and> (\<exists>d. new_document e p [] [] = Inr d)" "corpora w c = Some ds"
  shows "\<exists>w'' ds''. corpora w'' c = Some ds'' \<and> map fst ds'' = fold add_key (map (file_id e) pre) (map fst ds) \<and>
           dir_loop e c (pre @ rest) w = dir_loop e c rest w''"
  using assms
proof (induction pre arbitrary: w ds)
  case (Cons p pre)
  obtain d where d: "new_document e p [] [] = Inr d" and p: "p \<noteq> []" using Cons.prems(1) by auto
  obtain k where k: "doc_id d = Some k"
    using doc_init_id [OF p] d unfolding new_document_def by blast
  obtain r w1 where a: "alloc_doc d w = (r, w1)" by fastforce
  have h: "heap w1 r = Some d" "corpora w1 c = Some ds" using a Cons.prems(2) by (auto simp: alloc_doc_def)
  obtain w2 where add: "corpus_add c r w1 = (Inr (), w2)" "corpora w2 c = Some (AList.update k r ds)"
    using corpus_add_fresh_ok [OF h(1) k h(2)] by simp
  from Cons.IH [OF _ add(2)] Cons.prems(1) d k a add(1) show ?case by (simp add: update_keys)
qed auto

lemma bioc_reachable: "reachable w \<Longrightarrow> reachable (snd (bioc_ingest e path w))"
  by (auto simp: bioc_ingest_def new_document_def doc_init_blank blank_doc_def
      intro: reachable.new_doc [simplified] split: option.splits jval.splits sum.splits)

lemma new_document_ok: "\<not> isl r \<Longrightarrow> \<exists>d. r = Inr d"
  by (cases r) auto

lemma new_document_no_exit:
  assumes "\<forall>f. f \<noteq> [] \<and> infer_form f [] = ''json'' \<longrightarrow> (\<exists>s. env_read e f = Some s \<and> env_parse e s \<noteq> None)"
  shows "no_exit (new_document e f [] [])"
  unfolding new_document_def by (rule doc_init_no_exit) (use assms in auto)

lemma dir_loop_returns:
  "\<forall>f \<in> set ns. no_exit (new_document e f [] []) \<Longrightarrow> dir_loop e c ns w \<noteq> None"
proof (induction ns arbitrary: w)
  case (Cons f ns)
  show ?case
  proof (cases "new_document e f [] []")
    case (Inl err)
    with Cons.prems show ?thesis by (cases err) (auto simp: no_exit_def)
  next
    case (Inr d)
    with Cons show ?thesis by (auto split: prod.splits sum.splits)
  qed
qed simp

section \<open>Properties of ingestion\<close>

text \<open>
  C20: Ingestion is a run of corpus operations. From a world reached by the runs of theory
  \<^theory_text>\<open>Corpus\<close>, every mode of \<open>Corpus(path, pool, path_list)\<close> that returns leaves a
  reachable world: it creates one corpus, and adds only fresh documents, to that corpus
  alone. So the ownership invariant holds after ingestion, whatever the files hold.
\<close>

theorem corpus_init_reachable:
  "reachable w \<Longrightarrow> corpus_init e path pool pl w = Some (res, w') \<Longrightarrow> reachable w'"
proof -
  assume r: "reachable w" and ci: "corpus_init e path pool pl w = Some (res, w')"
  obtain c w1 where n: "corpus_new w = (c, w1)" by fastforce
  have r1: "reachable w1" using reachable.new_corpus [OF r] n by simp
  show ?thesis
    using ci n r1 tsv_loop_reachable [OF r1] bioc_reachable [OF r1] dir_loop_reachable [OF r1]
    by (auto simp: corpus_init_def corpus_result_def split: if_splits option.splits sum.splits)
qed

theorem corpus_init_reachable_witness:
  "\<exists>res w'. reachable empty_world \<and>
     corpus_init ex_env ''/d'' True [''/d/b12345678.txt''] empty_world = Some (res, w') \<and> reachable w'"
proof -
  have "\<not> Option.is_none (corpus_init ex_env ''/d'' True [''/d/b12345678.txt''] empty_world)" by code_simp
  then obtain res w' where ci: "corpus_init ex_env ''/d'' True [''/d/b12345678.txt''] empty_world = Some (res, w')"
    by (cases "corpus_init ex_env ''/d'' True [''/d/b12345678.txt''] empty_world") auto
  show ?thesis using corpus_init_reachable [OF reachable.start ci] reachable.start ci by blast
qed

text \<open>
  C4: A TSV file with a malformed line (not empty and not three tab-separated fields) after
  the header makes \<open>Corpus(path)\<close> raise \<open>ValueError\<close>: the line is not skipped.
\<close>

theorem tsv_ingest_malformed_aborts:
  assumes "path \<noteq> []" "env_isfile e path" "py_in ''.tsv'' path" "env_read e path = Some s"
    "list_ex tsv_bad (drop 1 (py_split_sep CHR ''\<newline>'' s))"
  shows "\<exists>w'. corpus_init e path pool pl w = Some (Inl ValueError, w')"
  using assms tsv_loop_malformed [OF assms(5)]
  by (simp add: corpus_init_def corpus_result_def split: prod.splits)

theorem tsv_ingest_malformed_aborts_witness:
  "''/bad.tsv'' \<noteq> [] \<and> env_isfile ex_env ''/bad.tsv'' \<and> py_in ''.tsv'' ''/bad.tsv'' \<and>
   env_read ex_env ''/bad.tsv'' = Some bad_tsv \<and> list_ex tsv_bad (drop 1 (py_split_sep CHR ''\<newline>'' bad_tsv)) \<and>
   (\<exists>w'. corpus_init ex_env ''/bad.tsv'' True [] empty_world = Some (Inl ValueError, w'))"
proof -
  have h: "env_isfile ex_env ''/bad.tsv''" "py_in ''.tsv'' ''/bad.tsv''" "env_read ex_env ''/bad.tsv'' = Some bad_tsv"
    "list_ex tsv_bad (drop 1 (py_split_sep CHR ''\<newline>'' bad_tsv))"
    by code_simp+
  show ?thesis using tsv_ingest_malformed_aborts [OF _ h, of True "[]" empty_world] h by simp
qed

text \<open>
  C8: A TSV file whose lines after the header are all empty or have three fields gives a
  corpus whose keys are the ids of the non-empty lines in the order of first occurrence
  (a repeated id keeps its place; the empty lines, such as the one after the final newline,
  raise in \<open>add\<close> and are skipped).
\<close>

theorem tsv_ingest_ids:
  assumes "path \<noteq> []" "env_isfile e path" "py_in ''.tsv'' path" "env_read e path = Some s"
    "\<not> list_ex tsv_bad (drop 1 (py_split_sep CHR ''\<newline>'' s))"
  shows "\<exists>w' ds. corpus_init e path pool pl w = Some (Inr (next_corpus w), w') \<and>
           corpora w' (next_corpus w) = Some ds \<and>
           map fst ds = rev (remdups (rev (map (\<lambda>l. hd (py_split_sep (CHR 0x09) l))
                                        (filter (\<lambda>l. l \<noteq> []) (drop 1 (py_split_sep CHR ''\<newline>'' s))))))"
proof -
  obtain c w1 where n: "corpus_new w = (c, w1)" by fastforce
  then have c: "c = next_corpus w" "corpora w1 c = Some []" by (auto simp: corpus_new_def)
  from tsv_loop_keys [OF c(2) assms(5), of e] fold_add_key [of "[]"] assms(1-4) n c(1)
  show ?thesis by (auto simp: corpus_init_def corpus_result_def)
qed

theorem tsv_ingest_ids_witness:
  "''/c.tsv'' \<noteq> [] \<and> env_isfile ex_env ''/c.tsv'' \<and> py_in ''.tsv'' ''/c.tsv'' \<and>
   env_read ex_env ''/c.tsv'' = Some good_tsv \<and> \<not> list_ex tsv_bad (drop 1 (py_split_sep CHR ''\<newline>'' good_tsv)) \<and>
   (\<exists>w' ds. corpus_init ex_env ''/c.tsv'' True [] empty_world = Some (Inr 0, w') \<and>
            corpora w' 0 = Some ds \<and> map fst ds = [''p1'', ''p2''])"
proof -
  have h: "env_isfile ex_env ''/c.tsv''" "py_in ''.tsv'' ''/c.tsv''" "env_read ex_env ''/c.tsv'' = Some good_tsv"
    "\<not> list_ex tsv_bad (drop 1 (py_split_sep CHR ''\<newline>'' good_tsv))"
    by code_simp+
  have k: "rev (remdups (rev (map (\<lambda>l. hd (py_split_sep (CHR 0x09) l))
             (filter (\<lambda>l. l \<noteq> []) (drop 1 (py_split_sep CHR ''\<newline>'' good_tsv)))))) = [''p1'', ''p2'']"
    by code_simp
  show ?thesis using tsv_ingest_ids [OF _ h, of True "[]" empty_world] h k by (simp add: empty_world_def)
qed

text \<open>
  C5: In the directory mode a document whose construction raises (other than by
  \<open>sys.exit\<close>) is not dropped: the exception ends the constructor of the corpus, after the
  documents before it have been added; the new corpus then holds exactly their ids,
  each once, in order of first occurrence.
\<close>

theorem dir_error_aborts:
  assumes "path \<noteq> []" "\<not> env_isfile e path"
    "\<forall>p\<in>set pre. p \<noteq> [] \<and> (\<exists>d. new_document e p [] [] = Inr d)"
    "new_document e f [] [] = Inl err" "\<forall>n. err \<noteq> SystemExit n"
  shows "\<exists>w' ds. corpus_init e path True (pre @ f # post) w = Some (Inl err, w') \<and>
           corpora w' (next_corpus w) = Some ds \<and> map fst ds = rev (remdups (rev (map (file_id e) pre)))"
proof -
  obtain c w1 where n: "corpus_new w = (c, w1)" by fastforce
  then have c: "c = next_corpus w" "corpora w1 c = Some []" by (auto simp: corpus_new_def)
  obtain w'' ds'' where w'': "corpora w'' c = Some ds''" "map fst ds'' = fold add_key (map (file_id e) pre) []"
    "dir_loop e c (pre @ f # post) w1 = dir_loop e c (f # post) w''"
    using dir_loop_prefix_keys [OF assms(3) c(2), of "f # post"] unfolding list.map(1) by blast
  have "corpus_init e path True (pre @ f # post) w = Some (Inl err, w'')"
    using assms n w''(3) by (cases err) (auto simp: corpus_init_def corpus_result_def)
  with w''(1,2) c(1) fold_add_key [of "[]"] show ?thesis by auto
qed

theorem dir_error_aborts_witness:
  "''/d'' \<noteq> [] \<and> \<not> env_isfile ex_env ''/d'' \<and>
   ''/d/b12345678.txt'' \<noteq> [] \<and> (\<exists>d. new_document ex_env ''/d/b12345678.txt'' [] [] = Inr d) \<and>
   new_document ex_env ''/d/a12345678.txt'' [] [] = Inl OSError \<and> (\<forall>n. OSError \<noteq> SystemExit n) \<and>
   (\<exists>w' ds. corpus_init ex_env ''/d'' True [''/d/b12345678.txt'', ''/d/a12345678.txt''] empty_world
          = Some (Inl OSError, w') \<and> corpora w' 0 = Some ds \<and> map fst ds = [''b12345678''])"
proof -
  have h: "\<not> env_isfile ex_env ''/d''" "new_document ex_env ''/d/a12345678.txt'' [] [] = Inl OSError"
    "\<not> isl (new_document ex_env ''/d/b12345678.txt'' [] [])"
    "file_id ex_env ''/d/b12345678.txt'' = ''b12345678''"
    by code_simp+
  have p: "\<forall>p\<in>set [''/d/b12345678.txt'']. p \<noteq> [] \<and> (\<exists>d. new_document ex_env p [] [] = Inr d)"
    using new_document_ok [OF h(3)] by simp
  show ?thesis
    using dir_error_aborts [OF _ h(1) p h(2), of "[]" empty_world] h p by (simp add: empty_world_def)
qed

text \<open>
  C21: In the directory mode a file whose constructor calls \<open>sys.exit\<close> (a JSON document
  that does not load) makes \<open>Corpus(path)\<close> never return.
\<close>

theorem dir_exit_never_returns:
  assumes "path \<noteq> []" "\<not> env_isfile e path"
    "\<forall>p\<in>set pre. p \<noteq> [] \<and> (\<exists>d. new_document e p [] [] = Inr d)"
    "new_document e f [] [] = Inl (SystemExit n)"
  shows "corpus_init e path True (pre @ f # post) w = None"
proof -
  obtain c w1 where n: "corpus_new w = (c, w1)" by fastforce
  then have c: "corpora w1 c \<noteq> None" by (auto simp: corpus_new_def)
  obtain w'' where "dir_loop e c (pre @ f # post) w1 = dir_loop e c (f # post) w''"
    using dir_loop_prefix [OF assms(3) c] by blast
  with assms n show ?thesis by (auto simp: corpus_init_def)
qed

theorem dir_exit_never_returns_witness:
  "''/d'' \<noteq> [] \<and> \<not> env_isfile ex_env ''/d'' \<and>
   ''/d/b12345678.txt'' \<noteq> [] \<and> (\<exists>d. new_document ex_env ''/d/b12345678.txt'' [] [] = Inr d) \<and>
   new_document ex_env ''/data/json/12345678.txt'' [] [] = Inl (SystemExit 1) \<and>
   corpus_init ex_env ''/d'' True [''/d/b12345678.txt'', ''/data/json/12345678.txt''] empty_world = None"
proof -
  have h: "\<not> env_isfile ex_env ''/d''" "new_document ex_env ''/data/json/12345678.txt'' [] [] = Inl (SystemExit 1)"
    "\<not> isl (new_document ex_env ''/d/b12345678.txt'' [] [])"
    by code_simp+
  have p: "\<forall>p\<in>set [''/d/b12345678.txt'']. p \<noteq> [] \<and> (\<exists>d. new_document ex_env p [] [] = Inr d)"
    using new_document_ok [OF h(3)] by simp
  show ?thesis
    using dir_exit_never_returns [OF _ h(1) p h(2), of "[]" empty_world] h(1,2) p by simp
qed

text \<open>
  C12: Conversely, \<open>Corpus(...)\<close> returns in every mode when every JSON file it may
  load can be read and parsed: only the \<open>sys.exit\<close> of such a file stops it.
\<close>

theorem corpus_init_returns:
  assumes "\<forall>f. f \<noteq> [] \<and> infer_form f [] = ''json'' \<longrightarrow> (\<exists>s. env_read e f = Some s \<and> env_parse e s \<noteq> None)"
  shows "corpus_init e path pool pl w \<noteq> None"
proof -
  have "dir_loop e c ns w1 = None \<longleftrightarrow> False" for c ns w1
    using dir_loop_returns new_document_no_exit [OF assms] by blast
  then show ?thesis by (simp add: corpus_init_def del: not_None_eq split: prod.splits sum.splits)
qed

theorem corpus_init_returns_witness:
  "corpus_init calm_env ''/d'' True [] empty_world \<noteq> None \<and>
   docnames calm_env ''/d'' = Inr [''/d/json/12345678.txt'']"
proof -
  have "\<forall>f. f \<noteq> [] \<and> infer_form f [] = ''json'' \<longrightarrow>
          (\<exists>s. env_read calm_env f = Some s \<and> env_parse calm_env s \<noteq> None)"
    by (simp add: calm_env_def)
  moreover have "docnames calm_env ''/d'' = Inr [''/d/json/12345678.txt'']"
    by code_simp
  ultimately show ?thesis using corpus_init_returns [of calm_env] by simp
qed



text \<open>
  C26: Without a pool on a machine with one processor the directory mode raises
  \<open>ValueError\<close>: \<open>mp.Pool(int(.5 * 1))\<close> asks for zero processes.
\<close>

theorem dir_one_cpu_fails:
  "path \<noteq> [] \<Longrightarrow> \<not> env_isfile e path \<Longrightarrow> env_cpus e \<le> 1 \<Longrightarrow>
     corpus_init e path False pl w = Some (Inl ValueError, snd (corpus_new w))"
  by (auto simp: corpus_init_def split: prod.splits)

theorem dir_one_cpu_fails_witness:
  "''/d'' \<noteq> [] \<and> \<not> env_isfile ex_env ''/d'' \<and> env_cpus ex_env \<le> 1 \<and>
   corpus_init ex_env ''/d'' False [] empty_world = Some (Inl ValueError, snd (corpus_new empty_world))"
proof -
  have h: "\<not> env_isfile ex_env ''/d''" "env_cpus ex_env \<le> 1" by code_simp+
  show ?thesis using dir_one_cpu_fails [OF _ h, of "[]" empty_world] h by simp
qed

text \<open>
  C25: Reading a BioC file whose \<open>documents\<close> list is not empty raises
  \<open>AttributeError\<close>: \<open>Document.read_bioc_json\<close> does not exist.
\<close>

theorem bioc_documents_fail:
  assumes "path \<noteq> []" "env_isfile e path" "\<not> py_in ''.tsv'' path" "env_read e path = Some s"
    "env_parse e s = Some (JObj kvs)" "jget kvs ''documents'' = Some (JArr (v # vs))"
  shows "\<exists>w'. corpus_init e path pool pl w = Some (Inl AttributeError, w')"
  using assms
  by (simp add: corpus_init_def corpus_result_def bioc_ingest_def py_iter_count_def new_document_def
      doc_init_blank split: prod.splits)

theorem bioc_documents_fail_witness:
  "''/bioc.json'' \<noteq> [] \<and> env_isfile ex_env ''/bioc.json'' \<and> \<not> py_in ''.tsv'' ''/bioc.json'' \<and>
   env_read ex_env ''/bioc.json'' = Some ''BIOC'' \<and>
   env_parse ex_env ''BIOC'' = Some (JObj [(''documents'', JArr [JObj []])]) \<and>
   jget [(''documents'', JArr [JObj []])] ''documents'' = Some (JArr [JObj []]) \<and>
   (\<exists>w'. corpus_init ex_env ''/bioc.json'' False [] empty_world = Some (Inl AttributeError, w'))"
proof -
  have h: "env_isfile ex_env ''/bioc.json''" "\<not> py_in ''.tsv'' ''/bioc.json''"
    "env_read ex_env ''/bioc.json'' = Some ''BIOC''"
    "env_parse ex_env ''BIOC'' = Some (JObj [(''documents'', JArr [JObj []])])"
    "jget [(''documents'', JArr [JObj []])] ''documents'' = Some (JArr [JObj []])"
    by code_simp+
  show ?thesis using bioc_documents_fail [OF _ h, of False "[]" empty_world] h by simp
qed

end
