(* ===== verification/Export.thy ===== *)
theory Export
  imports Corpus
begin

text \<open>
  \<open>Corpus.export(dest, abstract=False, form='json')\<close> (src/lib/techknacq/corpus.py,
  lines 88--117). The file system is a map from paths to contents (\<open>files\<close>); a
  predicate \<open>opens\<close> says which paths \<open>io.open(path, 'w')\<close> can open. The contents
  of a file are the JSON value \<open>Document.json\<close> passes to \<open>json.dumps\<close> (the printer
  itself is not modelled; \<open>JsonDump j\<close> is its output followed by a newline) or a
  string. Opening a file for writing creates it empty before the document is rendered,
  so a rendering that raises leaves an empty file behind. The stop lexicon
  \<open>StopLexicon()\<close> built for the \<open>bigrams\<close> form is the parameter \<open>stop\<close>.
\<close>

datatype fcontent = JsonDump jval | Text string

type_synonym files = "string \<Rightarrow> fcontent option"

text \<open>
  \<open>os.path.join(a, b)\<close> of posixpath: an absolute \<open>b\<close> replaces \<open>a\<close>; otherwise a
  separator is inserted unless \<open>a\<close> is empty or already ends with one.
\<close>

definition path_join :: "string \<Rightarrow> string \<Rightarrow> string" where
  "path_join a b =
     (if take 1 b = ''/'' then b
      else if a = [] \<or> last a = CHR ''/'' then a @ b
      else a @ ''/'' @ b)"

definition export_forms :: "string list" where
  "export_forms = [''json'', ''bioc'', ''text'', ''bigrams'', ''tsv'']"

definition form_ext :: "string \<Rightarrow> string" where
  "form_ext form =
     (if form = ''json'' then ''.json''
      else if form = ''bioc'' then ''.xml''
      else if form = ''tsv'' then ''.tsv''
      else ''.txt'')"

text \<open>
  What \<open>out.write(... + '\n')\<close> writes for one document. \<open>Document\<close> has no method
  \<open>bioc\<close>, so that form raises \<open>AttributeError\<close>; \<open>text\<close> and \<open>tsv\<close> both write
  \<open>d.text(abstract)\<close>.
\<close>

definition export_body :: "world \<Rightarrow> dref \<Rightarrow> string \<Rightarrow> bool \<Rightarrow> stoplist \<Rightarrow> fcontent result" where
  "export_body w r form ab stop =
     (case heap w r of
        None \<Rightarrow> Inl DanglingRef
      | Some d \<Rightarrow>
          if form = ''json'' then map_sum id JsonDump (doc_json ab d)
          else if form = ''bioc'' then Inl AttributeError
          else if form = ''bigrams'' then map_sum id (\<lambda>s. Text (s @ ''\<newline>'')) (bigrams_at w r ab stop)
          else map_sum id (\<lambda>s. Text (s @ ''\<newline>'')) (text_at w r ab))"

text \<open>
  \<open>for d in self: with io.open(os.path.join(dest, d.id + ext), 'w') as out:
  out.write(...)\<close>: the id is read, the file is opened (created empty), then the
  document is rendered and written; the first exception ends the loop.
\<close>

fun export_loop ::
  "(string \<Rightarrow> bool) \<Rightarrow> world \<Rightarrow> string \<Rightarrow> bool \<Rightarrow> string \<Rightarrow> stoplist \<Rightarrow> dref list \<Rightarrow> files
     \<Rightarrow> unit result \<times> files" where
  "export_loop opens w dest ab form stop [] fs = (Inr (), fs)"
| "export_loop opens w dest ab form stop (r # rs) fs =
     (case heap w r of
        None \<Rightarrow> (Inl DanglingRef, fs)
      | Some d \<Rightarrow>
          (case doc_id d of
             None \<Rightarrow> (Inl AttributeError, fs)
           | Some i \<Rightarrow>
               (let p = path_join dest (i @ form_ext form)
                in if \<not> opens p then (Inl OSError, fs)
                   else (let fs1 = fs(p \<mapsto> Text [])
                         in case export_body w r form ab stop of
                              Inl e \<Rightarrow> (Inl e, fs1)
                            | Inr b \<Rightarrow> export_loop opens w dest ab form stop rs (fs1(p \<mapsto> b))))))"

text \<open>An unknown form exits the process before anything is written.\<close>

definition corpus_export ::
  "(string \<Rightarrow> bool) \<Rightarrow> cref \<Rightarrow> string \<Rightarrow> bool \<Rightarrow> string \<Rightarrow> stoplist \<Rightarrow> world \<Rightarrow> files
     \<Rightarrow> unit result \<times> files" where
  "corpus_export opens c dest ab form stop w fs =
     (if form \<notin> set export_forms then (Inl (SystemExit 1), fs)
      else case corpus_iter c w of
             Inl e \<Rightarrow> (Inl e, fs)
           | Inr rs \<Rightarrow> export_loop opens w dest ab form stop rs fs)"

section \<open>Example worlds\<close>

text \<open>A corpus holding ids \<open>a\<close> and \<open>b\<close>, and one holding \<open>a\<close> and \<open>/x/a\<close>.\<close>

definition w_exp :: world where
  "w_exp = fold step [NewCorpus, NewDoc (x_doc\<lparr>doc_id := Some ''a''\<rparr>), NewDoc (x_doc\<lparr>doc_id := Some ''b''\<rparr>),
                      Add 0 0, Add 0 1] empty_world"

definition w_clash :: world where
  "w_clash = fold step [NewCorpus, NewDoc (x_doc\<lparr>doc_id := Some ''a''\<rparr>),
                        NewDoc (x_doc\<lparr>doc_id := Some ''/x/a'', title := ''Second''\<rparr>), Add 0 0, Add 0 1] empty_world"

section \<open>Lemmas\<close>

lemma map_of_rev_distinct: "distinct (map fst xs) \<Longrightarrow> map_of (rev xs) = map_of xs"
proof (induction xs)
  case (Cons x xs)
  obtain a b where x: "x = (a, b)" by fastforce
  have "a \<notin> dom (map_of xs)" using Cons.prems x by (simp add: dom_map_of_conv_image_fst)
  then have "map_of xs ++ [a \<mapsto> b] = [a \<mapsto> b] ++ map_of xs" by (simp add: map_add_comm)
  with Cons x show ?case by (simp add: map_of_append)
qed simp

lemma path_join_inj:
  "take 1 a \<noteq> ''/'' \<Longrightarrow> take 1 b \<noteq> ''/'' \<Longrightarrow> path_join d a = path_join d b \<Longrightarrow> a = b"
  by (auto simp: path_join_def split: if_splits)

text \<open>A prefix of documents that all render writes their files, then the loop goes on.\<close>

lemma export_loop_prefix:
  assumes "\<forall>(k, r) \<in> set ds. (\<exists>d. heap w r = Some d \<and> doc_id d = Some k) \<and>
             opens (path_join dest (k @ form_ext form)) \<and> \<not> isl (export_body w r form ab stop)"
  shows "export_loop opens w dest ab form stop (map snd ds @ rest) fs =
           export_loop opens w dest ab form stop rest
             (fs ++ map_of (rev (map (\<lambda>(k, r). (path_join dest (k @ form_ext form),
                                                 projr (export_body w r form ab stop))) ds)))"
  using assms
proof (induction ds arbitrary: fs)
  case (Cons x ds)
  obtain k r where x: "x = (k, r)" by fastforce
  obtain d where d: "heap w r = Some d" "doc_id d = Some k" using Cons.prems x by auto
  obtain b where b: "export_body w r form ab stop = Inr b"
    using Cons.prems x by (cases "export_body w r form ab stop") auto
  show ?case using Cons x d b by (simp add: Let_def map_of_append map_add_upd [symmetric])
qed simp

lemma export_loop_all:
  assumes "\<forall>(k, r) \<in> set ds. (\<exists>d. heap w r = Some d \<and> doc_id d = Some k) \<and>
             opens (path_join dest (k @ form_ext form)) \<and> \<not> isl (export_body w r form ab stop)"
  shows "export_loop opens w dest ab form stop (map snd ds) fs =
           (Inr (), fs ++ map_of (rev (map (\<lambda>(k, r). (path_join dest (k @ form_ext form),
                                                      projr (export_body w r form ab stop))) ds)))"
  using export_loop_prefix [OF assms, of "[]"] by simp

lemma world_inv_held:
  "world_inv w \<Longrightarrow> corpora w c = Some ds \<Longrightarrow>
     distinct (map fst ds) \<and> (\<forall>(k, r) \<in> set ds. \<exists>d. heap w r = Some d \<and> doc_id d = Some k \<and> corpus d = Some c)"
  by (auto simp: world_inv_def holds_ok_set)

text \<open>Relative ids give distinct paths: \<open>path_join\<close> is injective on them.\<close>

lemma export_paths_distinct:
  assumes dist: "distinct (map fst ds)" and rel: "\<forall>(k, r) \<in> set ds. take 1 k \<noteq> ''/''"
  shows "distinct (map fst (map (\<lambda>(k, r). (path_join dest (k @ form_ext form), f r)) ds))"
proof -
  let ?P = "\<lambda>k. path_join dest (k @ form_ext form)"
  have inj: "inj_on ?P (set (map fst ds))"
  proof (rule inj_onI)
    fix a b assume a: "a \<in> set (map fst ds)" and b: "b \<in> set (map fst ds)" and eq: "?P a = ?P b"
    have "take 1 a \<noteq> ''/''" "take 1 b \<noteq> ''/''" using a b rel by auto
    then have "take 1 (a @ form_ext form) \<noteq> ''/''" "take 1 (b @ form_ext form) \<noteq> ''/''"
      by (cases a; cases b; simp add: form_ext_def)+
    then show "a = b" using path_join_inj [OF _ _ eq] by simp
  qed
  have "map fst (map (\<lambda>(k, r). (?P k, f r)) ds) = map ?P (map fst ds)" by auto
  then show ?thesis using dist inj by (simp only: distinct_map)
qed

section \<open>Properties of export\<close>

text \<open>
  C14: Export writes one file per document and nothing else. For a corpus of a
  well-formed world whose ids are relative paths, when every file opens and every
  document renders, the files afterwards are the old ones updated with
  \<open><dest>/<id><ext>\<close> holding each document's rendering: distinct ids give distinct
  paths, so no document's file is overwritten by another's.
\<close>

theorem export_writes_each:
  assumes inv: "world_inv w" and c: "corpora w c = Some ds" and form: "form \<in> set export_forms"
    and rel: "\<forall>(k, r) \<in> set ds. take 1 k \<noteq> ''/''"
    and op: "\<forall>(k, r) \<in> set ds. opens (path_join dest (k @ form_ext form))"
    and ok: "\<forall>(k, r) \<in> set ds. \<not> isl (export_body w r form ab stop)"
  shows "corpus_export opens c dest ab form stop w fs =
           (Inr (), fs ++ map_of (map (\<lambda>(k, r). (path_join dest (k @ form_ext form),
                                                  projr (export_body w r form ab stop))) ds))"
proof -
  let ?L = "map (\<lambda>(k, r). (path_join dest (k @ form_ext form), projr (export_body w r form ab stop))) ds"
  have h: "distinct (map fst ds)" "\<forall>(k, r) \<in> set ds. \<exists>d. heap w r = Some d \<and> doc_id d = Some k"
    using world_inv_held [OF inv c] by fastforce+
  have "export_loop opens w dest ab form stop (map snd ds) fs = (Inr (), fs ++ map_of (rev ?L))"
    by (rule export_loop_all) (use h op ok in auto)
  also have "map_of (rev ?L) = map_of ?L"
    by (rule map_of_rev_distinct [OF export_paths_distinct [OF h(1) rel]])
  finally show ?thesis using form c by (simp add: corpus_export_def corpus_iter_def)
qed

theorem export_writes_each_witness:
  "world_inv w_exp \<and> corpora w_exp 0 = Some [(''a'', 0), (''b'', 1)] \<and> ''json'' \<in> set export_forms \<and>
   take 1 ''a'' \<noteq> ''/'' \<and> take 1 ''b'' \<noteq> ''/'' \<and>
   \<not> isl (export_body w_exp 0 ''json'' False (\<lambda>_. False)) \<and>
   \<not> isl (export_body w_exp 1 ''json'' False (\<lambda>_. False)) \<and>
   corpus_export (\<lambda>_. True) 0 ''out'' False ''json'' (\<lambda>_. False) w_exp Map.empty =
     (Inr (), Map.empty ++ map_of (map (\<lambda>(k, r). (path_join ''out'' (k @ form_ext ''json''),
                                          projr (export_body w_exp r ''json'' False (\<lambda>_. False))))
                                 [(''a'', 0), (''b'', 1)]))"
proof -
  have c: "corpora w_exp 0 = Some [(''a'', 0), (''b'', 1)]"
    by (simp add: w_exp_def empty_world_def corpus_new_def alloc_doc_def corpus_add_def x_doc_def)
  have inv: "world_inv w_exp"
    by (auto simp: w_exp_def empty_world_def corpus_new_def alloc_doc_def corpus_add_def x_doc_def
        world_inv_def holds_ok_def)
  have f: "''json'' \<in> set export_forms" by (simp add: export_forms_def)
  have r: "\<forall>(k, r) \<in> set [(''a'', 0::nat), (''b'', 1)]. take 1 k \<noteq> ''/''" by simp
  have o: "\<forall>(k, r) \<in> set [(''a'', 0::nat), (''b'', 1)]. (\<lambda>_. True) (path_join ''out'' (k @ form_ext ''json''))"
    by simp
  have ok: "\<forall>(k, r) \<in> set [(''a'', 0), (''b'', 1)]. \<not> isl (export_body w_exp r ''json'' False (\<lambda>_. False))"
    by (simp add: export_body_def w_exp_def empty_world_def corpus_new_def alloc_doc_def corpus_add_def
        x_doc_def doc_json_def)
  show ?thesis using export_writes_each [OF inv c f r o ok] inv c f r o ok by simp
qed

text \<open>
  C19: A document whose rendering raises (the \<open>bioc\<close> form always does:
  \<open>Document.bioc\<close> does not exist) stops the export with that exception and leaves its
  file created and empty, wherever it stands in the dict: the files of the documents
  before it hold their renderings, and nothing after it is written.
\<close>

theorem export_failure_leaves_empty_file:
  assumes "form \<in> set export_forms" "corpora w c = Some (pre @ (k, r) # post)"
    "\<forall>(k', r') \<in> set pre. (\<exists>d'. heap w r' = Some d' \<and> doc_id d' = Some k') \<and>
       opens (path_join dest (k' @ form_ext form)) \<and> \<not> isl (export_body w r' form ab stop)"
    "heap w r = Some d" "doc_id d = Some k"
    "opens (path_join dest (k @ form_ext form))" "export_body w r form ab stop = Inl e"
  shows "corpus_export opens c dest ab form stop w fs =
           (Inl e, (fs ++ map_of (rev (map (\<lambda>(k', r'). (path_join dest (k' @ form_ext form),
                                                       projr (export_body w r' form ab stop))) pre)))
                     (path_join dest (k @ form_ext form) \<mapsto> Text []))"
  using assms export_loop_prefix [OF assms(3), of "r # map snd post" fs]
  by (simp add: corpus_export_def corpus_iter_def Let_def)

theorem export_failure_leaves_empty_file_witness:
  "''bioc'' \<in> set export_forms \<and> corpora w_exp 0 = Some ((''a'', 0) # [(''b'', 1)]) \<and>
   heap w_exp 0 = Some (x_doc\<lparr>doc_id := Some ''a'', corpus := Some 0\<rparr>) \<and>
   doc_id (x_doc\<lparr>doc_id := Some ''a'', corpus := Some 0\<rparr>) = Some ''a'' \<and>
   (\<lambda>_. True) (path_join ''out'' (''a'' @ form_ext ''bioc'')) \<and>
   export_body w_exp 0 ''bioc'' False (\<lambda>_. False) = Inl AttributeError \<and>
   corpus_export (\<lambda>_. True) 0 ''out'' False ''bioc'' (\<lambda>_. False) w_exp Map.empty
     = (Inl AttributeError, Map.empty(''out/a.xml'' \<mapsto> Text []))"
proof -
  have f: "''bioc'' \<in> set export_forms" by (simp add: export_forms_def)
  have c: "corpora w_exp 0 = Some ((''a'', 0) # [(''b'', 1)])"
    and h: "heap w_exp 0 = Some (x_doc\<lparr>doc_id := Some ''a'', corpus := Some 0\<rparr>)"
    by (simp_all add: w_exp_def empty_world_def corpus_new_def alloc_doc_def corpus_add_def x_doc_def)
  have k: "doc_id (x_doc\<lparr>doc_id := Some ''a'', corpus := Some 0\<rparr>) = Some ''a''" by simp
  have o: "(\<lambda>_. True) (path_join ''out'' (''a'' @ form_ext ''bioc''))" by simp
  have b: "export_body w_exp 0 ''bioc'' False (\<lambda>_. False) = Inl AttributeError"
    using h by (simp add: export_body_def)
  have p: "path_join ''out'' (''a'' @ form_ext ''bioc'') = ''out/a.xml''"
    by (simp add: path_join_def form_ext_def)
  have c': "corpora w_exp 0 = Some ([] @ (''a'', 0) # [(''b'', 1)])" using c by simp
  have "corpus_export (\<lambda>_. True) 0 ''out'' False ''bioc'' (\<lambda>_. False) w_exp Map.empty
          = (Inl AttributeError, Map.empty(''out/a.xml'' \<mapsto> Text []))"
    using export_failure_leaves_empty_file [OF f c' _ h k o b, where fs = Map.empty] p by simp
  then show ?thesis using f c h k b by simp
qed

text \<open>
  C18: \<open>os.path.join\<close> lets an absolute id escape the destination, and two documents
  can then share a file. For any corpus holding a relative id \<open>k1\<close> and then the absolute
  id \<open>k2 = os.path.join(dest, k1)\<close>, export writes one file, the one for \<open>k1\<close>, and
  leaves the second document's rendering in it: the first document's output is lost.
\<close>

theorem export_paths_collide:
  assumes inv: "world_inv w" and c: "corpora w c = Some [(k1, r1), (k2, r2)]"
    and form: "form \<in> set export_forms"
    and rel: "take 1 k1 \<noteq> ''/''" and abs: "take 1 k2 = ''/''" "k2 = path_join dest k1"
    and op: "opens (path_join dest (k1 @ form_ext form))"
    and b: "export_body w r1 form ab stop = Inr b1" "export_body w r2 form ab stop = Inr b2"
  shows "corpus_export opens c dest ab form stop w fs = (Inr (), fs(path_join dest (k1 @ form_ext form) \<mapsto> b2))"
proof -
  have eq: "path_join dest (k2 @ form_ext form) = path_join dest (k1 @ form_ext form)"
    using rel abs by (cases k1) (auto simp: path_join_def form_ext_def)
  obtain d1 d2 where "heap w r1 = Some d1" "doc_id d1 = Some k1" "heap w r2 = Some d2" "doc_id d2 = Some k2"
    using world_inv_held [OF inv c] by auto
  with eq op b form c show ?thesis by (simp add: corpus_export_def corpus_iter_def Let_def)
qed

theorem export_paths_collide_witness:
  "world_inv w_clash \<and> corpora w_clash 0 = Some [(''a'', 0), (''/x/a'', 1)] \<and>
   ''/x/a'' = path_join ''/x'' ''a'' \<and>
   corpus_export (\<lambda>_. True) 0 ''/x'' False ''json'' (\<lambda>_. False) w_clash Map.empty
     = (Inr (), [''/x/a.json'' \<mapsto> projr (export_body w_clash 1 ''json'' False (\<lambda>_. False))])"
proof -
  have c: "corpora w_clash 0 = Some [(''a'', 0), (''/x/a'', 1)]"
    by (simp add: w_clash_def empty_world_def corpus_new_def alloc_doc_def corpus_add_def x_doc_def)
  have inv: "world_inv w_clash"
    by (auto simp: w_clash_def empty_world_def corpus_new_def alloc_doc_def corpus_add_def x_doc_def
        world_inv_def holds_ok_def)
  have f: "''json'' \<in> set export_forms" by (simp add: export_forms_def)
  have a: "take 1 ''a'' \<noteq> ''/''" "take 1 ''/x/a'' = ''/''" "''/x/a'' = path_join ''/x'' ''a''"
    by (simp_all add: path_join_def)
  have o: "(\<lambda>_. True) (path_join ''/x'' (''a'' @ form_ext ''json''))" by simp
  obtain b1 b2 where b: "export_body w_clash 0 ''json'' False (\<lambda>_. False) = Inr b1"
    "export_body w_clash 1 ''json'' False (\<lambda>_. False) = Inr b2"
    by (simp add: export_body_def w_clash_def empty_world_def corpus_new_def alloc_doc_def
        corpus_add_def x_doc_def doc_json_def Let_def)
  have p: "path_join ''/x'' (''a'' @ form_ext ''json'') = ''/x/a.json''"
    by (simp add: path_join_def form_ext_def)
  show ?thesis
    using export_paths_collide [OF inv c f a o b, of Map.empty] inv c a b p by simp
qed

text \<open>
  An unknown export form exits the process with status 1 before any file is
  written.
\<close>

theorem export_unknown_form:
  "form \<notin> set export_forms \<Longrightarrow> corpus_export opens c dest ab form stop w fs = (Inl (SystemExit 1), fs)"
  by (simp add: corpus_export_def)

theorem export_unknown_form_witness:
  "''xml'' \<notin> set export_forms \<and>
   corpus_export (\<lambda>_. True) 0 ''out'' False ''xml'' (\<lambda>_. False) w_exp Map.empty = (Inl (SystemExit 1), Map.empty)"
proof -
  have h: "''xml'' \<notin> set export_forms" by (simp add: export_forms_def)
  show ?thesis using export_unknown_form [OF h] h by simp
qed

end
