(* ===== verification/StrUtil.thy ===== *)
theory StrUtil
  imports Prelude
begin

text \<open>
  The two string helpers at the end of src/lib/techknacq/corpus.py:
  \<open>filter_non_printable\<close> (lines 320--321) and \<open>strtr\<close> (lines 329--332). Neither is
  called by the module (the one call of \<open>filter_non_printable\<close>, in \<open>Document.text\<close>,
  is commented out), but both are part of its interface. A dict is an association
  list with distinct keys in insertion order.
\<close>

section \<open>\<open>filter_non_printable\<close>\<close>

definition printable :: "char \<Rightarrow> bool" where
  "printable c = ((31::nat) < of_char c \<or> of_char c = (9::nat) \<or> c = CHR ''\<newline>'')"

definition filter_non_printable :: "string \<Rightarrow> string" where
  "filter_non_printable s = filter printable s"

section \<open>\<open>strtr\<close>\<close>

text \<open>
  \<open>re.sub('(k1|k2|...)', lambda m: dic[m.group()], text)\<close> with the escaped keys as
  alternatives in dict order. At each position the regular expression takes the first
  alternative that matches there (not the longest), and the scan resumes after the
  match. Python 3.7 and later also allow an empty match right after a non-empty one,
  but after an empty match the next match at the same position must be non-empty; the
  flag \<open>ma\<close> (\<open>must_advance\<close> in the regular-expression engine) records this.
  \<open>'|'.join\<close> of no keys is the empty string, so an empty dict gives the pattern
  \<open>'()'\<close>, which matches the empty string.
\<close>

function strtr_scan :: "(string \<times> string) list \<Rightarrow> string list \<Rightarrow> bool \<Rightarrow> string \<Rightarrow> string result" where
  "strtr_scan dic alts ma t =
     (case find (\<lambda>k. prefix k t \<and> (\<not> ma \<or> k \<noteq> [])) alts of
        Some k \<Rightarrow>
          (case map_of dic k of
             None \<Rightarrow> Inl KeyError
           | Some v \<Rightarrow>
               sbind (if k = [] then strtr_scan dic alts True t else strtr_scan dic alts False (drop (length k) t))
                 (\<lambda>r. Inr (v @ r)))
      | None \<Rightarrow>
          (case t of
             [] \<Rightarrow> Inr []
           | c # t' \<Rightarrow> sbind (strtr_scan dic alts False t') (\<lambda>r. Inr (c # r))))"
  by pat_completeness auto

termination strtr_scan
proof (relation "measure (\<lambda>(dic, alts, ma, t). 2 * length t + (if ma then 0 else 1))")
  fix dic :: "(string \<times> string) list" and alts ma t k v
  assume f: "find (\<lambda>k. prefix k t \<and> (\<not> ma \<or> k \<noteq> [])) alts = Some k"
  then have p: "prefix k t \<and> (\<not> ma \<or> k \<noteq> [])" by (auto simp: find_Some_iff)
  show "k = [] \<Longrightarrow> ((dic, alts, True, t), dic, alts, ma, t)
          \<in> measure (\<lambda>(dic, alts, ma, t). 2 * length t + (if ma then 0 else 1))"
    using p by simp
  show "k \<noteq> [] \<Longrightarrow> ((dic, alts, False, drop (length k) t), dic, alts, ma, t)
          \<in> measure (\<lambda>(dic, alts, ma, t). 2 * length t + (if ma then 0 else 1))"
    using p prefix_length_le [of k t] by (cases k) auto
qed auto

definition strtr :: "string \<Rightarrow> (string \<times> string) list \<Rightarrow> string result" where
  "strtr text dic = strtr_scan dic (if dic = [] then [[]] else map fst dic) False text"

section \<open>Lemmas\<close>

declare strtr_scan.simps [simp del]

lemma strtr_scan_total:
  "set alts \<subseteq> fst ` set dic \<Longrightarrow> \<exists>r. strtr_scan dic alts ma t = Inr r"
proof (induction dic alts ma t rule: strtr_scan.induct)
  case (1 dic alts ma t)
  show ?case
  proof (cases "find (\<lambda>k. prefix k t \<and> (\<not> ma \<or> k \<noteq> [])) alts")
    case None
    with 1 show ?thesis by (cases t) (auto simp: strtr_scan.simps [of dic alts ma] sbind_eq_Inr)
  next
    case (Some k)
    then have "k \<in> set alts" by (metis find_Some_iff nth_mem)
    then obtain v where v: "map_of dic k = Some v" using 1(4) by (auto dest!: weak_map_of_SomeI)
    show ?thesis
      using 1 Some v by (auto simp: strtr_scan.simps [of dic alts ma] sbind_eq_Inr)
  qed
qed

section \<open>Properties of \<open>strtr\<close>\<close>

text \<open>
  C31: \<open>strtr\<close> with an empty dict raises \<open>KeyError\<close> on every text: the pattern
  \<open>'()'\<close> matches the empty string and \<open>dic['']\<close> does not exist.
\<close>

theorem strtr_empty_dict_fails: "strtr text [] = Inl KeyError"
  by (simp add: strtr_def strtr_scan.simps [of "[]"])

text \<open>
  C32: With a non-empty dict \<open>strtr\<close> never raises: every match is one of the keys, so
  the lookup \<open>dic[m.group()]\<close> succeeds (the scan also ends, by its termination proof).
\<close>

theorem strtr_total: "dic \<noteq> [] \<Longrightarrow> \<exists>r. strtr text dic = Inr r"
  unfolding strtr_def by (rule strtr_scan_total) simp

theorem strtr_total_witness: "[(''a'', ''b'')] \<noteq> [] \<and> (\<exists>r. strtr ''cat'' [(''a'', ''b'')] = Inr r)"
  using strtr_total [of "[(''a'', ''b'')]" "''cat''"] by simp

text \<open>
  C33: \<open>strtr\<close> replaces at the start of the text the first key in dict order that is a
  prefix there, not the longest, and goes on after it with the rest of the text, never
  rescanning the replacement; this holds for every text and every dict of non-empty
  keys.
\<close>

theorem strtr_first_key_wins:
  assumes ne: "\<forall>k' \<in> set (map fst dic). k' \<noteq> []"
    and f: "find (\<lambda>k'. prefix k' t) (map fst dic) = Some k" and v: "map_of dic k = Some v"
  shows "strtr t dic = sbind (strtr (drop (length k) t) dic) (\<lambda>r. Inr (v @ r))"
proof -
  have k: "k \<in> set (map fst dic)" using f by (metis find_Some_iff nth_mem)
  then have "dic \<noteq> []" "k \<noteq> []" using ne by auto
  moreover have "find (\<lambda>k'. prefix k' t \<and> (\<not> False \<or> k' \<noteq> [])) (map fst dic) = Some k"
    using f by simp
  ultimately show ?thesis
    using v by (simp add: strtr_def strtr_scan.simps [of dic _ False t])
qed

theorem strtr_first_key_wins_witness:
  "''a'' \<noteq> [] \<and> ''ab'' \<noteq> [] \<and> find (\<lambda>k'. prefix k' ''ab'') [''a'', ''ab''] = Some ''a'' \<and>
   strtr ''ab'' [(''a'', ''1''), (''ab'', ''2'')] = sbind (strtr ''b'' [(''a'', ''1''), (''ab'', ''2'')]) (\<lambda>r. Inr (''1'' @ r)) \<and>
   strtr ''ab'' [(''a'', ''1''), (''ab'', ''2'')] = Inr ''1b''"
proof -
  have f: "find (\<lambda>k'. prefix k' ''ab'') (map fst [(''a'', ''1''), (''ab'', ''2'')]) = Some ''a''" by simp
  have e: "strtr ''b'' [(''a'', ''1''), (''ab'', ''2'')] = Inr ''b''" by code_simp
  show ?thesis
    using strtr_first_key_wins [OF _ f, of "''1''"] e by simp
qed

text \<open>
  Examples: with keys \<open>a\<close>, \<open>ab\<close> the string \<open>ab\<close> becomes \<open>1b\<close>, with the keys in the
  other order \<open>2\<close>, and swapping \<open>a\<close> and \<open>b\<close> turns \<open>ab\<close> into \<open>ba\<close>.
\<close>

lemma strtr_examples:
  "strtr ''ab'' [(''a'', ''1''), (''ab'', ''2'')] = Inr ''1b'' \<and>
   strtr ''ab'' [(''ab'', ''2''), (''a'', ''1'')] = Inr ''2'' \<and>
   strtr ''ab'' [(''a'', ''b''), (''b'', ''a'')] = Inr ''ba''"
  by code_simp

end
