(* ===== verification/CorpusSpec.thy ===== *)
theory CorpusSpec
  imports Corpus
begin

text \<open>
  An abstract specification of the container \<open>Corpus\<close> (src/lib/techknacq/corpus.py,
  lines 21--86) and the refinement of theory \<^theory_text>\<open>Corpus\<close> to it. Abstractly the program
  state is a family of dictionaries from ids to documents, one per corpus object
  (\<open>astate\<close>); the operations are dictionary updates (\<open>astep\<close>). The concrete
  heap model, with its association lists of references and its separate document
  objects, is mapped to it by \<open>abs_world\<close>; the theorem \<open>step_refines\<close> shows that every
  operation of a run commutes with the abstraction, and that the abstraction satisfies
  the abstract ownership promise \<open>ainv\<close>.
\<close>

type_synonym adict = "string \<Rightarrow> document option"
type_synonym astate = "cref \<Rightarrow> adict option"

text \<open>
  The abstraction: each corpus is seen as the dictionary its methods expose,
  \<open>corpus[k]\<close> for every key \<open>k in corpus\<close>.
\<close>

definition abs_world :: "world \<Rightarrow> astate" where
  "abs_world w c = map_option (\<lambda>_. view_of w c) (corpora w c)"

text \<open>
  The abstract operations: a new empty dictionary, \<open>d[k] = v\<close>, emptying a dictionary,
  and nothing. \<open>aop_of\<close> says which one a concrete operation performs: \<open>add\<close> stores
  the document stamped with its new back-reference under its id, an \<open>add\<close> that raises
  (no id, or a reference that is not an object) changes no dictionary.
\<close>

datatype aop = ANewCorpus cref | AAdd cref string document | AClear cref | ASkip

fun astep :: "aop \<Rightarrow> astate \<Rightarrow> astate" where
  "astep (ANewCorpus c) A = A(c \<mapsto> Map.empty)"
| "astep (AAdd c k d) A = (case A c of None \<Rightarrow> A | Some m \<Rightarrow> A(c \<mapsto> m(k \<mapsto> d)))"
| "astep (AClear c) A = (case A c of None \<Rightarrow> A | Some _ \<Rightarrow> A(c \<mapsto> Map.empty))"
| "astep ASkip A = A"

definition aop_of :: "world \<Rightarrow> corpus_op \<Rightarrow> aop" where
  "aop_of w op =
     (case op of
        NewDoc _ \<Rightarrow> ASkip
      | NewCorpus \<Rightarrow> ANewCorpus (next_corpus w)
      | Add c r \<Rightarrow>
          (case heap w r of
             None \<Rightarrow> ASkip
           | Some d \<Rightarrow> (case doc_id d of None \<Rightarrow> ASkip | Some k \<Rightarrow> AAdd c k (d\<lparr>corpus := Some c\<rparr>)))
      | Clear c \<Rightarrow> AClear c
      | FixText _ \<Rightarrow> ASkip)"

text \<open>The operations the runs of \<^theory_text>\<open>Corpus\<close> perform: \<open>add\<close> of a document no other corpus holds.\<close>

fun op_allowed :: "world \<Rightarrow> corpus_op \<Rightarrow> bool" where
  "op_allowed w (Add c r) = exclusive w c r"
| "op_allowed w _ = True"

text \<open>What the abstract dictionaries promise: each entry is held under its own id and
  points back to its dictionary.\<close>

definition ainv :: "astate \<Rightarrow> bool" where
  "ainv A = (\<forall>c m k d. A c = Some m \<longrightarrow> m k = Some d \<longrightarrow> doc_id d = Some k \<and> corpus d = Some c)"

definition w_one :: world where
  "w_one = fold step [NewCorpus, NewDoc x_doc] empty_world"

section \<open>Lemmas\<close>

lemma held_map_of: "map_of ds k = Some r \<Longrightarrow> r \<in> snd ` set ds"
  by (force dest: map_of_SomeD)

lemma view_of_eqI:
  assumes "corpora w' c = corpora w c"
    and "\<And>ds r. corpora w c = Some ds \<Longrightarrow> r \<in> snd ` set ds \<Longrightarrow> heap w' r = heap w r"
  shows "view_of w' c = view_of w c"
proof (rule ext)
  fix k
  show "view_of w' c k = view_of w c k"
  proof (cases "corpora w c")
    case (Some ds)
    show ?thesis
    proof (cases "map_of ds k")
      case (Some r)
      with \<open>corpora w c = Some ds\<close> assms(1) assms(2) [OF _ held_map_of [OF Some]] show ?thesis
        by (simp add: view_of_def)
    qed (use Some assms(1) in \<open>simp add: view_of_def\<close>)
  qed (use assms(1) in \<open>simp add: view_of_def\<close>)
qed

lemma abs_world_eqI:
  assumes "corpora w' = corpora w"
    and "\<And>c ds r. corpora w c = Some ds \<Longrightarrow> r \<in> snd ` set ds \<Longrightarrow> heap w' r = heap w r"
  shows "abs_world w' = abs_world w"
proof (rule ext)
  fix c
  have "view_of w' c = view_of w c"
    by (rule view_of_eqI) (simp_all add: assms)
  with assms(1) show "abs_world w' c = abs_world w c" by (simp add: abs_world_def)
qed

lemma abs_world_heap_unheld:
  assumes "\<And>c ds. corpora w c = Some ds \<Longrightarrow> r \<notin> snd ` set ds"
  shows "abs_world (w\<lparr>heap := (heap w)(r \<mapsto> x)\<rparr>) = abs_world w"
proof (rule abs_world_eqI)
  fix c ds r' assume "corpora w c = Some ds" "r' \<in> snd ` set ds"
  with assms have "r' \<noteq> r" by blast
  then show "heap (w\<lparr>heap := (heap w)(r \<mapsto> x)\<rparr>) r' = heap w r'" by simp
qed simp

lemma view_of_add:
  assumes ok: "holds_ok w c ds" and c: "corpora w c = Some ds" and h: "heap w r = Some d"
    and k: "doc_id d = Some k"
  shows "view_of (w\<lparr>heap := (heap w)(r \<mapsto> d'), corpora := (corpora w)(c \<mapsto> AList.update k r ds)\<rparr>) c
           = (view_of w c)(k \<mapsto> d')"
proof (rule ext)
  fix k'
  show "view_of (w\<lparr>heap := (heap w)(r \<mapsto> d'), corpora := (corpora w)(c \<mapsto> AList.update k r ds)\<rparr>) c k'
          = ((view_of w c)(k \<mapsto> d')) k'"
  proof (cases "k' = k")
    case False
    show ?thesis
    proof (cases "map_of ds k'")
      case (Some r')
      obtain d'' where "heap w r' = Some d''" "doc_id d'' = Some k'"
        using ok Some unfolding holds_ok_map_of by blast
      then have "r' \<noteq> r" using h k False by auto
      with Some False c show ?thesis by (simp add: view_of_def update_conv')
    qed (use False c in \<open>simp add: view_of_def update_conv'\<close>)
  qed (simp add: view_of_def update_conv')
qed

lemma abs_world_alloc:
  assumes inv: "world_inv w"
  shows "abs_world (snd (alloc_doc d w)) = abs_world w"
proof (rule abs_world_eqI)
  fix c ds r assume c: "corpora w c = Some ds" and r: "r \<in> snd ` set ds"
  have "next_doc w \<notin> snd ` set ds"
    using inv c not_held_unallocated [of w c ds "next_doc w"] by (simp add: world_inv_def)
  with r have "r \<noteq> next_doc w" by blast
  then show "heap (snd (alloc_doc d w)) r = heap w r" by (simp add: alloc_doc_def)
qed (simp add: alloc_doc_def)

lemma abs_world_add:
  assumes inv: "world_inv w" and ex: "exclusive w c r"
  shows "abs_world (snd (corpus_add c r w)) = astep (aop_of w (Add c r)) (abs_world w)"
proof (cases "heap w r")
  case None
  then show ?thesis by (simp add: corpus_add_def aop_of_def)
next
  case (Some d)
  show ?thesis
  proof (cases "corpora w c")
    case None
    with Some show ?thesis by (simp add: corpus_add_def aop_of_def abs_world_def split: option.splits)
  next
    case c: (Some ds)
    have ok: "holds_ok w c ds" using inv c by (simp add: world_inv_def)
    show ?thesis
    proof (cases "doc_id d")
      case None
      have "r \<notin> snd ` set ds'" if "corpora w c' = Some ds'" for c' ds'
        using inv that Some None not_held_without_id [of w c' ds' r d] by (simp add: world_inv_def)
      then have "abs_world (w\<lparr>heap := (heap w)(r \<mapsto> d\<lparr>corpus := Some c\<rparr>)\<rparr>) = abs_world w"
        by (rule abs_world_heap_unheld)
      with Some c None show ?thesis by (simp add: corpus_add_def aop_of_def)
    next
      case k: (Some k)
      let ?w' = "w\<lparr>heap := (heap w)(r \<mapsto> d\<lparr>corpus := Some c\<rparr>), corpora := (corpora w)(c \<mapsto> AList.update k r ds)\<rparr>"
      have "abs_world ?w' c' = ((abs_world w)(c \<mapsto> (view_of w c)(k \<mapsto> d\<lparr>corpus := Some c\<rparr>))) c'" for c'
      proof (cases "c' = c")
        case True
        then show ?thesis using view_of_add [OF ok c Some k] c by (simp add: abs_world_def)
      next
        case False
        have "view_of ?w' c' = view_of w c'"
        proof (rule view_of_eqI)
          fix ds' r' assume "corpora w c' = Some ds'" "r' \<in> snd ` set ds'"
          with ex False have "r' \<noteq> r" unfolding exclusive_def by blast
          then show "heap ?w' r' = heap w r'" by simp
        qed (use False in simp)
        with False show ?thesis by (simp add: abs_world_def)
      qed
      then have "abs_world ?w' = (abs_world w)(c \<mapsto> (view_of w c)(k \<mapsto> d\<lparr>corpus := Some c\<rparr>))" by (rule ext)
      with Some c k show ?thesis by (simp add: corpus_add_def aop_of_def abs_world_def)
    qed
  qed
qed

lemma abs_world_ainv:
  assumes inv: "world_inv w"
  shows "ainv (abs_world w)"
  unfolding ainv_def
proof (intro allI impI)
  fix c m k d assume A: "abs_world w c = Some m" and M: "m k = Some d"
  obtain ds where c: "corpora w c = Some ds" and m: "m = view_of w c"
    using A by (auto simp: abs_world_def)
  obtain r where r: "map_of ds k = Some r" and h: "heap w r = Some d"
    using M c m by (auto simp: view_of_def split: option.splits)
  have "holds_ok w c ds" using inv c by (simp add: world_inv_def)
  then show "doc_id d = Some k \<and> corpus d = Some c"
    using r h unfolding holds_ok_map_of by fastforce
qed

section \<open>Refinement\<close>

text \<open>
  C11: Refinement of the corpus container. In every reachable world the dictionaries
  seen through \<open>abs_world\<close> keep the abstract promise \<open>ainv\<close>, and each operation a
  run may perform (creating a document or a corpus, \<open>add\<close> of a document no other corpus
  holds, \<open>clear\<close>, \<open>fix_text\<close>) acts on them as the abstract dictionary operation
  \<open>aop_of\<close> names: \<open>abs (step op w) = astep (aop_of w op) (abs w)\<close>.
\<close>

theorem step_refines:
  assumes r: "reachable w" and a: "op_allowed w op"
  shows "ainv (abs_world w) \<and> abs_world (step op w) = astep (aop_of w op) (abs_world w)"
proof -
  have inv: "world_inv w" using r by (rule reachable_inv)
  have "abs_world (step op w) = astep (aop_of w op) (abs_world w)"
  proof (cases op)
    case (NewDoc d)
    then show ?thesis using abs_world_alloc [OF inv] by (simp add: aop_of_def)
  next
    case NewCorpus
    have "abs_world (snd (corpus_new w)) c = ((abs_world w)(next_corpus w \<mapsto> Map.empty)) c" for c
    proof (cases "c = next_corpus w")
      case True
      then show ?thesis by (simp add: abs_world_def corpus_new_def view_of_def fun_eq_iff)
    next
      case False
      have "view_of (snd (corpus_new w)) c = view_of w c"
        by (rule view_of_eqI) (use False in \<open>simp_all add: corpus_new_def\<close>)
      with False show ?thesis by (simp add: abs_world_def corpus_new_def)
    qed
    with NewCorpus show ?thesis by (simp add: aop_of_def fun_eq_iff)
  next
    case (Add c r)
    with a show ?thesis using abs_world_add [OF inv] by simp
  next
    case (Clear c)
    have "abs_world (snd (corpus_clear c w)) c' = astep (AClear c) (abs_world w) c'" for c'
    proof (cases "c' = c")
      case True
      then show ?thesis
        by (simp add: abs_world_def corpus_clear_def view_of_def fun_eq_iff split: option.splits)
    next
      case False
      have "view_of (snd (corpus_clear c w)) c' = view_of w c'"
        by (rule view_of_eqI) (use False in \<open>simp_all add: corpus_clear_def split: option.splits\<close>)
      with False show ?thesis
        by (simp add: abs_world_def corpus_clear_def split: option.splits)
    qed
    with Clear show ?thesis by (simp add: aop_of_def fun_eq_iff)
  next
    case (FixText c)
    then show ?thesis by (simp add: aop_of_def corpus_fix_text_def)
  qed
  with abs_world_ainv [OF inv] show ?thesis by simp
qed

theorem step_refines_witness:
  "reachable w_one \<and> op_allowed w_one (Add 0 0) \<and> ainv (abs_world w_one) \<and>
   abs_world (step (Add 0 0) w_one) = astep (aop_of w_one (Add 0 0)) (abs_world w_one)"
proof -
  have r0: "reachable (step NewCorpus empty_world)"
    by (rule reachable.new_corpus [OF reachable.start])
  have r: "reachable w_one"
    unfolding w_one_def using reachable.new_doc [OF r0] by (simp add: x_doc_def)
  have a: "op_allowed w_one (Add 0 0)"
    by (simp add: w_one_def exclusive_def empty_world_def corpus_new_def alloc_doc_def)
  show ?thesis using step_refines [OF r a] r a by simp
qed

end
