(* ===== verification/Spec2Isabelle.thy ===== *)
theory Spec2Isabelle
  imports TitleCase Ingest Export StrUtil CorpusSpec
begin

text \<open>
  \<^bold>\<open>A verified model of the TechKnAcq corpus module.\<close>

  The program is src/lib/techknacq/corpus.py: a class \<open>Document\<close> (an academic
  document: id, authors, title, book, year, url, a set of referenced ids, a list of
  sections, and a back-reference \<open>corpus\<close> to the corpus that holds it), a class
  \<open>Corpus\<close> (a dictionary from ids to documents, filled from files and written out by
  \<open>export\<close>), and the helpers \<open>title_case\<close>, \<open>filter_non_printable\<close> and \<open>strtr\<close>.
  A corpus is built by \<open>Corpus.__init__\<close> (which calls \<open>Document.__init__\<close> once per
  file or TSV line and \<open>Corpus.add\<close> for each result); \<open>Corpus.export\<close> renders each
  document with \<open>Document.json\<close>, \<open>Document.text\<close> or \<open>Document.bigrams\<close>, and the
  last two follow the references of a document through its \<open>corpus\<close> back-reference.

  \<^bold>\<open>Theories.\<close> Each theory holds one part of the program, its definitions in
  the order of the code, then its lemmas, then its properties (each after a text block
  naming its claim).
  \<^item> \<^theory_text>\<open>Prelude\<close>: Python exceptions as the datatype \<open>py_error\<close>, the result type
    \<open>py_error + 'a\<close> with its bind \<open>sbind\<close>, and the string built-ins the module calls
    (\<open>str.isspace\<close>, \<open>isdigit\<close>, \<open>isalpha\<close>, \<open>lower\<close>, \<open>strip\<close>, \<open>split\<close>, \<open>join\<close>,
    \<open>in\<close>, \<open>os.path.basename\<close>), with their shared lemmas, among them that
    \<open>" ".join\<close> and \<open>split()\<close> undo each other.
  \<^item> \<^theory_text>\<open>Json\<close>: the JSON values of \<open>json.load\<close>/\<open>json.dumps\<close> and dictionary lookup.
  \<^item> \<^theory_text>\<open>TitleCase\<close>: \<open>title_case\<close> (lines 323--327), each \<open>re.sub\<close> pass as the scan
    \<open>re_sub_word\<close>. Lemmas: it keeps the first word and the length, only lowers
    characters, and is not idempotent.
  \<^item> \<^theory_text>\<open>Bigrams\<close>: the sentence-level feature extractor nested in
    \<open>Document.bigrams\<close> (\<open>good_word\<close>, \<open>bigrams_from_sent\<close>, lines 264--286), with a
    reference feature list \<open>feats\<close> and the proof that the code's pair loop plus its
    separate last-token check equals it; consequences for hashtags and pairs.
  \<^item> \<^theory_text>\<open>Document\<close>: the record \<open>document\<close> and the derivations \<open>get_abstract\<close>,
    \<open>json\<close>, \<open>text\<close>, \<open>bigrams\<close> (lines 194--317), the owning corpus given as a lookup
    \<open>corpus_view\<close>. Lemmas: which section the abstract comes from, its bound, the
    \<open>IndexError\<close> and \<open>TypeError\<close> paths, unresolved references skipped.
  \<^item> \<^theory_text>\<open>DocInit\<close>: \<open>Document.__init__\<close> (lines 120--167) as \<open>doc_init\<close>, with the file
    system, \<open>json.load\<close> and the sentence tokenizer as parameters. Lemmas: the TSV and
    JSON round trips, the text form, form inference from the path, the empty
    \<open>xml\<close> form.
  \<^item> \<^theory_text>\<open>Corpus\<close>: the objects as a heap (\<open>world\<close>: documents by reference,
    corpora as association lists updated as Python dicts), the methods \<open>add\<close>,
    \<open>clear\<close>, \<open>|=\<close>, iteration, \<open>[]\<close>, \<open>[]=\<close>, \<open>in\<close>, \<open>fix_text\<close> (lines 21--86) as
    state-passing functions, the operations as a datatype with a step function, and the
    inductive set \<open>reachable\<close> of runs that add each document to one corpus. Lemmas:
    the ownership invariant \<open>world_inv\<close> holds in every reachable world, \<open>add\<close>
    overwrites by id, stamps before it fails, and the code itself does not enforce
    ownership. \<open>|=\<close> of a corpus with itself walks the live dict (\<open>ior_self_loop\<close>): it
    changes nothing in a well-formed world and raises \<open>RuntimeError\<close> when an assigned
    document brings a new id into the dict during the iteration.
  \<^item> \<^theory_text>\<open>Ingest\<close>: \<open>Corpus.__init__\<close> (lines 22--54): the TSV, BioC and directory modes
    over the heap, the outside world as the record \<open>env\<close>. Lemmas: every ingestion that
    returns is a reachable run; which TSV lines abort it and which ids it keeps; the
    directory mode's failure, non-termination and single-processor cases, and that
    it returns in every mode when every JSON file it may load reads and parses; the
    file-name pattern.
  \<^item> \<^theory_text>\<open>CorpusSpec\<close>: what a corpus promises, as an abstract state (each corpus a
    map from ids to documents, \<open>astep\<close> for its operations) and the abstraction
    \<open>abs_world\<close> of the heap. The refinement theorem: in every reachable world each
    operation of \<open>step\<close> whose \<open>add\<close> respects ownership moves the abstraction as the
    abstract operation does, and the abstraction keeps ids and owners consistent.
  \<^item> \<^theory_text>\<open>StrUtil\<close>: the helpers \<open>filter_non_printable\<close> and \<open>strtr\<close>
    (lines 320--332), the latter as the scan \<open>re.sub\<close> makes over the alternation of
    the keys. Lemmas: it fails exactly for the empty dict, and takes the first key in
    dict order rather than the longest.
  \<^item> \<^theory_text>\<open>Export\<close>: \<open>Corpus.export\<close> (lines 88--117) writing into a map from paths to
    contents. Lemmas: one file per document for relative ids, an error leaves an empty
    file, absolute ids escape and collide, an unknown form exits.

  \<^bold>\<open>Across components.\<close> This theory proves that \<open>export\<close> and the JSON reader
  of \<open>Document.__init__\<close> fit together: a corpus exported in the \<open>json\<close> form is read
  back file by file into the documents it held (theorem \<open>export_json_reload\<close>), from
  the invariant of theory \<^theory_text>\<open>Corpus\<close>, the file map of \<^theory_text>\<open>Export\<close> and the record
  shape of \<^theory_text>\<open>DocInit\<close>. Its hypotheses on titles are needed: theory
  \<^theory_text>\<open>TitleCase\<close> shows that \<open>title_case\<close> is not idempotent, so a title read from JSON
  may change when it is written and read again.

  \<^bold>\<open>Correspondence.\<close> A Python method that mutates objects is a function
  \<open>world \<Rightarrow> 'a result \<times> world\<close> (or \<open>files\<close> for export) that returns the state
  reached when it returns or raises: an exception keeps the effects made before it. A
  pure method is a function on the \<open>document\<close> record. Every \<open>raise\<close> the code can
  reach is an \<open>Inl\<close> value, \<open>sys.exit(n)\<close> is \<open>Inl (SystemExit n)\<close>, and
  \<open>DanglingRef\<close> stands for a reference no Python object can have. Loops are
  structural recursion over the lists they iterate, except the scans of
  \<open>str.split()\<close> and \<open>re.split\<close>, which are functions with a termination proof
  (the remaining input shrinks). No fuel is needed: every modelled loop terminates,
  except that in the directory mode of \<open>Corpus.__init__\<close> a worker's
  \<open>sys.exit\<close> makes \<open>pool.imap\<close> wait forever, which the model returns as
  \<open>None\<close>; the theorem \<open>corpus_init_returns\<close> shows that this is the only way
  not to return.

  \<^bold>\<open>Restrictions.\<close> Characters are the Latin-1 range of \<open>char\<close>; the Unicode
  tables of \<open>isdigit\<close>, \<open>isalpha\<close> and \<open>lower\<close> are written out for it. JSON fields
  are read with the types of the data model (strings, string lists, section objects);
  a field of another type raises \<open>TypeError\<close> at once where Python might fail later.
  Reading a file, \<open>json.load\<close>, the sentence tokenizer (\<open>SentTokenizer\<close>), the stop
  lexicon (\<open>StopLexicon\<close>), \<open>nltk.bigrams\<close> (a zip with the tail) and the number of
  processors are parameters, as is the ability to open a path for writing.

  \<^bold>\<open>Not modelled.\<close> \<open>json.dumps\<close> (a file holds the JSON value it prints); the
  printed messages; \<open>Document.roles\<close> (always empty); \<open>Document.dehyphenate\<close>,
  whose body only defines an inner function that is never called (that function
  refers to an undefined name \<open>d\<close>), and the commented-out calls in
  \<open>fix_text\<close>; the BioC reader and writer, which the module calls but does not define.
\<close>


section \<open>Properties across components\<close>

text \<open>
  C13: Export then reload. Exporting a corpus of a well-formed world in the \<open>json\<close> form,
  with relative ids and every file writable, succeeds and writes for each held document
  a file \<open><dest>/<id>.json\<close> from which \<open>Document(path)\<close>'s JSON reader rebuilds that
  document exactly (outside any corpus), provided its title and book are fixed points
  of \<open>title_case\<close>, its authors carry no surrounding whitespace and its reference set
  is finite.
\<close>

theorem export_json_reload:
  assumes inv: "world_inv w" and c: "corpora w c = Some ds"
    and rel: "\<forall>(k, r) \<in> set ds. take 1 k \<noteq> ''/''"
    and op: "\<forall>(k, r) \<in> set ds. opens (path_join dest (k @ ''.json''))"
    and norm: "\<forall>(k, r) \<in> set ds. \<forall>d. heap w r = Some d \<longrightarrow>
                 finite (references d) \<and> title_case (title d) = title d \<and>
                 title_case (book d) = book d \<and> list_all (\<lambda>a. py_strip a = a) (authors d)"
  shows "\<exists>fs'. corpus_export opens c dest False ''json'' stop w fs = (Inr (), fs') \<and>
           (\<forall>(k, r) \<in> set ds. \<exists>d j. heap w r = Some d \<and>
              fs' (path_join dest (k @ ''.json'')) = Some (JsonDump j) \<and>
              doc_from_json (path_join dest (k @ ''.json'')) j = Inr (d\<lparr>corpus := None\<rparr>))"
proof -
  let ?P = "\<lambda>k. path_join dest (k @ form_ext ''json'')"
  let ?L = "map (\<lambda>(k, r). (?P k, projr (export_body w r ''json'' False stop))) ds"
  have h: "distinct (map fst ds)" "\<forall>(k, r) \<in> set ds. \<exists>d. heap w r = Some d \<and> doc_id d = Some k"
    using world_inv_held [OF inv c] by fastforce+
  have ok: "\<forall>(k, r) \<in> set ds. \<not> isl (export_body w r ''json'' False stop)"
    using h(2) by (fastforce simp: export_body_def doc_json_def)
  have dl: "distinct (map fst ?L)" by (rule export_paths_distinct [OF h(1) rel])
  have "export_loop opens w dest False ''json'' stop (map snd ds) fs = (Inr (), fs ++ map_of (rev ?L))"
    by (rule export_loop_all) (use h op ok in \<open>auto simp: form_ext_def\<close>)
  also have "map_of (rev ?L) = map_of ?L" by (rule map_of_rev_distinct [OF dl])
  finally have e: "corpus_export opens c dest False ''json'' stop w fs = (Inr (), fs ++ map_of ?L)"
    using c by (simp add: corpus_export_def corpus_iter_def export_forms_def)
  have each: "\<exists>d j. heap w r = Some d \<and> (fs ++ map_of ?L) (path_join dest (k @ ''.json'')) = Some (JsonDump j) \<and>
                doc_from_json (path_join dest (k @ ''.json'')) j = Inr (d\<lparr>corpus := None\<rparr>)"
    if kr: "(k, r) \<in> set ds" for k r
  proof -
    obtain d where d: "heap w r = Some d" "doc_id d = Some k" using h(2) kr by blast
    obtain j where j: "doc_json False d = Inr j" using d(2) by (simp add: doc_json_def Let_def)
    have "(?P k, JsonDump j) \<in> set ?L" using kr d j by (force simp: export_body_def)
    then have m: "map_of ?L (?P k) = Some (JsonDump j)" by (rule map_of_is_SomeI [OF dl])
    have n: "finite (references d)" "title_case (title d) = title d" "title_case (book d) = book d"
      "map py_strip (authors d) = authors d"
      using norm kr d(1) by (fastforce simp: list_all_iff map_idI)+
    have "doc_from_json (path_join dest (k @ ''.json'')) j = Inr (d\<lparr>corpus := None\<rparr>)"
      using doc_json_shape [OF j] n by (cases d) (auto simp: doc_from_json_simps)
    with d m show ?thesis by (simp add: form_ext_def)
  qed
  show ?thesis using e each by blast
qed

theorem export_json_reload_witness:
  "\<exists>fs'. corpus_export (\<lambda>_. True) 0 ''out'' False ''json'' (\<lambda>_. False) w_exp Map.empty = (Inr (), fs') \<and>
     (\<exists>j. fs' ''out/a.json'' = Some (JsonDump j) \<and>
          doc_from_json ''out/a.json'' j = Inr (x_doc\<lparr>doc_id := Some ''a''\<rparr>))"
proof -
  let ?ds = "[(''a'', 0::nat), (''b'', 1)]"
  have c: "corpora w_exp 0 = Some ?ds"
    by (simp add: w_exp_def empty_world_def corpus_new_def alloc_doc_def corpus_add_def x_doc_def)
  have inv: "world_inv w_exp"
    by (auto simp: w_exp_def empty_world_def corpus_new_def alloc_doc_def corpus_add_def x_doc_def
        world_inv_def holds_ok_def)
  have h0: "heap w_exp 0 = Some (x_doc\<lparr>doc_id := Some ''a'', corpus := Some 0\<rparr>)"
    by (simp add: w_exp_def empty_world_def corpus_new_def alloc_doc_def corpus_add_def x_doc_def)
  have h1: "heap w_exp 1 = Some (x_doc\<lparr>doc_id := Some ''b'', corpus := Some 0\<rparr>)"
    by (simp add: w_exp_def empty_world_def corpus_new_def alloc_doc_def corpus_add_def x_doc_def)
  have tc: "title_case [] = []" by code_simp
  have norm: "\<forall>(k, r) \<in> set ?ds. \<forall>d. heap w_exp r = Some d \<longrightarrow>
                 finite (references d) \<and> title_case (title d) = title d \<and>
                 title_case (book d) = book d \<and> list_all (\<lambda>a. py_strip a = a) (authors d)"
    using h0 h1 tc by (auto simp: x_doc_def)
  have rel: "\<forall>(k, r) \<in> set ?ds. take 1 k \<noteq> ''/''" by simp
  have op: "\<forall>(k, r) \<in> set ?ds. (\<lambda>_. True) (path_join ''out'' (k @ ''.json''))" by simp
  show ?thesis
    using export_json_reload [OF inv c rel op norm, where stop = "\<lambda>_. False" and fs = Map.empty and dest = "''out''"] h0
    by (auto simp: path_join_def x_doc_def)
qed

end
